theory Spec2Isabelle
  imports Main "HOL-Library.Word"
begin

unbundle bit_operations_syntax

section \<open>Endorsement of the cr50 TPM: a model of board/cr50/tpm2/endorsement.c\<close>

text \<open>
  The model follows the C file function by function, for the 32-bit target the file is
  written for (it reads flash at the absolute address \<open>0x43800\<close>): \<open>uint32_t\<close>,
  \<open>size_t\<close> and pointers are \<open>32 word\<close> and wrap around, \<open>uint8_t\<close> is \<open>8 word\<close>,
  \<open>int\<close> results are \<open>int\<close>, multi-byte loads are little-endian.

  Everything the file calls but does not define (the key manager and flash-protection
  registers, the flash driver, the X.509 and HMAC routines, the TPM NV commands) is taken
  as a parameter, the \<open>platform\<close>, acting on a hidden state \<open>'w\<close>. Every call into the
  platform is written to a log, so that claims about what was or was not done can be stated.
  Console output (\<open>CPRINTF\<close>) is not modelled.
\<close>

type_synonym u8 = "8 word"
type_synonym u16 = "16 word"
type_synonym u32 = "32 word"

subsection \<open>Constants and data layout\<close>

definition EK_CERT_NV_START_INDEX :: u32 where
  "EK_CERT_NV_START_INDEX = 0x01C00000"

definition AES256_BLOCK_CIPHER_KEY_SIZE :: nat where
  "AES256_BLOCK_CIPHER_KEY_SIZE = 32"

text \<open>\<open>BUILD_ASSERT(AES256_BLOCK_CIPHER_KEY_SIZE == PRIMARY_SEED_SIZE)\<close> fixes the seed size.\<close>

definition PRIMARY_SEED_SIZE :: nat where
  "PRIMARY_SEED_SIZE = 32"

definition INFO1_EPS_SIZE :: nat where
  "INFO1_EPS_SIZE = PRIMARY_SEED_SIZE"

definition RO_CERTS_START_ADDR :: u32 where
  "RO_CERTS_START_ADDR = 0x43800"

definition RO_CERTS_REGION_SIZE :: u32 where
  "RO_CERTS_REGION_SIZE = 0x0800"

definition CROS_PERSO_COMPONENT_TYPE_EPS :: u8 where
  "CROS_PERSO_COMPONENT_TYPE_EPS = 128"

definition CROS_PERSO_COMPONENT_TYPE_RSA_CERT :: u8 where
  "CROS_PERSO_COMPONENT_TYPE_RSA_CERT = 129"

definition CROS_PERSO_COMPONENT_TYPE_P256_CERT :: u8 where
  "CROS_PERSO_COMPONENT_TYPE_P256_CERT = 130"

record cros_perso_response_component_info_v0 =
  component_size :: u16
  component_type :: u8
  reserved :: "u8 list"

text \<open>
  The flexible array member \<open>cert[0]\<close> is the memory that follows the header: \<open>cert r i\<close>
  is the byte at index \<open>i\<close> behind it.
\<close>

record cros_perso_certificate_response_v0 =
  key_id :: "u8 list"
  cert_len :: u32
  cert :: "nat \<Rightarrow> u8"

definition KEYMGR_CERT_0 :: u32 where "KEYMGR_CERT_0 = 0"
definition KEYMGR_CERT_3 :: u32 where "KEYMGR_CERT_3 = 3"
definition KEYMGR_CERT_4 :: u32 where "KEYMGR_CERT_4 = 4"
definition KEYMGR_CERT_5 :: u32 where "KEYMGR_CERT_5 = 5"
definition KEYMGR_CERT_7 :: u32 where "KEYMGR_CERT_7 = 7"
definition KEYMGR_CERT_15 :: u32 where "KEYMGR_CERT_15 = 15"
definition KEYMGR_CERT_20 :: u32 where "KEYMGR_CERT_20 = 20"
definition KEYMGR_CERT_25 :: u32 where "KEYMGR_CERT_25 = 25"
definition KEYMGR_CERT_26 :: u32 where "KEYMGR_CERT_26 = 26"

definition K_CROS_FW_MAJOR_VERSION :: int where
  "K_CROS_FW_MAJOR_VERSION = 0"

definition k_cr50_max_fw_major_version :: u8 where
  "k_cr50_max_fw_major_version = 254"

definition FIXED_ENDORSEMENT_SEED :: "u8 list" where
  "FIXED_ENDORSEMENT_SEED =
    [0x1c, 0xb0, 0xde, 0x0e, 0x96, 0xe5, 0x58, 0xb0,
     0xad, 0x1d, 0x3a, 0x08, 0x22, 0x41, 0x7f, 0x45,
     0x37, 0xe7, 0x17, 0x42, 0x5d, 0x87, 0xc4, 0x77,
     0xf2, 0x97, 0xf8, 0xdd, 0xb9, 0xa0, 0xe5, 0x3a]"

definition FIXED_RSA_ENDORSEMENT_CERT :: "u8 list" where
  "FIXED_RSA_ENDORSEMENT_CERT =
    [0x30, 0x82, 0x03, 0xeb, 0x30, 0x82, 0x02, 0xd3, 0xa0, 0x03, 0x02, 0x01,
     0x02, 0x02, 0x10, 0x57, 0xd7, 0x5a, 0xbc, 0x74, 0xa8, 0x2e, 0x11, 0x9c,
     0x73, 0x70, 0x2d, 0x3e, 0x15, 0xdf, 0x4e, 0x30, 0x0d, 0x06, 0x09, 0x2a,
     0x86, 0x48, 0x86, 0xf7, 0x0d, 0x01, 0x01, 0x0b, 0x05, 0x00, 0x30, 0x81,
     0x80, 0x31, 0x0b, 0x30, 0x09, 0x06, 0x03, 0x55, 0x04, 0x06, 0x13, 0x02,
     0x55, 0x53, 0x31, 0x13, 0x30, 0x11, 0x06, 0x03, 0x55, 0x04, 0x08, 0x0c,
     0x0a, 0x43, 0x61, 0x6c, 0x69, 0x66, 0x6f, 0x72, 0x6e, 0x69, 0x61, 0x31,
     0x14, 0x30, 0x12, 0x06, 0x03, 0x55, 0x04, 0x0a, 0x0c, 0x0b, 0x47, 0x6f,
     0x6f, 0x67, 0x6c, 0x65, 0x20, 0x49, 0x6e, 0x63, 0x2e, 0x31, 0x24, 0x30,
     0x22, 0x06, 0x03, 0x55, 0x04, 0x0b, 0x0c, 0x1b, 0x45, 0x6e, 0x67, 0x69,
     0x6e, 0x65, 0x65, 0x72, 0x69, 0x6e, 0x67, 0x20, 0x61, 0x6e, 0x64, 0x20,
     0x44, 0x65, 0x76, 0x65, 0x6c, 0x6f, 0x70, 0x6d, 0x65, 0x6e, 0x74, 0x31,
     0x20, 0x30, 0x1e, 0x06, 0x03, 0x55, 0x04, 0x03, 0x0c, 0x17, 0x43, 0x52,
     0x4f, 0x53, 0x20, 0x54, 0x50, 0x4d, 0x20, 0x44, 0x45, 0x56, 0x20, 0x45,
     0x4b, 0x20, 0x52, 0x4f, 0x4f, 0x54, 0x20, 0x43, 0x41, 0x30, 0x1e, 0x17,
     0x0d, 0x31, 0x36, 0x31, 0x30, 0x32, 0x30, 0x30, 0x30, 0x34, 0x39, 0x33,
     0x36, 0x5a, 0x17, 0x0d, 0x32, 0x36, 0x31, 0x30, 0x31, 0x38, 0x30, 0x30,
     0x34, 0x39, 0x33, 0x36, 0x5a, 0x30, 0x00, 0x30, 0x82, 0x01, 0x22, 0x30,
     0x0d, 0x06, 0x09, 0x2a, 0x86, 0x48, 0x86, 0xf7, 0x0d, 0x01, 0x01, 0x01,
     0x05, 0x00, 0x03, 0x82, 0x01, 0x0f, 0x00, 0x30, 0x82, 0x01, 0x0a, 0x02,
     0x82, 0x01, 0x01, 0x00, 0xae, 0x3f, 0x7e, 0x66, 0x78, 0x26, 0x7a, 0x38,
     0x93, 0xaf, 0x9c, 0xe4, 0x2c, 0x3c, 0x9e, 0x11, 0xb7, 0xae, 0x2f, 0x71,
     0x8d, 0x4f, 0x2e, 0x3f, 0xd2, 0x35, 0x18, 0xb0, 0x27, 0x04, 0x4e, 0x04,
     0x66, 0xb2, 0x16, 0xd4, 0xa8, 0xfc, 0x51, 0x60, 0x1b, 0x05, 0x1c, 0x02,
     0xb5, 0x77, 0x1b, 0xf6, 0x40, 0xc4, 0x0e, 0x01, 0xbf, 0x70, 0xc1, 0x68,
     0x53, 0x8b, 0x20, 0x4c, 0xa3, 0x39, 0x09, 0xd4, 0x4e, 0x28, 0x7c, 0x1d,
     0xda, 0x57, 0x5c, 0x41, 0xae, 0x9b, 0xf3, 0xd5, 0xd3, 0x46, 0x12, 0x3d,
     0x43, 0xcc, 0x39, 0x29, 0x79, 0x9d, 0xe5, 0x87, 0x84, 0x22, 0x85, 0x4b,
     0x49, 0x35, 0x16, 0x4f, 0x3b, 0xdd, 0xd8, 0xaf, 0xe3, 0x99, 0xfa, 0x37,
     0xaf, 0xbd, 0xa9, 0x38, 0xb4, 0x47, 0x58, 0x1e, 0x71, 0xb2, 0x46, 0xf2,
     0x14, 0x85, 0x43, 0x12, 0x55, 0x8b, 0xc3, 0x5b, 0x78, 0x86, 0xd0, 0x0b,
     0x08, 0x87, 0x1d, 0xf7, 0x4c, 0x69, 0x47, 0x91, 0xd1, 0x16, 0x5c, 0x0e,
     0xf7, 0x0d, 0xad, 0x4a, 0x2d, 0xd8, 0x74, 0xe2, 0x89, 0xe1, 0xaf, 0xd7,
     0x54, 0xb6, 0xe0, 0x36, 0x76, 0x7b, 0xd4, 0x6d, 0x50, 0x64, 0x13, 0x5b,
     0x86, 0xa8, 0xa7, 0xee, 0xed, 0xf9, 0x50, 0x4d, 0xac, 0x1d, 0x1f, 0x9c,
     0x1b, 0x58, 0x19, 0xa5, 0x20, 0x19, 0x75, 0xb7, 0xcf, 0xf6, 0x37, 0x59,
     0x2a, 0xc7, 0x5b, 0x14, 0x51, 0xe6, 0x64, 0x70, 0xcc, 0x0e, 0x90, 0x9f,
     0xe8, 0xf3, 0xc5, 0x95, 0x41, 0x74, 0x24, 0xb4, 0x6d, 0x37, 0x4a, 0x90,
     0x17, 0x0e, 0x11, 0xea, 0xde, 0x74, 0x0e, 0x05, 0x4d, 0x1f, 0x9c, 0x11,
     0xea, 0x06, 0xbd, 0x90, 0x9a, 0x9f, 0x44, 0x55, 0x0f, 0x93, 0x82, 0x96,
     0xfc, 0x29, 0xb7, 0x26, 0x5e, 0x01, 0x25, 0x55, 0x4b, 0x80, 0xda, 0xd6,
     0x2d, 0xe0, 0xd9, 0x65, 0xcf, 0xcb, 0x7a, 0x2b, 0x02, 0x03, 0x01, 0x00,
     0x01, 0xa3, 0x81, 0xdf, 0x30, 0x81, 0xdc, 0x30, 0x0e, 0x06, 0x03, 0x55,
     0x1d, 0x0f, 0x01, 0x01, 0xff, 0x04, 0x04, 0x03, 0x02, 0x00, 0x20, 0x30,
     0x51, 0x06, 0x03, 0x55, 0x1d, 0x11, 0x01, 0x01, 0xff, 0x04, 0x47, 0x30,
     0x45, 0xa4, 0x43, 0x30, 0x41, 0x31, 0x16, 0x30, 0x14, 0x06, 0x05, 0x67,
     0x81, 0x05, 0x02, 0x01, 0x0c, 0x0b, 0x69, 0x64, 0x3a, 0x34, 0x37, 0x34,
     0x46, 0x34, 0x46, 0x34, 0x37, 0x31, 0x0f, 0x30, 0x0d, 0x06, 0x05, 0x67,
     0x81, 0x05, 0x02, 0x02, 0x0c, 0x04, 0x48, 0x31, 0x42, 0x32, 0x31, 0x16,
     0x30, 0x14, 0x06, 0x05, 0x67, 0x81, 0x05, 0x02, 0x03, 0x0c, 0x0b, 0x69,
     0x64, 0x3a, 0x30, 0x30, 0x31, 0x33, 0x30, 0x30, 0x33, 0x37, 0x30, 0x0c,
     0x06, 0x03, 0x55, 0x1d, 0x13, 0x01, 0x01, 0xff, 0x04, 0x02, 0x30, 0x00,
     0x30, 0x13, 0x06, 0x03, 0x55, 0x1d, 0x20, 0x04, 0x0c, 0x30, 0x0a, 0x30,
     0x08, 0x06, 0x06, 0x67, 0x81, 0x0c, 0x01, 0x02, 0x02, 0x30, 0x1f, 0x06,
     0x03, 0x55, 0x1d, 0x23, 0x04, 0x18, 0x30, 0x16, 0x80, 0x14, 0xd5, 0xfd,
     0x4b, 0xf1, 0xbe, 0x05, 0xfb, 0x13, 0x28, 0xe2, 0x5f, 0x39, 0xd3, 0x9d,
     0x70, 0x4a, 0x48, 0x91, 0x6b, 0xb0, 0x30, 0x10, 0x06, 0x03, 0x55, 0x1d,
     0x25, 0x04, 0x09, 0x30, 0x07, 0x06, 0x05, 0x67, 0x81, 0x05, 0x08, 0x01,
     0x30, 0x21, 0x06, 0x03, 0x55, 0x1d, 0x09, 0x04, 0x1a, 0x30, 0x18, 0x30,
     0x16, 0x06, 0x05, 0x67, 0x81, 0x05, 0x02, 0x10, 0x31, 0x0d, 0x30, 0x0b,
     0x0c, 0x03, 0x32, 0x2e, 0x30, 0x02, 0x01, 0x00, 0x02, 0x01, 0x10, 0x30,
     0x0d, 0x06, 0x09, 0x2a, 0x86, 0x48, 0x86, 0xf7, 0x0d, 0x01, 0x01, 0x0b,
     0x05, 0x00, 0x03, 0x82, 0x01, 0x01, 0x00, 0x4c, 0x65, 0x3f, 0x58, 0x73,
     0xb6, 0x21, 0x72, 0xb3, 0x2c, 0xc3, 0x94, 0xf4, 0xb3, 0xe0, 0x74, 0xa3,
     0x2e, 0x47, 0xa7, 0x63, 0x12, 0xa3, 0x0f, 0xc5, 0x18, 0x45, 0x06, 0xab,
     0xa9, 0xba, 0x64, 0xf0, 0xeb, 0x18, 0x7c, 0xba, 0x57, 0x09, 0xd0, 0x11,
     0x60, 0x6f, 0xbd, 0x52, 0x73, 0xab, 0x39, 0x81, 0x29, 0xab, 0x78, 0x84,
     0xec, 0x00, 0xe3, 0x87, 0xec, 0xf1, 0x7d, 0x2e, 0x15, 0x3f, 0xad, 0x1b,
     0x3a, 0x3f, 0x03, 0x53, 0x91, 0xee, 0x72, 0x7a, 0x87, 0x74, 0xa8, 0x09,
     0x7d, 0x83, 0x37, 0x0d, 0x46, 0x22, 0x12, 0xf3, 0x79, 0x61, 0xaf, 0x80,
     0xf3, 0xf4, 0x76, 0x7d, 0xbd, 0xb3, 0x1f, 0x87, 0xb8, 0x66, 0xc9, 0x24,
     0x15, 0xe9, 0xc7, 0x5b, 0x19, 0xdf, 0x04, 0x0a, 0x47, 0xec, 0x88, 0x46,
     0x7f, 0x20, 0x6c, 0x4b, 0x23, 0xdb, 0x65, 0x67, 0x54, 0xde, 0x3a, 0xc3,
     0x64, 0xbb, 0x77, 0x4d, 0x6d, 0x4b, 0x1e, 0x43, 0x9a, 0x35, 0x20, 0x7e,
     0x28, 0xce, 0x4e, 0xe5, 0xb7, 0x0b, 0xae, 0xd0, 0x26, 0xc0, 0xac, 0x2f,
     0x79, 0x35, 0x71, 0xbd, 0x74, 0x68, 0x8d, 0x51, 0x6f, 0x84, 0x4d, 0xaa,
     0xca, 0x0d, 0xf0, 0xa8, 0x41, 0x5c, 0xa9, 0x6e, 0x3b, 0x70, 0x15, 0x73,
     0x8d, 0xf0, 0x70, 0xd3, 0xb3, 0x0e, 0xa7, 0x3a, 0x34, 0x12, 0xd2, 0x1e,
     0xa4, 0x18, 0x4c, 0x31, 0xee, 0x26, 0x44, 0x24, 0xe0, 0xa5, 0xca, 0x56,
     0x5d, 0x76, 0x9e, 0xf4, 0x9a, 0x6e, 0x2b, 0xd6, 0x4a, 0xe9, 0x47, 0xd9,
     0x29, 0x94, 0x2d, 0x23, 0xf7, 0xbb, 0x13, 0x0c, 0x48, 0x73, 0x93, 0xe3,
     0x49, 0xc7, 0xd8, 0xca, 0x5d, 0x63, 0xf5, 0x68, 0xb2, 0xe9, 0x1a, 0xe6,
     0x87, 0x39, 0xf8, 0x12, 0xa7, 0x5c, 0xb2, 0x6e, 0x04, 0xd0, 0x73, 0x3a,
     0x05, 0x77, 0xc0, 0x9f, 0x23, 0xa7, 0x1a, 0x71, 0x38, 0x55, 0x70]"

definition FIXED_ECC_ENDORSEMENT_CERT :: "u8 list" where
  "FIXED_ECC_ENDORSEMENT_CERT =
    [0x30, 0x82, 0x03, 0x20, 0x30, 0x82, 0x02, 0x08, 0xa0, 0x03, 0x02, 0x01,
     0x02, 0x02, 0x10, 0x67, 0x02, 0x3f, 0x35, 0xc3, 0x17, 0xad, 0xcf, 0x0a,
     0x76, 0xed, 0x50, 0x17, 0xd8, 0x4e, 0x50, 0x30, 0x0d, 0x06, 0x09, 0x2a,
     0x86, 0x48, 0x86, 0xf7, 0x0d, 0x01, 0x01, 0x0b, 0x05, 0x00, 0x30, 0x81,
     0x80, 0x31, 0x0b, 0x30, 0x09, 0x06, 0x03, 0x55, 0x04, 0x06, 0x13, 0x02,
     0x55, 0x53, 0x31, 0x13, 0x30, 0x11, 0x06, 0x03, 0x55, 0x04, 0x08, 0x0c,
     0x0a, 0x43, 0x61, 0x6c, 0x69, 0x66, 0x6f, 0x72, 0x6e, 0x69, 0x61, 0x31,
     0x14, 0x30, 0x12, 0x06, 0x03, 0x55, 0x04, 0x0a, 0x0c, 0x0b, 0x47, 0x6f,
     0x6f, 0x67, 0x6c, 0x65, 0x20, 0x49, 0x6e, 0x63, 0x2e, 0x31, 0x24, 0x30,
     0x22, 0x06, 0x03, 0x55, 0x04, 0x0b, 0x0c, 0x1b, 0x45, 0x6e, 0x67, 0x69,
     0x6e, 0x65, 0x65, 0x72, 0x69, 0x6e, 0x67, 0x20, 0x61, 0x6e, 0x64, 0x20,
     0x44, 0x65, 0x76, 0x65, 0x6c, 0x6f, 0x70, 0x6d, 0x65, 0x6e, 0x74, 0x31,
     0x20, 0x30, 0x1e, 0x06, 0x03, 0x55, 0x04, 0x03, 0x0c, 0x17, 0x43, 0x52,
     0x4f, 0x53, 0x20, 0x54, 0x50, 0x4d, 0x20, 0x44, 0x45, 0x56, 0x20, 0x45,
     0x4b, 0x20, 0x52, 0x4f, 0x4f, 0x54, 0x20, 0x43, 0x41, 0x30, 0x1e, 0x17,
     0x0d, 0x31, 0x36, 0x31, 0x30, 0x32, 0x30, 0x30, 0x30, 0x34, 0x39, 0x33,
     0x36, 0x5a, 0x17, 0x0d, 0x32, 0x36, 0x31, 0x30, 0x31, 0x38, 0x30, 0x30,
     0x34, 0x39, 0x33, 0x36, 0x5a, 0x30, 0x00, 0x30, 0x59, 0x30, 0x13, 0x06,
     0x07, 0x2a, 0x86, 0x48, 0xce, 0x3d, 0x02, 0x01, 0x06, 0x08, 0x2a, 0x86,
     0x48, 0xce, 0x3d, 0x03, 0x01, 0x07, 0x03, 0x42, 0x00, 0x04, 0x6e, 0xcc,
     0xf0, 0x96, 0x69, 0x9b, 0x3f, 0xea, 0x95, 0xb7, 0xd5, 0x00, 0x27, 0x20,
     0x81, 0x8e, 0x57, 0x00, 0x6f, 0x67, 0x98, 0xce, 0x8e, 0xdf, 0xc7, 0xda,
     0xae, 0xa8, 0xa3, 0xed, 0x3e, 0x7a, 0xb3, 0x27, 0xbf, 0x92, 0xee, 0xb2,
     0xa2, 0x76, 0x81, 0xc1, 0x71, 0x4d, 0x8c, 0xa8, 0x9d, 0xfd, 0x8e, 0xd0,
     0x29, 0xb5, 0x01, 0x20, 0xec, 0x78, 0xc0, 0x17, 0x8f, 0xf6, 0xf8, 0x67,
     0x5f, 0xe8, 0xa3, 0x81, 0xdf, 0x30, 0x81, 0xdc, 0x30, 0x0e, 0x06, 0x03,
     0x55, 0x1d, 0x0f, 0x01, 0x01, 0xff, 0x04, 0x04, 0x03, 0x02, 0x00, 0x20,
     0x30, 0x51, 0x06, 0x03, 0x55, 0x1d, 0x11, 0x01, 0x01, 0xff, 0x04, 0x47,
     0x30, 0x45, 0xa4, 0x43, 0x30, 0x41, 0x31, 0x16, 0x30, 0x14, 0x06, 0x05,
     0x67, 0x81, 0x05, 0x02, 0x01, 0x0c, 0x0b, 0x69, 0x64, 0x3a, 0x34, 0x37,
     0x34, 0x46, 0x34, 0x46, 0x34, 0x37, 0x31, 0x0f, 0x30, 0x0d, 0x06, 0x05,
     0x67, 0x81, 0x05, 0x02, 0x02, 0x0c, 0x04, 0x48, 0x31, 0x42, 0x32, 0x31,
     0x16, 0x30, 0x14, 0x06, 0x05, 0x67, 0x81, 0x05, 0x02, 0x03, 0x0c, 0x0b,
     0x69, 0x64, 0x3a, 0x30, 0x30, 0x31, 0x33, 0x30, 0x30, 0x33, 0x37, 0x30,
     0x0c, 0x06, 0x03, 0x55, 0x1d, 0x13, 0x01, 0x01, 0xff, 0x04, 0x02, 0x30,
     0x00, 0x30, 0x13, 0x06, 0x03, 0x55, 0x1d, 0x20, 0x04, 0x0c, 0x30, 0x0a,
     0x30, 0x08, 0x06, 0x06, 0x67, 0x81, 0x0c, 0x01, 0x02, 0x02, 0x30, 0x1f,
     0x06, 0x03, 0x55, 0x1d, 0x23, 0x04, 0x18, 0x30, 0x16, 0x80, 0x14, 0xd5,
     0xfd, 0x4b, 0xf1, 0xbe, 0x05, 0xfb, 0x13, 0x28, 0xe2, 0x5f, 0x39, 0xd3,
     0x9d, 0x70, 0x4a, 0x48, 0x91, 0x6b, 0xb0, 0x30, 0x10, 0x06, 0x03, 0x55,
     0x1d, 0x25, 0x04, 0x09, 0x30, 0x07, 0x06, 0x05, 0x67, 0x81, 0x05, 0x08,
     0x01, 0x30, 0x21, 0x06, 0x03, 0x55, 0x1d, 0x09, 0x04, 0x1a, 0x30, 0x18,
     0x30, 0x16, 0x06, 0x05, 0x67, 0x81, 0x05, 0x02, 0x10, 0x31, 0x0d, 0x30,
     0x0b, 0x0c, 0x03, 0x32, 0x2e, 0x30, 0x02, 0x01, 0x00, 0x02, 0x01, 0x10,
     0x30, 0x0d, 0x06, 0x09, 0x2a, 0x86, 0x48, 0x86, 0xf7, 0x0d, 0x01, 0x01,
     0x0b, 0x05, 0x00, 0x03, 0x82, 0x01, 0x01, 0x00, 0x21, 0xab, 0x9e, 0x92,
     0x4d, 0xb0, 0x50, 0x04, 0xeb, 0x2b, 0xb6, 0xcc, 0x87, 0x8c, 0xa8, 0x27,
     0xe3, 0x5a, 0xbf, 0x03, 0x5d, 0xb1, 0x4d, 0x24, 0xda, 0xdf, 0x44, 0xdb,
     0x4a, 0x37, 0x5c, 0x3e, 0x70, 0xf3, 0x35, 0x5d, 0x26, 0x2e, 0xaa, 0x85,
     0xc6, 0xbe, 0x1c, 0x9d, 0x1e, 0x5f, 0xf6, 0x6c, 0xb8, 0x94, 0x41, 0x25,
     0x20, 0x55, 0x28, 0x53, 0x55, 0x67, 0x9a, 0xb5, 0xfb, 0x6b, 0x57, 0x09,
     0xf0, 0x5b, 0xe2, 0x66, 0xc5, 0xe8, 0xd1, 0x9e, 0xb8, 0xb7, 0xed, 0xd8,
     0x41, 0xb5, 0xbd, 0x44, 0xd9, 0x53, 0xab, 0x2d, 0x17, 0x4c, 0x73, 0x05,
     0x19, 0x2c, 0x9d, 0x18, 0x98, 0xd8, 0x55, 0xbe, 0xbd, 0xb6, 0xa5, 0xf6,
     0x5f, 0x3d, 0x70, 0x98, 0xd6, 0xd0, 0xcf, 0x1c, 0x0d, 0xc6, 0x78, 0x6d,
     0x2e, 0x9c, 0x44, 0xf6, 0x9e, 0x0a, 0x80, 0x12, 0xcd, 0x9b, 0x4b, 0x1f,
     0xbc, 0xfe, 0xe7, 0x3f, 0x45, 0x81, 0x78, 0x43, 0x40, 0xf2, 0xb0, 0x6b,
     0x2c, 0x23, 0xc8, 0xc8, 0x57, 0xc6, 0x33, 0x08, 0x3e, 0x17, 0x43, 0x16,
     0xf0, 0x3f, 0xbf, 0x24, 0x54, 0xba, 0xe6, 0x85, 0x4c, 0xc8, 0x2e, 0x7f,
     0x88, 0x41, 0x6c, 0x4e, 0x03, 0xa6, 0x35, 0x00, 0x4d, 0xdb, 0x65, 0x68,
     0x78, 0x01, 0x40, 0xc6, 0xa0, 0x95, 0xd9, 0xe9, 0x27, 0xe1, 0x90, 0x20,
     0xc8, 0xe6, 0xa7, 0x7c, 0x4d, 0x9c, 0x1c, 0x44, 0x47, 0xfe, 0x9e, 0xc9,
     0x25, 0x7a, 0x07, 0xa9, 0x86, 0x60, 0x58, 0x18, 0x1c, 0x16, 0x18, 0x7e,
     0x04, 0xd6, 0x5a, 0xb6, 0xcb, 0xb6, 0xa6, 0x0f, 0xd9, 0x42, 0xf3, 0x19,
     0x8c, 0xbe, 0x26, 0x98, 0xdd, 0x07, 0x05, 0x76, 0xc0, 0xf9, 0xa4, 0xeb,
     0x53, 0xff, 0x13, 0x27, 0x61, 0x87, 0x66, 0x99, 0x76, 0x9c, 0x5f, 0x03,
     0x52, 0x95, 0x13, 0x6e, 0xb7, 0x33, 0x1f, 0x8d, 0xc6, 0x22, 0xd8, 0xe4]"

definition TEST_ENDORSEMENT_CA_RSA_N :: "u32 list" where
  "TEST_ENDORSEMENT_CA_RSA_N =
    [0xfa3b34ed, 0x3c59ad05, 0x912d6623, 0x83302402,
     0xd43b6755, 0x5777021a, 0xaf37e9a1, 0x45c0e8ad,
     0x9728f946, 0x4391523d, 0xdf7a9164, 0x88f1a9ae,
     0x036c557e, 0x5d9df43e, 0x3e65de68, 0xe172008a,
     0x709dc81f, 0x27a75fe0, 0x3e77f89e, 0x4f400ecc,
     0x51a17dae, 0x2ff9c652, 0xd1d83cdb, 0x20d26349,
     0xbbad71dd, 0x30051b2b, 0x276b2459, 0x809bb8e1,
     0xb8737049, 0xdbe94466, 0x8287072b, 0x070ef311,
     0x6e2a26de, 0x29d69f11, 0x96463d95, 0xb4dc6950,
     0x097d4dfe, 0x1b4a88cc, 0xbd6b50c8, 0x9f7a5b34,
     0xda22c199, 0x9d1ac04b, 0x136af5e5, 0xb1a0e824,
     0x4a065b34, 0x1f67fb46, 0xa1f91ab1, 0x27bb769f,
     0xb704c992, 0xb669cbf4, 0x9299bb6c, 0xcb1b2208,
     0x2dc0d9db, 0xe1513e13, 0xc7f24923, 0xa74c6bcc,
     0xca1a9a69, 0x1b994244, 0x4f64b0d9, 0x78607fd6,
     0x486fb315, 0xa1098c31, 0x5dc50dd6, 0xcdc10874]"

definition PROD_ENDORSEMENT_CA_RSA_N :: "u32 list" where
  "PROD_ENDORSEMENT_CA_RSA_N =
    [0xeb6a07bf, 0x6cf8eca6, 0x4756e85e, 0x2fc3874c,
     0xa4c23e87, 0xc364dffe, 0x2a2ddb95, 0x2f7f0e1e,
     0xdb485bd8, 0xce8aa808, 0xe062001b, 0x187811c3,
     0x0e400462, 0xb7097a01, 0xb988152b, 0xba9d058a,
     0x814b6691, 0xc70a694f, 0x8108c7f0, 0x4c7a1f33,
     0x5cfda48e, 0xef303dbc, 0x84f5a3ea, 0x14607435,
     0xc72f1e60, 0x345d0b38, 0x0ac16927, 0xbdf903c7,
     0x11b660ed, 0x21ebfe0e, 0x8c8b303c, 0xd6eff6cb,
     0x76156bf7, 0x57735ce4, 0x8b7a87ed, 0x7a757188,
     0xd4fb3eb0, 0xc67fa05d, 0x163f0cf5, 0x69d8abf3,
     0xec105749, 0x1de78f37, 0xb885a62f, 0x81344a82,
     0x390df2b7, 0x58a7c56a, 0xa938f471, 0x506ee7d4,
     0x2ca0f2a3, 0x2aa5392c, 0x39052797, 0x199e837c,
     0x0d367b81, 0xb7bbff6f, 0x0ea99f5f, 0xfbac0d2a,
     0x7bbe018d, 0x265fc995, 0x34f73008, 0x5e2cd747,
     0x42096e33, 0x0c15f816, 0xffa7f7d2, 0xbd6f0198]"

text \<open>\<open>struct RSA\<close>: public exponent, modulus, private exponent.\<close>

record RSA =
  rsa_e :: u32
  rsa_N :: "u32 list"
  rsa_d :: "u32 list"

subsection \<open>The platform\<close>

text \<open>The registers the file touches through \<open>GREG32\<close>.\<close>

datatype reg =
    KEYMGR_SHA_ITOP
  | KEYMGR_SHA_USE_CERT_INDEX
  | KEYMGR_SHA_CFG_EN
  | KEYMGR_SHA_TRIG
  | KEYMGR_HKEY_ERR_FLAGS
  | KEYMGR_HKEY_FRR nat
  | GLOBALSEC_FLASH_REGION6_BASE_ADDR
  | GLOBALSEC_FLASH_REGION6_SIZE
  | GLOBALSEC_FLASH_REGION6_CTRL
  | GLOBALSEC_FLASH_REGION7_BASE_ADDR
  | GLOBALSEC_FLASH_REGION7_SIZE
  | GLOBALSEC_FLASH_REGION7_CTRL

text \<open>
  The NV attributes that \<open>store_cert\<close> sets; every other bit of \<open>TPMA_NV\<close> stays zero
  from the \<open>memset\<close>.
\<close>

record TPMA_NV =
  TPMA_NV_PPWRITE :: bool
  TPMA_NV_WRITEDEFINE :: bool
  TPMA_NV_PLATFORMCREATE :: bool
  TPMA_NV_AUTHREAD :: bool
  TPMA_NV_NO_DA :: bool

text \<open>The fields of \<open>NV_DefineSpace_In\<close> and \<open>NV_Write_In\<close> that \<open>store_cert\<close> fills in.\<close>

record NV_DefineSpace_In =
  ds_authHandle :: u32
  ds_auth_size :: nat
  ds_publicInfo_size :: nat
  ds_nvIndex :: u32
  ds_nameAlg :: u32
  ds_attributes :: TPMA_NV
  ds_authPolicy_size :: nat
  ds_dataSize :: u32

record NV_Write_In =
  wr_nvIndex :: u32
  wr_authHandle :: u32
  wr_data_size :: u32
  wr_data_buffer :: "u8 list"
  wr_offset :: nat

text \<open>
  The log of calls into the platform. An entry carries the arguments of the call and,
  where there is one, its result.
\<close>

datatype event =
    RegWrite reg u32
  | RegRead reg u32
  | FlashInfoReadWord u32 int u32
  | X509Verify "u8 list" RSA int
  | HmacSha256 "u8 list" "u8 list"
  | HierarchyStartupCall u32
  | NvDefineSpaceCall NV_DefineSpace_In u32
  | NvWriteCall NV_Write_In u32
  | GpEPSeedCopy "u8 list"
  | NvWriteReservedCall u32
  | NvCommitCall int

text \<open>
  Constants that come from headers outside this file. They are parameters of the model.
\<close>

record target_consts =
  GC_KEYMGR_SHA_USE_CERT_INDEX_LSB :: nat
  GC_KEYMGR_SHA_USE_CERT_ENABLE_MASK :: u32
  GC_KEYMGR_SHA_CFG_EN_INT_EN_DONE_MASK :: u32
  GC_KEYMGR_SHA_TRIG_TRIG_GO_MASK :: u32
  GC_KEYMGR_SHA_TRIG_TRIG_RESET_MASK :: u32
  FLASH_INFO_MEMORY_BASE :: u32
  FLASH_INFO_MANUFACTURE_STATE_OFFSET :: u32
  FLASH_INFO_MANUFACTURE_STATE_SIZE :: u32
  GC_GLOBALSEC_FLASH_REGION6_CTRL_EN_MASK :: u32
  GC_GLOBALSEC_FLASH_REGION6_CTRL_RD_EN_MASK :: u32
  GC_GLOBALSEC_FLASH_REGION7_CTRL_EN_MASK :: u32
  GC_GLOBALSEC_FLASH_REGION7_CTRL_RD_EN_MASK :: u32
  MAX_NV_BUFFER_SIZE :: u32
  EC_SUCCESS :: int
  TPM_RC_SUCCESS :: u32
  TPM_RH_PLATFORM :: u32
  TPM_ALG_SHA256 :: u32
  SU_RESET :: u32
  NV_EP_SEED :: u32
  sizeof_nvPublic :: nat
  RSA_F4 :: u32

text \<open>The two root keys: the moduli above, the public exponent \<open>RSA_F4\<close>, no private exponent.\<close>

definition TEST_ENDORSEMENT_CA_RSA_PUB :: "target_consts \<Rightarrow> RSA" where
  "TEST_ENDORSEMENT_CA_RSA_PUB K =
     \<lparr>rsa_e = RSA_F4 K, rsa_N = TEST_ENDORSEMENT_CA_RSA_N, rsa_d = []\<rparr>"

definition PROD_ENDORSEMENT_CA_RSA_PUB :: "target_consts \<Rightarrow> RSA" where
  "PROD_ENDORSEMENT_CA_RSA_PUB K =
     \<lparr>rsa_e = RSA_F4 K, rsa_N = PROD_ENDORSEMENT_CA_RSA_N, rsa_d = []\<rparr>"

text \<open>
  The platform: the constants, the content of the flash address space (read-only for this
  file: the RO certificate region is written at manufacture), and the operations on the
  hidden state. Signature verification and HMAC are functions of their arguments.
  \<open>gp_EPSeed_copy_fn\<close> is the \<open>memcpy\<close> into the global \<open>gp.EPSeed.t.buffer\<close>.
\<close>

record 'w platform =
  tc :: target_consts
  flash :: "u32 \<Rightarrow> u8"
  reg_write_fn :: "reg \<Rightarrow> u32 \<Rightarrow> 'w \<Rightarrow> 'w"
  reg_read_fn :: "reg \<Rightarrow> 'w \<Rightarrow> u32 \<times> 'w"
  flash_info_read_fn :: "u32 \<Rightarrow> 'w \<Rightarrow> (int \<times> u32) \<times> 'w"
  x509_verify_fn :: "u8 list \<Rightarrow> RSA \<Rightarrow> int"
  hmac_sha256_fn :: "u8 list \<Rightarrow> u8 list \<Rightarrow> u8 list"
  hierarchy_startup_fn :: "u32 \<Rightarrow> 'w \<Rightarrow> 'w"
  nv_define_space_fn :: "NV_DefineSpace_In \<Rightarrow> 'w \<Rightarrow> u32 \<times> 'w"
  nv_write_fn :: "NV_Write_In \<Rightarrow> 'w \<Rightarrow> u32 \<times> 'w"
  gp_EPSeed_copy_fn :: "u8 list \<Rightarrow> 'w \<Rightarrow> 'w"
  nv_write_reserved_fn :: "u32 \<Rightarrow> 'w \<Rightarrow> 'w"
  nv_commit_fn :: "'w \<Rightarrow> int \<times> 'w"

text \<open>The state: the platform's hidden state and the log, newest entry first.\<close>

record 'w st =
  hw :: 'w
  log :: "event list"

definition trace :: "'w st \<Rightarrow> event list" where
  "trace s = rev (log s)"

definition emit :: "event \<Rightarrow> 'w st \<Rightarrow> 'w st" where
  "emit e s = s\<lparr>log := e # log s\<rparr>"

definition GREG32_write :: "'w platform \<Rightarrow> reg \<Rightarrow> u32 \<Rightarrow> 'w st \<Rightarrow> 'w st" where
  "GREG32_write P r v s = emit (RegWrite r v) (s\<lparr>hw := reg_write_fn P r v (hw s)\<rparr>)"

definition GREG32_read :: "'w platform \<Rightarrow> reg \<Rightarrow> 'w st \<Rightarrow> u32 \<times> 'w st" where
  "GREG32_read P r s =
     (let (v, w) = reg_read_fn P r (hw s) in (v, emit (RegRead r v) (s\<lparr>hw := w\<rparr>)))"

definition flash_physical_info_read_word ::
  "'w platform \<Rightarrow> u32 \<Rightarrow> 'w st \<Rightarrow> (int \<times> u32) \<times> 'w st" where
  "flash_physical_info_read_word P off s =
     (let ((rc, word), w) = flash_info_read_fn P off (hw s)
      in ((rc, word), emit (FlashInfoReadWord off rc word) (s\<lparr>hw := w\<rparr>)))"

definition DCRYPTO_x509_verify ::
  "'w platform \<Rightarrow> u8 list \<Rightarrow> RSA \<Rightarrow> 'w st \<Rightarrow> int \<times> 'w st" where
  "DCRYPTO_x509_verify P bytes ca s =
     (let r = x509_verify_fn P bytes ca in (r, emit (X509Verify bytes ca r) s))"

text \<open>
  One HMAC-SHA256 computation (\<open>DCRYPTO_HMAC_SHA256_init\<close>, \<open>HASH_update\<close>,
  \<open>DCRYPTO_HMAC_final\<close>). The callers read 32 bytes of the digest buffer, so the result
  here is 32 bytes whatever the routine is (a shorter one is filled up with zeros).
\<close>

definition hmac_sha256 :: "'w platform \<Rightarrow> u8 list \<Rightarrow> u8 list \<Rightarrow> u8 list" where
  "hmac_sha256 P k msg = take 32 (hmac_sha256_fn P k msg @ replicate 32 0)"

definition DCRYPTO_HMAC_SHA256 ::
  "'w platform \<Rightarrow> u8 list \<Rightarrow> u8 list \<Rightarrow> 'w st \<Rightarrow> u8 list \<times> 'w st" where
  "DCRYPTO_HMAC_SHA256 P k msg s = (hmac_sha256 P k msg, emit (HmacSha256 k msg) s)"

definition HierarchyStartup :: "'w platform \<Rightarrow> u32 \<Rightarrow> 'w st \<Rightarrow> 'w st" where
  "HierarchyStartup P t s =
     emit (HierarchyStartupCall t) (s\<lparr>hw := hierarchy_startup_fn P t (hw s)\<rparr>)"

definition TPM2_NV_DefineSpace ::
  "'w platform \<Rightarrow> NV_DefineSpace_In \<Rightarrow> 'w st \<Rightarrow> u32 \<times> 'w st" where
  "TPM2_NV_DefineSpace P d s =
     (let (rc, w) = nv_define_space_fn P d (hw s)
      in (rc, emit (NvDefineSpaceCall d rc) (s\<lparr>hw := w\<rparr>)))"

definition TPM2_NV_Write :: "'w platform \<Rightarrow> NV_Write_In \<Rightarrow> 'w st \<Rightarrow> u32 \<times> 'w st" where
  "TPM2_NV_Write P i s =
     (let (rc, w) = nv_write_fn P i (hw s)
      in (rc, emit (NvWriteCall i rc) (s\<lparr>hw := w\<rparr>)))"

definition gp_EPSeed_copy :: "'w platform \<Rightarrow> u8 list \<Rightarrow> 'w st \<Rightarrow> 'w st" where
  "gp_EPSeed_copy P bytes s =
     emit (GpEPSeedCopy bytes) (s\<lparr>hw := gp_EPSeed_copy_fn P bytes (hw s)\<rparr>)"

definition NvWriteReserved :: "'w platform \<Rightarrow> u32 \<Rightarrow> 'w st \<Rightarrow> 'w st" where
  "NvWriteReserved P idx s =
     emit (NvWriteReservedCall idx) (s\<lparr>hw := nv_write_reserved_fn P idx (hw s)\<rparr>)"

definition NvCommit :: "'w platform \<Rightarrow> 'w st \<Rightarrow> int \<times> 'w st" where
  "NvCommit P s =
     (let (r, w) = nv_commit_fn P (hw s) in (r, emit (NvCommitCall r) (s\<lparr>hw := w\<rparr>)))"

subsection \<open>Reading the flash address space\<close>

definition load_u16 :: "(u32 \<Rightarrow> u8) \<Rightarrow> u32 \<Rightarrow> u16" where
  "load_u16 m a = ucast (m a) OR push_bit 8 (ucast (m (a + 1)))"

definition load_u32 :: "(u32 \<Rightarrow> u8) \<Rightarrow> u32 \<Rightarrow> u32" where
  "load_u32 m a =
     ucast (m a) OR push_bit 8 (ucast (m (a + 1))) OR push_bit 16 (ucast (m (a + 2)))
       OR push_bit 24 (ucast (m (a + 3)))"

definition load_bytes :: "(u32 \<Rightarrow> u8) \<Rightarrow> u32 \<Rightarrow> nat \<Rightarrow> u8 list" where
  "load_bytes m a n = map (\<lambda>i. m (a + of_nat i)) [0..<n]"

definition load_component_info ::
  "(u32 \<Rightarrow> u8) \<Rightarrow> u32 \<Rightarrow> cros_perso_response_component_info_v0" where
  "load_component_info m a =
     \<lparr>component_size = load_u16 m a, component_type = m (a + 2),
      reserved = load_bytes m (a + 3) 5\<rparr>"

definition load_certificate_response ::
  "(u32 \<Rightarrow> u8) \<Rightarrow> u32 \<Rightarrow> cros_perso_certificate_response_v0" where
  "load_certificate_response m a =
     \<lparr>key_id = load_bytes m a 4, cert_len = load_u32 m (a + 4),
      cert = (\<lambda>i. m (a + 8 + of_nat i))\<rparr>"

text \<open>
  \<open>struct ro_cert\<close> of \<open>tpm_endorse\<close>: the 8-byte component info, then the 8-byte
  certificate header; packed, 16 bytes.
\<close>

definition sizeof_ro_cert :: u32 where
  "sizeof_ro_cert = 16"

definition ro_cert_info ::
  "(u32 \<Rightarrow> u8) \<Rightarrow> u32 \<Rightarrow> cros_perso_response_component_info_v0" where
  "ro_cert_info m a = load_component_info m a"

definition ro_cert_response ::
  "(u32 \<Rightarrow> u8) \<Rightarrow> u32 \<Rightarrow> cros_perso_certificate_response_v0" where
  "ro_cert_response m a = load_certificate_response m (a + 8)"

subsection \<open>Certificate validation and storage\<close>

definition cert_bytes :: "cros_perso_certificate_response_v0 \<Rightarrow> u8 list" where
  "cert_bytes c = map (cert c) [0..<unat (cert_len c)]"

text \<open>The C operator \<open>||\<close> evaluates its right operand only when the left one is zero.\<close>

definition validate_cert ::
  "'w platform \<Rightarrow> cros_perso_response_component_info_v0 \<Rightarrow>
   cros_perso_certificate_response_v0 \<Rightarrow> u8 list \<Rightarrow> 'w st \<Rightarrow> int \<times> 'w st" where
  "validate_cert P cert_info c eps s =
     (if component_type cert_info \<noteq> CROS_PERSO_COMPONENT_TYPE_RSA_CERT \<and>
         component_type cert_info \<noteq> CROS_PERSO_COMPONENT_TYPE_P256_CERT
      then (0, s)
      else if cert_len c > MAX_NV_BUFFER_SIZE (tc P) then (0, s)
      else
        let (r1, s1) = DCRYPTO_x509_verify P (cert_bytes c) (PROD_ENDORSEMENT_CA_RSA_PUB (tc P)) s
        in if r1 \<noteq> 0 then (1, s1)
           else
             let (r2, s2) = DCRYPTO_x509_verify P (cert_bytes c) (TEST_ENDORSEMENT_CA_RSA_PUB (tc P)) s1
             in (if r2 \<noteq> 0 then 1 else 0, s2))"

definition store_cert ::
  "'w platform \<Rightarrow> u8 \<Rightarrow> (nat \<Rightarrow> u8) \<Rightarrow> u32 \<Rightarrow> 'w st \<Rightarrow> int \<times> 'w st" where
  "store_cert P ctype crt crt_len s =
     (let rsa_ek_nv_index = EK_CERT_NV_START_INDEX;
          ecc_ek_nv_index = EK_CERT_NV_START_INDEX + 1;
          s1 = HierarchyStartup P (SU_RESET (tc P)) s;
          nv_index = (if ctype = CROS_PERSO_COMPONENT_TYPE_RSA_CERT then rsa_ek_nv_index
                      else ecc_ek_nv_index);
          space_attributes =
            \<lparr>TPMA_NV_PPWRITE = True, TPMA_NV_WRITEDEFINE = True,
             TPMA_NV_PLATFORMCREATE = True, TPMA_NV_AUTHREAD = True, TPMA_NV_NO_DA = True\<rparr>;
          define_space =
            \<lparr>ds_authHandle = TPM_RH_PLATFORM (tc P), ds_auth_size = 0,
             ds_publicInfo_size = sizeof_nvPublic (tc P), ds_nvIndex = nv_index,
             ds_nameAlg = TPM_ALG_SHA256 (tc P), ds_attributes = space_attributes,
             ds_authPolicy_size = 0, ds_dataSize = crt_len\<rparr>;
          (rc1, s2) = TPM2_NV_DefineSpace P define_space s1
      in if rc1 \<noteq> TPM_RC_SUCCESS (tc P) then (0, s2)
         else
           let inp = \<lparr>wr_nvIndex = nv_index, wr_authHandle = TPM_RH_PLATFORM (tc P),
                      wr_data_size = crt_len, wr_data_buffer = map crt [0..<unat crt_len],
                      wr_offset = 0\<rparr>;
               (rc2, s3) = TPM2_NV_Write P inp s2
           in if rc2 \<noteq> TPM_RC_SUCCESS (tc P) then (0, s3)
              else
                let (c, s4) = NvCommit P s3
                in if c \<noteq> 0 then (1, s4) else (0, s4))"

subsection \<open>The key ladder\<close>

text \<open>
  The busy-wait of \<open>hw_key_ladder_step\<close>: read the status register until it is not zero.
  The loop has no bound, so the model is a partial function: \<open>None\<close> when the register
  stays zero for ever.
\<close>

partial_function (option) poll_itop :: "'w platform \<Rightarrow> 'w st \<Rightarrow> 'w st option" where
  "poll_itop P s =
     (let (itop, s') = GREG32_read P KEYMGR_SHA_ITOP s
      in if itop = 0 then poll_itop P s' else Some s')"

declare poll_itop.simps [code]

definition hw_key_ladder_step :: "'w platform \<Rightarrow> u32 \<Rightarrow> 'w st \<Rightarrow> (u32 \<times> 'w st) option" where
  "hw_key_ladder_step P c s =
     (let s1 = GREG32_write P KEYMGR_SHA_ITOP 0 s;
          s2 = GREG32_write P KEYMGR_SHA_USE_CERT_INDEX
                 (push_bit (GC_KEYMGR_SHA_USE_CERT_INDEX_LSB (tc P)) c OR
                  GC_KEYMGR_SHA_USE_CERT_ENABLE_MASK (tc P)) s1;
          s3 = GREG32_write P KEYMGR_SHA_CFG_EN (GC_KEYMGR_SHA_CFG_EN_INT_EN_DONE_MASK (tc P)) s2;
          s4 = GREG32_write P KEYMGR_SHA_TRIG (GC_KEYMGR_SHA_TRIG_TRIG_GO_MASK (tc P)) s3
      in case poll_itop P s4 of
           None \<Rightarrow> None
         | Some s5 \<Rightarrow>
             let s6 = GREG32_write P KEYMGR_SHA_ITOP 0 s5;
                 (flags, s7) = GREG32_read P KEYMGR_HKEY_ERR_FLAGS s6
             in Some (if flags \<noteq> 0 then 1 else 0, s7))"

text \<open>
  The \<open>for\<close> loop of \<open>compute_frk2\<close> over step 25. The result is \<open>True\<close> when a step
  reported a fault and the function returns 0 from inside the loop.
\<close>

function cert_25_loop :: "'w platform \<Rightarrow> int \<Rightarrow> 'w st \<Rightarrow> (bool \<times> 'w st) option" where
  "cert_25_loop P i s =
     (if i < uint k_cr50_max_fw_major_version - K_CROS_FW_MAJOR_VERSION
      then (case hw_key_ladder_step P KEYMGR_CERT_25 s of
              None \<Rightarrow> None
            | Some (f, s') \<Rightarrow> if f \<noteq> 0 then Some (True, s') else cert_25_loop P (i + 1) s')
      else Some (False, s))"
  by pat_completeness auto
termination
  by (relation "measure (\<lambda>(P, i, s). nat (254 - i))")
     (auto simp: k_cr50_max_fw_major_version_def K_CROS_FW_MAJOR_VERSION_def)

declare cert_25_loop.simps [simp del]

definition word_bytes :: "u32 \<Rightarrow> u8 list" where
  "word_bytes w = [ucast w, ucast (drop_bit 8 w), ucast (drop_bit 16 w), ucast (drop_bit 24 w)]"

text \<open>
  The final \<open>memcpy\<close> of \<open>compute_frk2\<close> reads the eight 32-bit registers
  \<open>HKEY_FRR0\<close> to \<open>HKEY_FRR7\<close>.
\<close>

fun read_frr :: "'w platform \<Rightarrow> nat \<Rightarrow> nat \<Rightarrow> 'w st \<Rightarrow> u8 list \<times> 'w st" where
  "read_frr P k 0 s = ([], s)"
| "read_frr P k (Suc n) s =
     (let (v, s1) = GREG32_read P (KEYMGR_HKEY_FRR k) s;
          (rest, s2) = read_frr P (Suc k) n s1
      in (word_bytes v @ rest, s2))"

definition compute_frk2 ::
  "'w platform \<Rightarrow> u8 list \<Rightarrow> 'w st \<Rightarrow> (int \<times> u8 list \<times> 'w st) option" where
  "compute_frk2 P frk2 s =
     (let s0 = GREG32_write P KEYMGR_SHA_TRIG (GC_KEYMGR_SHA_TRIG_TRIG_RESET_MASK (tc P)) s
      in case hw_key_ladder_step P KEYMGR_CERT_0 s0 of None \<Rightarrow> None | Some (f, s1) \<Rightarrow>
         if f \<noteq> 0 then Some (0, frk2, s1) else
         case hw_key_ladder_step P KEYMGR_CERT_3 s1 of None \<Rightarrow> None | Some (f, s2) \<Rightarrow>
         if f \<noteq> 0 then Some (0, frk2, s2) else
         case hw_key_ladder_step P KEYMGR_CERT_4 s2 of None \<Rightarrow> None | Some (f, s3) \<Rightarrow>
         if f \<noteq> 0 then Some (0, frk2, s3) else
         case hw_key_ladder_step P KEYMGR_CERT_5 s3 of None \<Rightarrow> None | Some (f, s4) \<Rightarrow>
         if f \<noteq> 0 then Some (0, frk2, s4) else
         case hw_key_ladder_step P KEYMGR_CERT_7 s4 of None \<Rightarrow> None | Some (f, s5) \<Rightarrow>
         if f \<noteq> 0 then Some (0, frk2, s5) else
         case hw_key_ladder_step P KEYMGR_CERT_15 s5 of None \<Rightarrow> None | Some (f, s6) \<Rightarrow>
         if f \<noteq> 0 then Some (0, frk2, s6) else
         case hw_key_ladder_step P KEYMGR_CERT_20 s6 of None \<Rightarrow> None | Some (f, s7) \<Rightarrow>
         if f \<noteq> 0 then Some (0, frk2, s7) else
         case cert_25_loop P 0 s7 of None \<Rightarrow> None | Some (faulted, s8) \<Rightarrow>
         if faulted then Some (0, frk2, s8) else
         case hw_key_ladder_step P KEYMGR_CERT_26 s8 of None \<Rightarrow> None | Some (f, s9) \<Rightarrow>
         if f \<noteq> 0 then Some (0, frk2, s9) else
         let (key, s10) = read_frr P 0 (AES256_BLOCK_CIPHER_KEY_SIZE div 4) s9
         in Some (1, key, s10))"

subsection \<open>Flash read windows\<close>

definition flash_info_read_enable :: "'w platform \<Rightarrow> 'w st \<Rightarrow> 'w st" where
  "flash_info_read_enable P s =
     (let s1 = GREG32_write P GLOBALSEC_FLASH_REGION7_BASE_ADDR
                 (FLASH_INFO_MEMORY_BASE (tc P) + FLASH_INFO_MANUFACTURE_STATE_OFFSET (tc P)) s;
          s2 = GREG32_write P GLOBALSEC_FLASH_REGION7_SIZE
                 (FLASH_INFO_MANUFACTURE_STATE_SIZE (tc P) - 1) s1
      in GREG32_write P GLOBALSEC_FLASH_REGION7_CTRL
           (GC_GLOBALSEC_FLASH_REGION7_CTRL_EN_MASK (tc P) OR
            GC_GLOBALSEC_FLASH_REGION7_CTRL_RD_EN_MASK (tc P)) s2)"

definition flash_info_read_disable :: "'w platform \<Rightarrow> 'w st \<Rightarrow> 'w st" where
  "flash_info_read_disable P s = GREG32_write P GLOBALSEC_FLASH_REGION7_CTRL 0 s"

definition flash_cert_region_enable :: "'w platform \<Rightarrow> 'w st \<Rightarrow> 'w st" where
  "flash_cert_region_enable P s =
     (let s1 = GREG32_write P GLOBALSEC_FLASH_REGION6_BASE_ADDR RO_CERTS_START_ADDR s;
          s2 = GREG32_write P GLOBALSEC_FLASH_REGION6_SIZE (RO_CERTS_REGION_SIZE - 1) s1
      in GREG32_write P GLOBALSEC_FLASH_REGION6_CTRL
           (GC_GLOBALSEC_FLASH_REGION6_CTRL_EN_MASK (tc P) OR
            GC_GLOBALSEC_FLASH_REGION6_CTRL_RD_EN_MASK (tc P)) s2)"

subsection \<open>Seed recovery\<close>

definition INFO1_EPS_OFFSET :: "'w platform \<Rightarrow> u32" where
  "INFO1_EPS_OFFSET P = FLASH_INFO_MANUFACTURE_STATE_OFFSET (tc P)"

text \<open>\<open>memcpy(eps + i, &word, sizeof(word))\<close>.\<close>

definition memcpy_word :: "u8 list \<Rightarrow> nat \<Rightarrow> u32 \<Rightarrow> u8 list" where
  "memcpy_word eps i w =
     eps[i := word_bytes w ! 0, i + 1 := word_bytes w ! 1, i + 2 := word_bytes w ! 2,
         i + 3 := word_bytes w ! 3]"

text \<open>
  The read loop of \<open>get_decrypted_eps\<close>. The result is \<open>False\<close> when a read failed and
  the function returns 0 from inside the loop.
\<close>

function eps_read_loop ::
  "'w platform \<Rightarrow> nat \<Rightarrow> u8 list \<Rightarrow> 'w st \<Rightarrow> bool \<times> u8 list \<times> 'w st" where
  "eps_read_loop P i eps s =
     (if i < INFO1_EPS_SIZE
      then (let ((rc, word), s') =
                  flash_physical_info_read_word P (INFO1_EPS_OFFSET P + of_nat i) s
            in if rc \<noteq> EC_SUCCESS (tc P) then (False, eps, s')
               else eps_read_loop P (i + 4) (memcpy_word eps i word) s')
      else (True, eps, s))"
  by pat_completeness auto
termination
  by (relation "measure (\<lambda>(P, i, eps, s). INFO1_EPS_SIZE - i)") auto

declare eps_read_loop.simps [simp del]

text \<open>The one-time-pad loop: \<open>eps[i] ^= frk2[i]\<close>.\<close>

function otp_loop :: "nat \<Rightarrow> u8 list \<Rightarrow> u8 list \<Rightarrow> u8 list" where
  "otp_loop i eps frk2 =
     (if i < PRIMARY_SEED_SIZE then otp_loop (i + 1) (eps[i := eps ! i XOR frk2 ! i]) frk2
      else eps)"
  by pat_completeness auto
termination
  by (relation "measure (\<lambda>(i, eps, frk2). PRIMARY_SEED_SIZE - i)") auto

declare otp_loop.simps [simp del]

text \<open>
  \<open>frk2u\<close> is the content of the uninitialised local \<open>frk2\<close> on entry. The local is dead
  after the one-time-pad loop and is not part of the result.
\<close>

definition get_decrypted_eps ::
  "'w platform \<Rightarrow> u8 list \<Rightarrow> u8 list \<Rightarrow> 'w st \<Rightarrow> (int \<times> u8 list \<times> 'w st) option" where
  "get_decrypted_eps P frk2u eps s =
     (case compute_frk2 P frk2u s of
        None \<Rightarrow> None
      | Some (ok, frk2, s1) \<Rightarrow>
          if ok = 0 then Some (0, eps, s1)
          else
            let s2 = flash_info_read_enable P s1;
                (complete, eps1, s3) = eps_read_loop P 0 eps s2
            in if \<not> complete then Some (0, eps1, s3)
               else
                 let s4 = flash_info_read_disable P s3;
                     eps2 = otp_loop 0 eps1 frk2
                 in Some (1, eps2, s4))"

definition store_eps :: "'w platform \<Rightarrow> u8 list \<Rightarrow> 'w st \<Rightarrow> int \<times> 'w st" where
  "store_eps P eps s =
     (let s1 = gp_EPSeed_copy P (take PRIMARY_SEED_SIZE eps) s;
          s2 = NvWriteReserved P (NV_EP_SEED (tc P)) s1
      in NvCommit P s2)"

subsection \<open>The fallback identity and the top-level operation\<close>

definition install_fixed_certs :: "'w platform \<Rightarrow> 'w st \<Rightarrow> int \<times> 'w st" where
  "install_fixed_certs P s =
     (let (r1, s1) = store_eps P FIXED_ENDORSEMENT_SEED s
      in if r1 = 0 then (0, s1)
         else
           let (r2, s2) = store_cert P CROS_PERSO_COMPONENT_TYPE_RSA_CERT
                            (\<lambda>i. FIXED_RSA_ENDORSEMENT_CERT ! i) 1007 s1
           in if r2 = 0 then (0, s2)
              else
                let (r3, s3) = store_cert P CROS_PERSO_COMPONENT_TYPE_P256_CERT
                                 (\<lambda>i. FIXED_ECC_ENDORSEMENT_CERT ! i) 804 s2
                in if r3 = 0 then (0, s3) else (1, s3))"

definition handle_cert ::
  "'w platform \<Rightarrow> cros_perso_response_component_info_v0 \<Rightarrow>
   cros_perso_certificate_response_v0 \<Rightarrow> u8 list \<Rightarrow> 'w st \<Rightarrow> int \<times> 'w st" where
  "handle_cert P cert_info c eps s =
     (let (v, s1) = validate_cert P cert_info c eps s
      in if v = 0 then (0, s1)
         else
           let (r, s2) = store_cert P (component_type cert_info) (cert c) (cert_len c) s1
           in if r = 0 then (0, s2) else (1, s2))"

text \<open>The label hashed under the seed: the string literal \<open>"RSA"\<close> with a length of 4.\<close>

definition RSA_label :: "u8 list" where
  "RSA_label = [0x52, 0x53, 0x41, 0x00]"

text \<open>
  The HMAC check at the head of the \<open>do\<close> block of \<open>tpm_endorse\<close>: \<open>True\<close> when
  \<open>memcmp\<close> finds the trailing 32 bytes equal to the computed tag.
\<close>

definition cert_region_hmac_check :: "'w platform \<Rightarrow> u8 list \<Rightarrow> 'w st \<Rightarrow> bool \<times> 'w st" where
  "cert_region_hmac_check P eps s =
     (let p = RO_CERTS_START_ADDR;
          (k, s1) = DCRYPTO_HMAC_SHA256 P (take PRIMARY_SEED_SIZE eps) RSA_label s;
          (tag, s2) = DCRYPTO_HMAC_SHA256 P k
                        (load_bytes (flash P) p (unat (RO_CERTS_REGION_SIZE - 32))) s1
      in (load_bytes (flash P) (p + RO_CERTS_REGION_SIZE - 32) 32 = tag, s2))"

text \<open>
  \<open>frk2u\<close> and \<open>epsu\<close> are the contents of the uninitialised locals on entry. The
  result is the return value, the content of the local \<open>eps\<close> on return, and the state.
\<close>

definition tpm_endorse ::
  "'w platform \<Rightarrow> u8 list \<Rightarrow> u8 list \<Rightarrow> 'w st \<Rightarrow> (int \<times> u8 list \<times> 'w st) option" where
  "tpm_endorse P frk2u epsu s =
     (let p = RO_CERTS_START_ADDR;
          m = flash P;
          s0 = flash_cert_region_enable P s
      in if load_u32 m p = 0xFFFFFFFF then Some (0, epsu, s0)
         else
           case get_decrypted_eps P frk2u epsu s0 of
             None \<Rightarrow> None
           | Some (ok, eps, s1) \<Rightarrow>
               if ok = 0 then Some (0, eps, s1)
               else
                 let rsa_cert = p in
                 if 2 * sizeof_ro_cert + cert_len (ro_cert_response m rsa_cert)
                      > RO_CERTS_REGION_SIZE
                 then Some (0, eps, s1)
                 else
                   let ecc_cert = p + sizeof_ro_cert + cert_len (ro_cert_response m rsa_cert) in
                   if 2 * sizeof_ro_cert + cert_len (ro_cert_response m rsa_cert) +
                        cert_len (ro_cert_response m ecc_cert) > RO_CERTS_REGION_SIZE
                   then Some (0, eps, s1)
                   else if component_type (ro_cert_info m rsa_cert) \<noteq>
                             CROS_PERSO_COMPONENT_TYPE_RSA_CERT
                   then Some (0, eps, s1)
                   else if component_type (ro_cert_info m ecc_cert) \<noteq>
                             CROS_PERSO_COMPONENT_TYPE_P256_CERT
                   then Some (0, eps, s1)
                   else
                     let (hmac_ok, s2) = cert_region_hmac_check P eps s1 in
                     if \<not> hmac_ok
                     then (let (r, s3) = install_fixed_certs P s2
                           in Some (0, replicate PRIMARY_SEED_SIZE 0, s3))
                     else
                       let (r1, s3) = handle_cert P (ro_cert_info m rsa_cert)
                                        (ro_cert_response m rsa_cert) eps s2 in
                       if r1 = 0 then Some (0, replicate PRIMARY_SEED_SIZE 0, s3)
                       else
                         let (r2, s4) = handle_cert P (ro_cert_info m ecc_cert)
                                          (ro_cert_response m ecc_cert) eps s3 in
                         if r2 = 0 then Some (0, replicate PRIMARY_SEED_SIZE 0, s4)
                         else
                           let (r3, s5) = store_eps P eps s4 in
                           if r3 = 0 then Some (0, replicate PRIMARY_SEED_SIZE 0, s5)
                           else Some (1, replicate PRIMARY_SEED_SIZE 0, s5))"

section \<open>Definitions for the statements\<close>

subsection \<open>What the key ladder logs\<close>

text \<open>
  The status values read by one wait: zeros, then the value that ends the wait.
\<close>

definition good_polls :: "u32 list \<Rightarrow> bool" where
  "good_polls polls \<longleftrightarrow> polls \<noteq> [] \<and> last polls \<noteq> 0 \<and> (\<forall>x \<in> set (butlast polls). x = 0)"

text \<open>
  The log of one \<open>hw_key_ladder_step\<close> for step \<open>c\<close>, given the status values polled and
  the fault flags read.
\<close>

definition step_events :: "'w platform \<Rightarrow> u32 \<Rightarrow> u32 list \<Rightarrow> u32 \<Rightarrow> event list" where
  "step_events P c polls v =
     [RegWrite KEYMGR_SHA_ITOP 0,
      RegWrite KEYMGR_SHA_USE_CERT_INDEX
        (push_bit (GC_KEYMGR_SHA_USE_CERT_INDEX_LSB (tc P)) c OR
         GC_KEYMGR_SHA_USE_CERT_ENABLE_MASK (tc P)),
      RegWrite KEYMGR_SHA_CFG_EN (GC_KEYMGR_SHA_CFG_EN_INT_EN_DONE_MASK (tc P)),
      RegWrite KEYMGR_SHA_TRIG (GC_KEYMGR_SHA_TRIG_TRIG_GO_MASK (tc P))] @
     map (RegRead KEYMGR_SHA_ITOP) polls @
     [RegWrite KEYMGR_SHA_ITOP 0, RegRead KEYMGR_HKEY_ERR_FLAGS v]"

text \<open>
  The derivation as the specification words it: the steps of a list, in order, stopping at
  the first one that reports a fault. The result is \<open>True\<close> when a step reported a fault.
\<close>

fun run_key_ladder :: "'w platform \<Rightarrow> u32 list \<Rightarrow> 'w st \<Rightarrow> (bool \<times> 'w st) option" where
  "run_key_ladder P [] s = Some (False, s)"
| "run_key_ladder P (c # cs) s =
     (case hw_key_ladder_step P c s of
        None \<Rightarrow> None
      | Some (f, s') \<Rightarrow> if f \<noteq> 0 then Some (True, s') else run_key_ladder P cs s')"

text \<open>The steps of a full derivation, in order.\<close>

definition frk2_cert_sequence :: "u32 list" where
  "frk2_cert_sequence = [0, 3, 4, 5, 7, 15, 20] @ replicate (254 - 0) 25 @ [26]"

text \<open>
  The log of a run of the ladder: for each step that was executed, the status values it
  polled and the fault flags it read.
\<close>

definition ladder_events ::
  "'w platform \<Rightarrow> u32 list \<Rightarrow> (u32 list \<times> u32) list \<Rightarrow> event list" where
  "ladder_events P cs runs =
     concat (map (\<lambda>(c, polls, v). step_events P c polls v) (zip cs runs))"

text \<open>
  The runs of an execution of at most \<open>n\<close> steps: every wait ended, every step but the
  last read fault flags of zero; after a fault the last step read non-zero flags, otherwise all
  \<open>n\<close> steps ran and none read a fault.
\<close>

definition ladder_runs :: "bool \<Rightarrow> nat \<Rightarrow> (u32 list \<times> u32) list \<Rightarrow> bool" where
  "ladder_runs faulted n runs \<longleftrightarrow>
     length runs \<le> n \<and>
     (\<forall>(polls, v) \<in> set runs. good_polls polls) \<and>
     (\<forall>(polls, v) \<in> set (butlast runs). v = 0) \<and>
     (if faulted then runs \<noteq> [] \<and> snd (last runs) \<noteq> 0
      else length runs = n \<and> (\<forall>(polls, v) \<in> set runs. v = 0))"

text \<open>The reads of the key registers, from register \<open>k\<close> on.\<close>

fun frr_events :: "nat \<Rightarrow> u32 list \<Rightarrow> event list" where
  "frr_events k [] = []"
| "frr_events k (v # vs) = RegRead (KEYMGR_HKEY_FRR k) v # frr_events (Suc k) vs"

subsection \<open>What the store operations log\<close>

text \<open>The index, the define-space structure and the write structure that \<open>store_cert\<close> builds.\<close>

definition nv_index_of :: "u8 \<Rightarrow> u32" where
  "nv_index_of ctype =
     (if ctype = CROS_PERSO_COMPONENT_TYPE_RSA_CERT then EK_CERT_NV_START_INDEX
      else EK_CERT_NV_START_INDEX + 1)"

definition store_cert_define :: "'w platform \<Rightarrow> u8 \<Rightarrow> u32 \<Rightarrow> NV_DefineSpace_In" where
  "store_cert_define P ctype n =
     \<lparr>ds_authHandle = TPM_RH_PLATFORM (tc P), ds_auth_size = 0,
      ds_publicInfo_size = sizeof_nvPublic (tc P), ds_nvIndex = nv_index_of ctype,
      ds_nameAlg = TPM_ALG_SHA256 (tc P),
      ds_attributes =
        \<lparr>TPMA_NV_PPWRITE = True, TPMA_NV_WRITEDEFINE = True,
         TPMA_NV_PLATFORMCREATE = True, TPMA_NV_AUTHREAD = True, TPMA_NV_NO_DA = True\<rparr>,
      ds_authPolicy_size = 0, ds_dataSize = n\<rparr>"

definition store_cert_write :: "'w platform \<Rightarrow> u8 \<Rightarrow> u8 list \<Rightarrow> u32 \<Rightarrow> NV_Write_In" where
  "store_cert_write P ctype bytes n =
     \<lparr>wr_nvIndex = nv_index_of ctype, wr_authHandle = TPM_RH_PLATFORM (tc P),
      wr_data_size = n, wr_data_buffer = bytes, wr_offset = 0\<rparr>"

definition store_cert_ok :: "'w platform \<Rightarrow> u32 \<times> u32 \<times> int \<Rightarrow> bool" where
  "store_cert_ok P rcs \<longleftrightarrow>
     (case rcs of (rc1, rc2, cm) \<Rightarrow>
        rc1 = TPM_RC_SUCCESS (tc P) \<and> rc2 = TPM_RC_SUCCESS (tc P) \<and> cm \<noteq> 0)"

text \<open>
  The calls of one \<open>store_cert\<close>, given the results of define, write and commit: a call
  is made only when the one before it succeeded.
\<close>

definition store_cert_events ::
  "'w platform \<Rightarrow> u8 \<Rightarrow> u8 list \<Rightarrow> u32 \<Rightarrow> u32 \<times> u32 \<times> int \<Rightarrow> event list" where
  "store_cert_events P ctype bytes n rcs =
     (case rcs of (rc1, rc2, cm) \<Rightarrow>
        [HierarchyStartupCall (SU_RESET (tc P)),
         NvDefineSpaceCall (store_cert_define P ctype n) rc1] @
        (if rc1 \<noteq> TPM_RC_SUCCESS (tc P) then []
         else NvWriteCall (store_cert_write P ctype bytes n) rc2 #
              (if rc2 \<noteq> TPM_RC_SUCCESS (tc P) then [] else [NvCommitCall cm])))"

text \<open>The calls of one \<open>store_eps\<close>, given the result of the commit.\<close>

definition store_eps_events :: "'w platform \<Rightarrow> u8 list \<Rightarrow> int \<Rightarrow> event list" where
  "store_eps_events P eps cm =
     [GpEPSeedCopy (take PRIMARY_SEED_SIZE eps), NvWriteReservedCall (NV_EP_SEED (tc P)),
      NvCommitCall cm]"

text \<open>
  The calls of the fallback installation, given the result of the seed commit and the
  results of the two certificate stores: a store is attempted only when the one before it
  succeeded.
\<close>

definition fallback_events ::
  "'w platform \<Rightarrow> int \<Rightarrow> u32 \<times> u32 \<times> int \<Rightarrow> u32 \<times> u32 \<times> int \<Rightarrow> event list" where
  "fallback_events P cm a b =
     store_eps_events P FIXED_ENDORSEMENT_SEED cm @
     (if cm = 0 then []
      else store_cert_events P CROS_PERSO_COMPONENT_TYPE_RSA_CERT
             FIXED_RSA_ENDORSEMENT_CERT 1007 a @
           (if \<not> store_cert_ok P a then []
            else store_cert_events P CROS_PERSO_COMPONENT_TYPE_P256_CERT
                   FIXED_ECC_ENDORSEMENT_CERT 804 b))"

subsection \<open>The region checks of the top-level operation\<close>

text \<open>Where \<open>tpm_endorse\<close> finds the two records.\<close>

definition rsa_cert_addr :: u32 where
  "rsa_cert_addr = RO_CERTS_START_ADDR"

definition ecc_cert_addr :: "(u32 \<Rightarrow> u8) \<Rightarrow> u32" where
  "ecc_cert_addr m =
     RO_CERTS_START_ADDR + sizeof_ro_cert + cert_len (ro_cert_response m rsa_cert_addr)"

text \<open>The two sanity checks of \<open>tpm_endorse\<close>, in the 32-bit arithmetic of the target.\<close>

definition sanity_checks_pass :: "(u32 \<Rightarrow> u8) \<Rightarrow> bool" where
  "sanity_checks_pass m \<longleftrightarrow>
     \<not> (2 * sizeof_ro_cert + cert_len (ro_cert_response m rsa_cert_addr) > RO_CERTS_REGION_SIZE) \<and>
     \<not> (2 * sizeof_ro_cert + cert_len (ro_cert_response m rsa_cert_addr) +
          cert_len (ro_cert_response m (ecc_cert_addr m)) > RO_CERTS_REGION_SIZE)"

text \<open>The two component-type checks.\<close>

definition component_types_ok :: "(u32 \<Rightarrow> u8) \<Rightarrow> bool" where
  "component_types_ok m \<longleftrightarrow>
     component_type (ro_cert_info m rsa_cert_addr) = CROS_PERSO_COMPONENT_TYPE_RSA_CERT \<and>
     component_type (ro_cert_info m (ecc_cert_addr m)) = CROS_PERSO_COMPONENT_TYPE_P256_CERT"

text \<open>The rest of the \<open>do\<close> block, once the HMAC check has passed.\<close>

definition factory_install :: "'w platform \<Rightarrow> u8 list \<Rightarrow> 'w st \<Rightarrow> int \<times> 'w st" where
  "factory_install P eps s2 =
     (let m = flash P;
          (r1, s3) = handle_cert P (ro_cert_info m rsa_cert_addr)
                       (ro_cert_response m rsa_cert_addr) eps s2
      in if r1 = 0 then (0, s3)
         else
           let (r2, s4) = handle_cert P (ro_cert_info m (ecc_cert_addr m))
                            (ro_cert_response m (ecc_cert_addr m)) eps s3
           in if r2 = 0 then (0, s4)
              else let (r3, s5) = store_eps P eps s4
                   in if r3 = 0 then (0, s5) else (1, s5))"

subsection \<open>The region HMAC\<close>

text \<open>The covered bytes of the region and its trailing tag.\<close>

definition region_body :: "(u32 \<Rightarrow> u8) \<Rightarrow> u8 list" where
  "region_body m = load_bytes m RO_CERTS_START_ADDR 2016"

definition region_tag :: "(u32 \<Rightarrow> u8) \<Rightarrow> u8 list" where
  "region_tag m = load_bytes m (RO_CERTS_START_ADDR + 2016) 32"

text \<open>The tag that \<open>tpm_endorse\<close> computes for a seed and a flash content.\<close>

definition region_hmac :: "'w platform \<Rightarrow> u8 list \<Rightarrow> u8 list \<Rightarrow> u8 list \<Rightarrow> u8 list" where
  "region_hmac P label eps body = hmac_sha256 P (hmac_sha256 P eps label) body"

subsection \<open>Classes of log entries\<close>

text \<open>Register accesses and information-region reads.\<close>

fun is_hw_event :: "event \<Rightarrow> bool" where
  "is_hw_event (RegWrite r v) = True"
| "is_hw_event (RegRead r v) = True"
| "is_hw_event (FlashInfoReadWord off rc w) = True"
| "is_hw_event e = False"

text \<open>Every other entry: HMAC, signature verification, NV and seed-store calls.\<close>

definition is_soft_event :: "event \<Rightarrow> bool" where
  "is_soft_event e \<longleftrightarrow> \<not> is_hw_event e"

fun is_region6_reg :: "reg \<Rightarrow> bool" where
  "is_region6_reg GLOBALSEC_FLASH_REGION6_BASE_ADDR = True"
| "is_region6_reg GLOBALSEC_FLASH_REGION6_SIZE = True"
| "is_region6_reg GLOBALSEC_FLASH_REGION6_CTRL = True"
| "is_region6_reg r = False"

text \<open>Entries that do not touch the registers of the certificate-region window.\<close>

fun off_region6 :: "event \<Rightarrow> bool" where
  "off_region6 (RegWrite r v) = (\<not> is_region6_reg r)"
| "off_region6 (RegRead r v) = (\<not> is_region6_reg r)"
| "off_region6 e = True"

text \<open>Entries of seed recovery: key manager, information-region window, information reads.\<close>

definition is_seed_recovery_event :: "event \<Rightarrow> bool" where
  "is_seed_recovery_event e \<longleftrightarrow> is_hw_event e \<and> off_region6 e"

text \<open>\<open>adds Q s s'\<close>: the log of \<open>s'\<close> is the log of \<open>s\<close> and then entries of class \<open>Q\<close>.\<close>

definition adds :: "(event \<Rightarrow> bool) \<Rightarrow> 'w st \<Rightarrow> 'w st \<Rightarrow> bool" where
  "adds Q s s' \<longleftrightarrow> (\<exists>evs. trace s' = trace s @ evs \<and> (\<forall>e \<in> set evs. Q e))"

text \<open>Accesses to the key manager; information-region reads.\<close>

fun is_keymgr_reg :: "reg \<Rightarrow> bool" where
  "is_keymgr_reg KEYMGR_SHA_ITOP = True"
| "is_keymgr_reg KEYMGR_SHA_USE_CERT_INDEX = True"
| "is_keymgr_reg KEYMGR_SHA_CFG_EN = True"
| "is_keymgr_reg KEYMGR_SHA_TRIG = True"
| "is_keymgr_reg KEYMGR_HKEY_ERR_FLAGS = True"
| "is_keymgr_reg (KEYMGR_HKEY_FRR k) = True"
| "is_keymgr_reg r = False"

fun is_keymgr_event :: "event \<Rightarrow> bool" where
  "is_keymgr_event (RegWrite r v) = is_keymgr_reg r"
| "is_keymgr_event (RegRead r v) = is_keymgr_reg r"
| "is_keymgr_event e = False"

fun is_info_read :: "event \<Rightarrow> bool" where
  "is_info_read (FlashInfoReadWord off rc w) = True"
| "is_info_read e = False"

subsection \<open>Termination\<close>

text \<open>The key manager answers: every wait for the status register ends.\<close>

definition keymgr_responds :: "'w platform \<Rightarrow> bool" where
  "keymgr_responds P \<longleftrightarrow> (\<forall>s. poll_itop P s \<noteq> None)"

subsection \<open>Register writes in a log\<close>

text \<open>The values written to a register, in order, and the last of them.\<close>

fun write_value :: "reg \<Rightarrow> event \<Rightarrow> u32 option" where
  "write_value r (RegWrite r' v) = (if r' = r then Some v else None)"
| "write_value r e = None"

definition reg_writes :: "reg \<Rightarrow> event list \<Rightarrow> u32 list" where
  "reg_writes r evs = List.map_filter (write_value r) evs"

definition last_write :: "reg \<Rightarrow> event list \<Rightarrow> u32 option" where
  "last_write r evs = (case reg_writes r evs of [] \<Rightarrow> None | w # ws \<Rightarrow> Some (last (w # ws)))"

subsection \<open>Bit flips in the region\<close>

text \<open>The flash content with bit \<open>b\<close> of the region byte at offset \<open>off\<close> flipped.\<close>

definition flip_region_bit :: "(u32 \<Rightarrow> u8) \<Rightarrow> nat \<Rightarrow> nat \<Rightarrow> u32 \<Rightarrow> u8" where
  "flip_region_bit m off b =
     m(RO_CERTS_START_ADDR + of_nat off := m (RO_CERTS_START_ADDR + of_nat off) XOR push_bit b 1)"

section \<open>A simulated platform\<close>

text \<open>
  A concrete platform on which the model runs, for the concrete instances of the theorems
  below. Its key manager sets the status register at the second poll of every step and
  raises the fault flags at the step numbered \<open>cfg_fault_step\<close> (never, when that is 0);
  the information-region read at offset \<open>cfg_bad_info_offset\<close> fails; defining the NV index
  \<open>cfg_bad_nv_index\<close> fails; every other NV operation succeeds. The constants are small
  values of the right kind.
\<close>

definition sim_consts :: target_consts where
  "sim_consts =
     \<lparr>GC_KEYMGR_SHA_USE_CERT_INDEX_LSB = 0,
      GC_KEYMGR_SHA_USE_CERT_ENABLE_MASK = 0x40,
      GC_KEYMGR_SHA_CFG_EN_INT_EN_DONE_MASK = 1,
      GC_KEYMGR_SHA_TRIG_TRIG_GO_MASK = 1,
      GC_KEYMGR_SHA_TRIG_TRIG_RESET_MASK = 2,
      FLASH_INFO_MEMORY_BASE = 0x20000,
      FLASH_INFO_MANUFACTURE_STATE_OFFSET = 0,
      FLASH_INFO_MANUFACTURE_STATE_SIZE = 0x800,
      GC_GLOBALSEC_FLASH_REGION6_CTRL_EN_MASK = 1,
      GC_GLOBALSEC_FLASH_REGION6_CTRL_RD_EN_MASK = 2,
      GC_GLOBALSEC_FLASH_REGION7_CTRL_EN_MASK = 1,
      GC_GLOBALSEC_FLASH_REGION7_CTRL_RD_EN_MASK = 2,
      MAX_NV_BUFFER_SIZE = 1024,
      EC_SUCCESS = 0,
      TPM_RC_SUCCESS = 0,
      TPM_RH_PLATFORM = 0x4000000C,
      TPM_ALG_SHA256 = 0x000B,
      SU_RESET = 0,
      NV_EP_SEED = 5,
      sizeof_nvPublic = 14,
      RSA_F4 = 65537\<rparr>"

record sim_hw =
  steps :: nat
  ready :: bool

record sim_cfg =
  cfg_flash :: "u32 \<Rightarrow> u8"
  cfg_fault_step :: nat
  cfg_bad_info_offset :: "u32 option"
  cfg_bad_nv_index :: "u32 option"

definition sim_reg_write :: "reg \<Rightarrow> u32 \<Rightarrow> sim_hw \<Rightarrow> sim_hw" where
  "sim_reg_write r v w =
     (if r = KEYMGR_SHA_TRIG \<and> v = 1 then \<lparr>steps = Suc (steps w), ready = False\<rparr> else w)"

definition sim_reg_read :: "nat \<Rightarrow> reg \<Rightarrow> sim_hw \<Rightarrow> u32 \<times> sim_hw" where
  "sim_reg_read fault r w =
     (case r of
        KEYMGR_SHA_ITOP \<Rightarrow> if ready w then (1, w) else (0, w\<lparr>ready := True\<rparr>)
      | KEYMGR_HKEY_ERR_FLAGS \<Rightarrow> (if steps w = fault then 4 else 0, w)
      | KEYMGR_HKEY_FRR k \<Rightarrow> (0x01010101 * (of_nat k + 1), w)
      | _ \<Rightarrow> (0, w))"

text \<open>
  Stand-ins for the two cryptographic routines, cheap to evaluate. The HMAC mixes the key,
  the length of the message and its first eight bytes into 32 bytes; the verification accepts
  a certificate by its first byte and the modulus of the root key.
\<close>

definition sim_digest :: "u8 list \<Rightarrow> u8 list" where
  "sim_digest xs =
     (let h = foldl (\<lambda>a b. a * 31 + ucast b + 1) (7 :: u32) xs
      in map (\<lambda>i. ucast (drop_bit (8 * (i mod 4)) h) + of_nat i) [0..<32])"

definition sim_hmac :: "u8 list \<Rightarrow> u8 list \<Rightarrow> u8 list" where
  "sim_hmac k msg = sim_digest (k @ of_nat (length msg) # take 8 msg)"

definition sim_x509_verify :: "u8 list \<Rightarrow> RSA \<Rightarrow> int" where
  "sim_x509_verify bytes ca =
     (if take 1 bytes = [0x30] \<and> rsa_N ca = PROD_ENDORSEMENT_CA_RSA_N then 1
      else if take 1 bytes = [0x31] \<and> rsa_N ca = TEST_ENDORSEMENT_CA_RSA_N then 1
      else 0)"

definition sim :: "sim_cfg \<Rightarrow> sim_hw platform" where
  "sim C =
     \<lparr>tc = sim_consts, flash = cfg_flash C,
      reg_write_fn = sim_reg_write,
      reg_read_fn = sim_reg_read (cfg_fault_step C),
      flash_info_read_fn =
        (\<lambda>off w. if cfg_bad_info_offset C = Some off then ((1, 0), w)
                  else ((0, 0xA0B0C0D0 + off), w)),
      x509_verify_fn = sim_x509_verify,
      hmac_sha256_fn = sim_hmac,
      hierarchy_startup_fn = (\<lambda>t w. w),
      nv_define_space_fn =
        (\<lambda>d w. if cfg_bad_nv_index C = Some (ds_nvIndex d) then (0x14B, w) else (0, w)),
      nv_write_fn = (\<lambda>i w. (0, w)),
      gp_EPSeed_copy_fn = (\<lambda>b w. w),
      nv_write_reserved_fn = (\<lambda>i w. w),
      nv_commit_fn = (\<lambda>w. (1, w))\<rparr>"

text \<open>The fault flags that the simulated key manager shows after step \<open>n\<close>.\<close>

definition sim_flags :: "sim_cfg \<Rightarrow> nat \<Rightarrow> u32" where
  "sim_flags C n = (if n = cfg_fault_step C then 4 else 0)"

text \<open>The key registers, and the local buffers as they are on entry.\<close>

definition sim_frr_values :: "u32 list" where
  "sim_frr_values =
     [0x01010101, 0x02020202, 0x03030303, 0x04040404,
      0x05050505, 0x06060606, 0x07070707, 0x08080808]"

text \<open>The log of a complete derivation on the simulated platform.\<close>

definition sim_ladder_events :: "sim_cfg \<Rightarrow> event list" where
  "sim_ladder_events C =
     [RegWrite KEYMGR_SHA_TRIG 2] @
     ladder_events (sim C) frk2_cert_sequence (replicate 262 ([0, 1], 0)) @
     frr_events 0 sim_frr_values"

definition sim_garbage :: "u8 list" where
  "sim_garbage =
     [0x55, 0x55, 0x55, 0x55, 0x55, 0x55, 0x55, 0x55,
      0x55, 0x55, 0x55, 0x55, 0x55, 0x55, 0x55, 0x55,
      0x55, 0x55, 0x55, 0x55, 0x55, 0x55, 0x55, 0x55,
      0x55, 0x55, 0x55, 0x55, 0x55, 0x55, 0x55, 0x55]"

text \<open>
  The eight words read from the information region, as bytes, and their exclusive or with
  the key registers: the recovered seed.
\<close>

definition sim_ciphertext :: "u8 list" where
  "sim_ciphertext =
     [0xD0, 0xC0, 0xB0, 0xA0, 0xD4, 0xC0, 0xB0, 0xA0,
      0xD8, 0xC0, 0xB0, 0xA0, 0xDC, 0xC0, 0xB0, 0xA0,
      0xE0, 0xC0, 0xB0, 0xA0, 0xE4, 0xC0, 0xB0, 0xA0,
      0xE8, 0xC0, 0xB0, 0xA0, 0xEC, 0xC0, 0xB0, 0xA0]"

definition sim_seed :: "u8 list" where
  "sim_seed =
     [0xD1, 0xC1, 0xB1, 0xA1, 0xD6, 0xC2, 0xB2, 0xA2,
      0xDB, 0xC3, 0xB3, 0xA3, 0xD8, 0xC4, 0xB4, 0xA4,
      0xE5, 0xC5, 0xB5, 0xA5, 0xE2, 0xC6, 0xB6, 0xA6,
      0xEF, 0xC7, 0xB7, 0xA7, 0xE4, 0xC8, 0xB8, 0xA8]"

definition sim_info_reads :: "event list" where
  "sim_info_reads =
     [FlashInfoReadWord 0 0 0xA0B0C0D0, FlashInfoReadWord 4 0 0xA0B0C0D4,
      FlashInfoReadWord 8 0 0xA0B0C0D8, FlashInfoReadWord 12 0 0xA0B0C0DC,
      FlashInfoReadWord 16 0 0xA0B0C0E0, FlashInfoReadWord 20 0 0xA0B0C0E4,
      FlashInfoReadWord 24 0 0xA0B0C0E8, FlashInfoReadWord 28 0 0xA0B0C0EC]"

definition sim_window7_events :: "event list" where
  "sim_window7_events =
     [RegWrite GLOBALSEC_FLASH_REGION7_BASE_ADDR 0x20000,
      RegWrite GLOBALSEC_FLASH_REGION7_SIZE 0x7FF,
      RegWrite GLOBALSEC_FLASH_REGION7_CTRL 3]"

definition sim_window6_events :: "event list" where
  "sim_window6_events =
     [RegWrite GLOBALSEC_FLASH_REGION6_BASE_ADDR 0x43800,
      RegWrite GLOBALSEC_FLASH_REGION6_SIZE 0x7FF,
      RegWrite GLOBALSEC_FLASH_REGION6_CTRL 3]"

definition sim_seed_recovery_events :: "sim_cfg \<Rightarrow> event list" where
  "sim_seed_recovery_events C =
     sim_ladder_events C @ sim_window7_events @ sim_info_reads @
     [RegWrite GLOBALSEC_FLASH_REGION7_CTRL 0]"

text \<open>A flash content whose certificate region starts with the given bytes, then zeros.\<close>

definition region_of :: "u8 list \<Rightarrow> u32 \<Rightarrow> u8" where
  "region_of bytes a =
     (let off = unat (a - RO_CERTS_START_ADDR)
      in if off < length bytes then bytes ! off else 0)"

text \<open>Configurations and inputs of the simulated platform used below.\<close>

definition cfg0 :: sim_cfg where
  "cfg0 = \<lparr>cfg_flash = (\<lambda>a. 0xFF), cfg_fault_step = 0, cfg_bad_info_offset = None,
           cfg_bad_nv_index = None\<rparr>"

definition sim_init :: "sim_hw st" where
  "sim_init = \<lparr>hw = \<lparr>steps = 0, ready = False\<rparr>, log = []\<rparr>"

definition rsa_info :: cros_perso_response_component_info_v0 where
  "rsa_info = \<lparr>component_size = 20, component_type = 129, reserved = [0, 0, 0, 0, 0]\<rparr>"

definition small_cert :: cros_perso_certificate_response_v0 where
  "small_cert = \<lparr>key_id = [0, 0, 0, 0], cert_len = 4, cert = (\<lambda>i. [0x30, 1, 2, 3] ! i)\<rparr>"

definition oversize_cert :: cros_perso_certificate_response_v0 where
  "oversize_cert = \<lparr>key_id = [0, 0, 0, 0], cert_len = 2000, cert = (\<lambda>i. 0x30)\<rparr>"

definition cfg_fault10 :: sim_cfg where
  "cfg_fault10 = cfg0\<lparr>cfg_fault_step := 10\<rparr>"

definition bad_type_region :: "u8 list" where
  "bad_type_region = [0, 0, 7, 0, 0, 0, 0, 0,  0, 0, 0, 0,  0, 0, 0, 0]"

definition cfg_bad_type :: sim_cfg where
  "cfg_bad_type = cfg0\<lparr>cfg_flash := region_of bad_type_region\<rparr>"

definition cfg_bad_read :: sim_cfg where
  "cfg_bad_read = cfg0\<lparr>cfg_bad_info_offset := Some 8\<rparr>"

text \<open>The state of the simulated platform after a complete key derivation, with a log.\<close>

definition sim_after :: "event list \<Rightarrow> sim_hw st" where
  "sim_after evs = \<lparr>hw = \<lparr>steps = 262, ready = True\<rparr>, log = rev evs\<rparr>"

text \<open>
  Region contents: a well-formed pair of records (an RSA record with a 4-byte certificate,
  then a P256 record with a 4-byte certificate) without a valid tag; the same 2016 covered
  bytes followed by the tag computed with a given label; a first record whose length is too
  large; and a first record whose length makes the 32-bit sum wrap around.
\<close>

definition tampered_region :: "u8 list" where
  "tampered_region =
     [0, 0, 0x81, 0, 0, 0, 0, 0,  0, 0, 0, 0,  4, 0, 0, 0,  0x30, 1, 2, 3,
      0, 0, 0x82, 0, 0, 0, 0, 0,  0, 0, 0, 0,  4, 0, 0, 0,  0x30, 4, 5, 6]"

definition covered_bytes :: "u8 list" where
  "covered_bytes = tampered_region @ replicate 1976 0"

definition tagged_region :: "u8 list \<Rightarrow> u8 list" where
  "tagged_region label =
     covered_bytes @ hmac_sha256 (sim cfg0) (hmac_sha256 (sim cfg0) sim_seed label) covered_bytes"

definition big_len_region :: "u8 list" where
  "big_len_region = [0, 0, 0x81, 0, 0, 0, 0, 0,  0, 0, 0, 0,  0x00, 0x10, 0, 0]"

definition overflow_region :: "u8 list" where
  "overflow_region =
     [0, 0, 0x81, 0, 0, 0, 0x82, 0,  0, 0, 0, 0,  0xF4, 0xFF, 0xFF, 0xFF,  0, 0, 0, 0]"

definition cfg_tampered :: sim_cfg where
  "cfg_tampered = cfg0\<lparr>cfg_flash := region_of tampered_region\<rparr>"

definition cfg_tampered_nv_fail :: sim_cfg where
  "cfg_tampered_nv_fail =
     cfg0\<lparr>cfg_flash := region_of tampered_region, cfg_bad_nv_index := Some 0x01C00001\<rparr>"

definition cfg_tampered_rsa_nv_fail :: sim_cfg where
  "cfg_tampered_rsa_nv_fail =
     cfg0\<lparr>cfg_flash := region_of tampered_region, cfg_bad_nv_index := Some 0x01C00000\<rparr>"

definition cfg_tagged :: "u8 list \<Rightarrow> sim_cfg" where
  "cfg_tagged label = cfg0\<lparr>cfg_flash := region_of (tagged_region label)\<rparr>"

definition cfg_big_len :: sim_cfg where
  "cfg_big_len = cfg0\<lparr>cfg_flash := region_of big_len_region\<rparr>"

definition cfg_overflow :: sim_cfg where
  "cfg_overflow = cfg0\<lparr>cfg_flash := region_of overflow_region\<rparr>"

section \<open>Lemmas\<close>

subsection \<open>Logs of the platform calls\<close>

lemma trace_emit [simp]: "trace (emit e s) = trace s @ [e]"
  by (simp add: trace_def emit_def)

lemma trace_hw_update [simp]: "trace (s\<lparr>hw := w\<rparr>) = trace s"
  by (simp add: trace_def)

lemma trace_GREG32_write [simp]:
  "trace (GREG32_write P r v s) = trace s @ [RegWrite r v]"
  by (simp add: GREG32_write_def)

lemma trace_GREG32_read:
  "GREG32_read P r s = (v, s') \<Longrightarrow> trace s' = trace s @ [RegRead r v]"
  by (auto simp: GREG32_read_def split: prod.splits)

subsection \<open>The key ladder\<close>

lemma good_polls_single: "v \<noteq> 0 \<Longrightarrow> good_polls [v]"
  by (simp add: good_polls_def)

lemma good_polls_Cons: "good_polls polls \<Longrightarrow> good_polls (0 # polls)"
  by (auto simp: good_polls_def)

lemma poll_itop_trace:
  assumes "poll_itop P s = Some s'"
  shows "\<exists>polls. trace s' = trace s @ map (RegRead KEYMGR_SHA_ITOP) polls \<and> good_polls polls"
proof -
  let ?Q = "\<lambda>(x::'a platform \<times> 'a st) (y::'a st). \<exists>polls. trace y = trace (snd x) @ map (RegRead KEYMGR_SHA_ITOP) polls \<and> good_polls polls"
  have "?Q (P, s) s'"
  proof (rule poll_itop.raw_induct [where Pa = ?Q, OF _ assms])
    fix f and P :: "'a platform" and s s' :: "'a st"
    assume IH: "\<And>P s y. f P s = Some y \<Longrightarrow> ?Q (P, s) y"
      and body: "(let (itop, s') = GREG32_read P KEYMGR_SHA_ITOP s
                  in if itop = 0 then f P s' else Some s') = Some s'"
    obtain itop s1 where r: "GREG32_read P KEYMGR_SHA_ITOP s = (itop, s1)"
      by (cases "GREG32_read P KEYMGR_SHA_ITOP s")
    have t1: "trace s1 = trace s @ [RegRead KEYMGR_SHA_ITOP itop]"
      using r by (rule trace_GREG32_read)
    show "?Q (P, s) s'"
    proof (cases "itop = 0")
      case True
      with body r have "f P s1 = Some s'" by simp
      from IH [OF this] obtain polls where
        p: "trace s' = trace s1 @ map (RegRead KEYMGR_SHA_ITOP) polls" "good_polls polls"
        by auto
      have "trace s' = trace s @ map (RegRead KEYMGR_SHA_ITOP) (0 # polls)"
        using p(1) t1 True by simp
      moreover have "good_polls (0 # polls)" using p(2) by (rule good_polls_Cons)
      ultimately show ?thesis by (simp only: snd_conv split: prod.splits) blast
    next
      case False
      with body r have "s' = s1" by simp
      then have "trace s' = trace s @ map (RegRead KEYMGR_SHA_ITOP) [itop]"
        using t1 by simp
      moreover have "good_polls [itop]" using False by (rule good_polls_single)
      ultimately show ?thesis by (simp only: snd_conv split: prod.splits) blast
    qed
  qed
  then show ?thesis by simp
qed

lemma hw_key_ladder_step_trace:
  assumes "hw_key_ladder_step P c s = Some (f, s')"
  shows "\<exists>polls v. trace s' = trace s @ step_events P c polls v \<and> good_polls polls \<and>
           f = (if v \<noteq> 0 then 1 else 0)"
proof -
  define s4 where "s4 =
    GREG32_write P KEYMGR_SHA_TRIG (GC_KEYMGR_SHA_TRIG_TRIG_GO_MASK (tc P))
     (GREG32_write P KEYMGR_SHA_CFG_EN (GC_KEYMGR_SHA_CFG_EN_INT_EN_DONE_MASK (tc P))
       (GREG32_write P KEYMGR_SHA_USE_CERT_INDEX
         (push_bit (GC_KEYMGR_SHA_USE_CERT_INDEX_LSB (tc P)) c OR
          GC_KEYMGR_SHA_USE_CERT_ENABLE_MASK (tc P))
         (GREG32_write P KEYMGR_SHA_ITOP 0 s)))"
  from assms obtain s5 where p: "poll_itop P s4 = Some s5"
    by (cases "poll_itop P s4") (simp_all add: hw_key_ladder_step_def Let_def s4_def)
  obtain v s7 where r: "GREG32_read P KEYMGR_HKEY_ERR_FLAGS (GREG32_write P KEYMGR_SHA_ITOP 0 s5) = (v, s7)"
    by (cases "GREG32_read P KEYMGR_HKEY_ERR_FLAGS (GREG32_write P KEYMGR_SHA_ITOP 0 s5)")
  from assms p r have res: "f = (if v \<noteq> 0 then 1 else 0)" "s' = s7"
    by (simp_all add: hw_key_ladder_step_def Let_def s4_def [symmetric])
  from poll_itop_trace [OF p] obtain polls where
    q: "trace s5 = trace s4 @ map (RegRead KEYMGR_SHA_ITOP) polls" "good_polls polls"
    by blast
  have "trace s7 = trace s5 @ [RegWrite KEYMGR_SHA_ITOP 0, RegRead KEYMGR_HKEY_ERR_FLAGS v]"
    using trace_GREG32_read [OF r] by simp
  then have "trace s' = trace s @ step_events P c polls v"
    using q(1) res(2) by (simp add: s4_def step_events_def)
  with q(2) res(1) show ?thesis by blast
qed

lemma run_key_ladder_append:
  "run_key_ladder P (cs @ ds) s =
     (case run_key_ladder P cs s of
        None \<Rightarrow> None
      | Some (faulted, s') \<Rightarrow> if faulted then Some (True, s') else run_key_ladder P ds s')"
  by (induction cs arbitrary: s) (auto split: option.splits)

lemma cert_25_loop_run:
  "cert_25_loop P i s = run_key_ladder P (replicate (nat (254 - i)) KEYMGR_CERT_25) s"
proof (induction P i s rule: cert_25_loop.induct)
  case (1 P i s)
  show ?case
  proof (cases "i < 254")
    case True
    then have n: "nat (254 - i) = Suc (nat (254 - (i + 1)))" by simp
    show ?thesis
      using True "1.IH"
      by (subst cert_25_loop.simps, subst n)
         (auto simp: k_cr50_max_fw_major_version_def K_CROS_FW_MAJOR_VERSION_def
               split: option.splits)
  next
    case False
    then show ?thesis
      by (subst cert_25_loop.simps)
         (simp add: k_cr50_max_fw_major_version_def K_CROS_FW_MAJOR_VERSION_def)
  qed
qed

lemma compute_frk2_run:
  "compute_frk2 P frk2 s =
     (case run_key_ladder P frk2_cert_sequence
             (GREG32_write P KEYMGR_SHA_TRIG (GC_KEYMGR_SHA_TRIG_TRIG_RESET_MASK (tc P)) s) of
        None \<Rightarrow> None
      | Some (faulted, s') \<Rightarrow>
          if faulted then Some (0, frk2, s')
          else let (key, s'') = read_frr P 0 8 s' in Some (1, key, s''))"
  unfolding compute_frk2_def frk2_cert_sequence_def run_key_ladder_append cert_25_loop_run
  by (simp add: Let_def AES256_BLOCK_CIPHER_KEY_SIZE_def KEYMGR_CERT_0_def KEYMGR_CERT_3_def
        KEYMGR_CERT_4_def KEYMGR_CERT_5_def KEYMGR_CERT_7_def KEYMGR_CERT_15_def
        KEYMGR_CERT_20_def KEYMGR_CERT_25_def KEYMGR_CERT_26_def
      split: option.splits prod.splits)

lemma ladder_runs_Nil: "ladder_runs False 0 []"
  by (simp add: ladder_runs_def)

lemma ladder_runs_fault: "good_polls polls \<Longrightarrow> v \<noteq> 0 \<Longrightarrow> ladder_runs True (Suc n) [(polls, v)]"
  by (simp add: ladder_runs_def)

lemma ladder_runs_Cons:
  "good_polls polls \<Longrightarrow> ladder_runs faulted n runs \<Longrightarrow>
   ladder_runs faulted (Suc n) ((polls, 0) # runs)"
  by (auto simp: ladder_runs_def)

lemma ladder_events_Nil [simp]: "ladder_events P [] runs = []" "ladder_events P cs [] = []"
  by (simp_all add: ladder_events_def)

lemma ladder_events_Cons [simp]:
  "ladder_events P (c # cs) ((polls, v) # runs) = step_events P c polls v @ ladder_events P cs runs"
  by (simp add: ladder_events_def)

lemma run_key_ladder_trace:
  "run_key_ladder P cs s = Some (faulted, s') \<Longrightarrow>
   \<exists>runs. trace s' = trace s @ ladder_events P cs runs \<and> ladder_runs faulted (length cs) runs"
proof (induction cs arbitrary: s)
  case Nil
  then show ?case using ladder_runs_Nil by auto
next
  case (Cons c cs)
  from Cons.prems obtain f s1 where st: "hw_key_ladder_step P c s = Some (f, s1)"
    by (cases "hw_key_ladder_step P c s") auto
  from hw_key_ladder_step_trace [OF st] obtain polls v where
    t: "trace s1 = trace s @ step_events P c polls v" "good_polls polls"
       "f = (if v \<noteq> 0 then 1 else 0)"
    by blast
  show ?case
  proof (cases "v = 0")
    case True
    with Cons.prems st t(3) have "run_key_ladder P cs s1 = Some (faulted, s')" by simp
    from Cons.IH [OF this] obtain runs where
      r: "trace s' = trace s1 @ ladder_events P cs runs" "ladder_runs faulted (length cs) runs"
      by blast
    have "trace s' = trace s @ ladder_events P (c # cs) ((polls, v) # runs)"
      using r(1) t(1) by simp
    moreover have "ladder_runs faulted (length (c # cs)) ((polls, v) # runs)"
      using ladder_runs_Cons [OF t(2) r(2)] True by simp
    ultimately show ?thesis by blast
  next
    case False
    with Cons.prems st t(3) have e: "faulted" "s' = s1" by simp_all
    have "trace s' = trace s @ ladder_events P (c # cs) [(polls, v)]"
      using t(1) e(2) by simp
    moreover have "ladder_runs faulted (length (c # cs)) [(polls, v)]"
      using ladder_runs_fault [OF t(2) False] e(1) by simp
    ultimately show ?thesis by blast
  qed
qed

lemma read_frr_trace:
  "read_frr P k n s = (bytes, s') \<Longrightarrow>
   \<exists>vs. length vs = n \<and> trace s' = trace s @ frr_events k vs \<and>
        bytes = concat (map word_bytes vs)"
proof (induction n arbitrary: k s bytes s')
  case 0
  then show ?case by simp
next
  case (Suc n)
  obtain v s1 where r: "GREG32_read P (KEYMGR_HKEY_FRR k) s = (v, s1)"
    by (cases "GREG32_read P (KEYMGR_HKEY_FRR k) s")
  obtain rest s2 where q: "read_frr P (Suc k) n s1 = (rest, s2)"
    by (cases "read_frr P (Suc k) n s1")
  from Suc.prems r q have e: "bytes = word_bytes v @ rest" "s' = s2" by simp_all
  from Suc.IH [OF q] obtain vs where
    i: "length vs = n" "trace s2 = trace s1 @ frr_events (Suc k) vs"
       "rest = concat (map word_bytes vs)"
    by blast
  have "trace s' = trace s @ frr_events k (v # vs)"
    using i(2) trace_GREG32_read [OF r] e(2) by simp
  moreover have "bytes = concat (map word_bytes (v # vs))" using e(1) i(3) by simp
  moreover have "length (v # vs) = Suc n" using i(1) by simp
  ultimately show ?case by blast
qed

lemma length_frk2_cert_sequence: "length frk2_cert_sequence = 262"
  by (simp add: frk2_cert_sequence_def)

lemma compute_frk2_sequence_gen:
  assumes "compute_frk2 P frk2 s = Some (r, key, s')"
  shows "\<exists>runs vs.
           trace s' = trace s @
             [RegWrite KEYMGR_SHA_TRIG (GC_KEYMGR_SHA_TRIG_TRIG_RESET_MASK (tc P))] @
             ladder_events P frk2_cert_sequence runs @ frr_events 0 vs \<and>
           ladder_runs (r = 0) 262 runs \<and>
           (r = 0 \<or> r = 1) \<and>
           (r = 0 \<longrightarrow> vs = [] \<and> key = frk2) \<and>
           (r = 1 \<longrightarrow> length vs = 8 \<and> key = concat (map word_bytes vs))"
proof -
  define s0 where "s0 = GREG32_write P KEYMGR_SHA_TRIG (GC_KEYMGR_SHA_TRIG_TRIG_RESET_MASK (tc P)) s"
  from assms obtain faulted s1 where
    run: "run_key_ladder P frk2_cert_sequence s0 = Some (faulted, s1)"
    by (cases "run_key_ladder P frk2_cert_sequence s0")
       (auto simp: compute_frk2_run s0_def)
  from run_key_ladder_trace [OF run] obtain runs where
    t: "trace s1 = trace s0 @ ladder_events P frk2_cert_sequence runs"
       "ladder_runs faulted 262 runs"
    by (auto simp: length_frk2_cert_sequence)
  have t0: "trace s0 = trace s @ [RegWrite KEYMGR_SHA_TRIG (GC_KEYMGR_SHA_TRIG_TRIG_RESET_MASK (tc P))]"
    by (simp add: s0_def)
  show ?thesis
  proof (cases faulted)
    case True
    with assms run have e: "r = 0" "key = frk2" "s' = s1"
      by (simp_all add: compute_frk2_run s0_def [symmetric])
    have "trace s' = trace s @
             [RegWrite KEYMGR_SHA_TRIG (GC_KEYMGR_SHA_TRIG_TRIG_RESET_MASK (tc P))] @
             ladder_events P frk2_cert_sequence runs @ frr_events 0 []"
      using t(1) t0 e(3) by simp
    moreover have "ladder_runs (r = 0) 262 runs" using t(2) True e(1) by simp
    ultimately show ?thesis using e(1,2)
      by (intro exI [of _ runs] exI [of _ "[]"]) simp
  next
    case False
    obtain k s2 where q: "read_frr P 0 8 s1 = (k, s2)" by (cases "read_frr P 0 8 s1")
    with assms run False have e: "r = 1" "key = k" "s' = s2"
      by (simp_all add: compute_frk2_run s0_def [symmetric])
    from read_frr_trace [OF q] obtain vs where
      v: "length vs = 8" "trace s2 = trace s1 @ frr_events 0 vs" "k = concat (map word_bytes vs)"
      by blast
    have "trace s' = trace s @
             [RegWrite KEYMGR_SHA_TRIG (GC_KEYMGR_SHA_TRIG_TRIG_RESET_MASK (tc P))] @
             ladder_events P frk2_cert_sequence runs @ frr_events 0 vs"
      using t(1) t0 e(3) v(2) by simp
    moreover have "ladder_runs (r = 0) 262 runs" using t(2) False e(1) by simp
    ultimately show ?thesis using e(1,2) v(1,3)
      by (intro exI [of _ runs] exI [of _ vs]) simp
  qed
qed

subsection \<open>The store operations\<close>

lemma trace_NvCommit: "NvCommit P s = (r, s') \<Longrightarrow> trace s' = trace s @ [NvCommitCall r]"
  by (auto simp: NvCommit_def split: prod.splits)

lemma trace_TPM2_NV_DefineSpace:
  "TPM2_NV_DefineSpace P d s = (rc, s') \<Longrightarrow> trace s' = trace s @ [NvDefineSpaceCall d rc]"
  by (auto simp: TPM2_NV_DefineSpace_def split: prod.splits)

lemma trace_TPM2_NV_Write:
  "TPM2_NV_Write P i s = (rc, s') \<Longrightarrow> trace s' = trace s @ [NvWriteCall i rc]"
  by (auto simp: TPM2_NV_Write_def split: prod.splits)

lemma trace_HierarchyStartup [simp]:
  "trace (HierarchyStartup P t s) = trace s @ [HierarchyStartupCall t]"
  by (simp add: HierarchyStartup_def)

lemma trace_gp_EPSeed_copy [simp]:
  "trace (gp_EPSeed_copy P b s) = trace s @ [GpEPSeedCopy b]"
  by (simp add: gp_EPSeed_copy_def)

lemma trace_NvWriteReserved [simp]:
  "trace (NvWriteReserved P i s) = trace s @ [NvWriteReservedCall i]"
  by (simp add: NvWriteReserved_def)

lemma store_eps_trace:
  "store_eps P eps s = (r, s') \<Longrightarrow> trace s' = trace s @ store_eps_events P eps r"
  by (simp add: store_eps_def store_eps_events_def Let_def trace_NvCommit)

lemma store_cert_trace:
  assumes "store_cert P ctype crt n s = (r, s')"
  shows "\<exists>rcs. trace s' = trace s @ store_cert_events P ctype (map crt [0..<unat n]) n rcs \<and>
               r = (if store_cert_ok P rcs then 1 else 0)"
proof -
  define s1 where "s1 = HierarchyStartup P (SU_RESET (tc P)) s"
  obtain rc1 s2 where d: "TPM2_NV_DefineSpace P (store_cert_define P ctype n) s1 = (rc1, s2)"
    by (cases "TPM2_NV_DefineSpace P (store_cert_define P ctype n) s1")
  obtain rc2 s3 where w:
    "TPM2_NV_Write P (store_cert_write P ctype (map crt [0..<unat n]) n) s2 = (rc2, s3)"
    by (cases "TPM2_NV_Write P (store_cert_write P ctype (map crt [0..<unat n]) n) s2")
  obtain cm s4 where c: "NvCommit P s3 = (cm, s4)"
    by (cases "NvCommit P s3")
  have t2: "trace s2 = trace s @ [HierarchyStartupCall (SU_RESET (tc P)),
              NvDefineSpaceCall (store_cert_define P ctype n) rc1]"
    using trace_TPM2_NV_DefineSpace [OF d] by (simp add: s1_def)
  have t3: "trace s3 = trace s2 @ [NvWriteCall (store_cert_write P ctype (map crt [0..<unat n]) n) rc2]"
    using w by (rule trace_TPM2_NV_Write)
  have t4: "trace s4 = trace s3 @ [NvCommitCall cm]"
    using c by (rule trace_NvCommit)
  have res: "(r, s') =
      (if rc1 \<noteq> TPM_RC_SUCCESS (tc P) then (0, s2)
       else if rc2 \<noteq> TPM_RC_SUCCESS (tc P) then (0, s3)
       else if cm \<noteq> 0 then (1, s4) else (0, s4))"
    using assms d w c
    by (cases "rc1 = TPM_RC_SUCCESS (tc P)"; cases "rc2 = TPM_RC_SUCCESS (tc P)";
        simp add: store_cert_def Let_def s1_def [symmetric] store_cert_define_def [symmetric]
          nv_index_of_def [symmetric] store_cert_write_def [symmetric])
  have "trace s' = trace s @ store_cert_events P ctype (map crt [0..<unat n]) n (rc1, rc2, cm) \<and>
        r = (if store_cert_ok P (rc1, rc2, cm) then 1 else 0)"
    using res t2 t3 t4
    by (auto simp: store_cert_events_def store_cert_ok_def split: if_splits)
  then show ?thesis by blast
qed

subsection \<open>The fallback installation\<close>

lemma length_FIXED_RSA: "length FIXED_RSA_ENDORSEMENT_CERT = 1007"
  by (simp add: FIXED_RSA_ENDORSEMENT_CERT_def)

lemma length_FIXED_ECC: "length FIXED_ECC_ENDORSEMENT_CERT = 804"
  by (simp add: FIXED_ECC_ENDORSEMENT_CERT_def)

lemma fixed_rsa_bytes:
  "map (\<lambda>i. FIXED_RSA_ENDORSEMENT_CERT ! i) [0..<unat (1007 :: u32)] = FIXED_RSA_ENDORSEMENT_CERT"
  using map_nth [of FIXED_RSA_ENDORSEMENT_CERT] by (simp add: length_FIXED_RSA)

lemma fixed_ecc_bytes:
  "map (\<lambda>i. FIXED_ECC_ENDORSEMENT_CERT ! i) [0..<unat (804 :: u32)] = FIXED_ECC_ENDORSEMENT_CERT"
  using map_nth [of FIXED_ECC_ENDORSEMENT_CERT] by (simp add: length_FIXED_ECC)

lemma install_fixed_certs_trace:
  assumes "install_fixed_certs P s = (r, s')"
  shows "\<exists>cm a b. trace s' = trace s @ fallback_events P cm a b \<and>
           r = (if cm \<noteq> 0 \<and> store_cert_ok P a \<and> store_cert_ok P b then 1 else 0)"
proof -
  obtain r1 s1 where e: "store_eps P FIXED_ENDORSEMENT_SEED s = (r1, s1)"
    by (cases "store_eps P FIXED_ENDORSEMENT_SEED s")
  note t1 = store_eps_trace [OF e]
  show ?thesis
  proof (cases "r1 = 0")
    case True
    with assms e have "r = 0" "s' = s1" by (simp_all add: install_fixed_certs_def)
    with t1 True have "trace s' = trace s @ fallback_events P r1 (0, 0, 0) (0, 0, 0) \<and>
        r = (if r1 \<noteq> 0 \<and> store_cert_ok P (0, 0, 0) \<and> store_cert_ok P (0, 0, 0) then 1 else 0)"
      by (simp add: fallback_events_def)
    then show ?thesis by blast
  next
    case r1: False
    obtain r2 s2 where c1: "store_cert P CROS_PERSO_COMPONENT_TYPE_RSA_CERT
        (\<lambda>i. FIXED_RSA_ENDORSEMENT_CERT ! i) 1007 s1 = (r2, s2)"
      by (cases "store_cert P CROS_PERSO_COMPONENT_TYPE_RSA_CERT
        (\<lambda>i. FIXED_RSA_ENDORSEMENT_CERT ! i) 1007 s1")
    from store_cert_trace [OF c1] obtain a where
      t2: "trace s2 = trace s1 @ store_cert_events P CROS_PERSO_COMPONENT_TYPE_RSA_CERT
             FIXED_RSA_ENDORSEMENT_CERT 1007 a"
          "r2 = (if store_cert_ok P a then 1 else 0)"
      unfolding fixed_rsa_bytes by blast
    show ?thesis
    proof (cases "r2 = 0")
      case True
      with assms e c1 r1 have "r = 0" "s' = s2" by (simp_all add: install_fixed_certs_def)
      with t1 t2 True r1 have "trace s' = trace s @ fallback_events P r1 a (0, 0, 0) \<and>
          r = (if r1 \<noteq> 0 \<and> store_cert_ok P a \<and> store_cert_ok P (0, 0, 0) then 1 else 0)"
        by (simp add: fallback_events_def split: if_splits)
      then show ?thesis by blast
    next
      case r2: False
      obtain r3 s3 where c2: "store_cert P CROS_PERSO_COMPONENT_TYPE_P256_CERT
          (\<lambda>i. FIXED_ECC_ENDORSEMENT_CERT ! i) 804 s2 = (r3, s3)"
        by (cases "store_cert P CROS_PERSO_COMPONENT_TYPE_P256_CERT
          (\<lambda>i. FIXED_ECC_ENDORSEMENT_CERT ! i) 804 s2")
      from store_cert_trace [OF c2] obtain b where
        t3: "trace s3 = trace s2 @ store_cert_events P CROS_PERSO_COMPONENT_TYPE_P256_CERT
               FIXED_ECC_ENDORSEMENT_CERT 804 b"
            "r3 = (if store_cert_ok P b then 1 else 0)"
        unfolding fixed_ecc_bytes by blast
      from assms e c1 c2 r1 r2 have "r = (if r3 = 0 then 0 else 1)" "s' = s3"
        by (simp_all add: install_fixed_certs_def split: if_splits)
      with t1 t2 t3 r1 r2 have "trace s' = trace s @ fallback_events P r1 a b \<and>
          r = (if r1 \<noteq> 0 \<and> store_cert_ok P a \<and> store_cert_ok P b then 1 else 0)"
        by (simp add: fallback_events_def split: if_splits)
      then show ?thesis by blast
    qed
  qed
qed

subsection \<open>The top-level operation, unfolded\<close>

lemma tpm_endorse_eq:
  "tpm_endorse P frk2u epsu s =
     (let s0 = flash_cert_region_enable P s
      in if load_u32 (flash P) RO_CERTS_START_ADDR = 0xFFFFFFFF then Some (0, epsu, s0)
         else
           case get_decrypted_eps P frk2u epsu s0 of
             None \<Rightarrow> None
           | Some (ok, eps, s1) \<Rightarrow>
               if ok = 0 \<or> \<not> sanity_checks_pass (flash P) \<or> \<not> component_types_ok (flash P)
               then Some (0, eps, s1)
               else
                 let (h, s2) = cert_region_hmac_check P eps s1
                 in if \<not> h
                    then Some (0, replicate PRIMARY_SEED_SIZE 0, snd (install_fixed_certs P s2))
                    else let (r, s') = factory_install P eps s2
                         in Some (r, replicate PRIMARY_SEED_SIZE 0, s'))"
  by (auto simp: tpm_endorse_def Let_def sanity_checks_pass_def component_types_ok_def
        factory_install_def ecc_cert_addr_def rsa_cert_addr_def
      split: option.splits prod.splits)

subsection \<open>The region HMAC\<close>

lemma region_size_facts:
  "unat (RO_CERTS_REGION_SIZE - 32) = 2016"
  "a + RO_CERTS_REGION_SIZE - 32 = a + 2016"
  by (simp_all add: RO_CERTS_REGION_SIZE_def)

lemma cert_region_hmac_check_eq:
  "cert_region_hmac_check P eps s =
     (region_tag (flash P) =
        region_hmac P RSA_label (take PRIMARY_SEED_SIZE eps) (region_body (flash P)),
      emit (HmacSha256 (hmac_sha256 P (take PRIMARY_SEED_SIZE eps) RSA_label)
              (region_body (flash P)))
        (emit (HmacSha256 (take PRIMARY_SEED_SIZE eps) RSA_label) s))"
  unfolding cert_region_hmac_check_def region_size_facts
  by (simp add: DCRYPTO_HMAC_SHA256_def Let_def region_tag_def region_body_def
        region_hmac_def)

lemma cert_region_hmac_check_trace:
  "cert_region_hmac_check P eps s = (h, s') \<Longrightarrow>
   trace s' = trace s @
     [HmacSha256 (take PRIMARY_SEED_SIZE eps) RSA_label,
      HmacSha256 (hmac_sha256 P (take PRIMARY_SEED_SIZE eps) RSA_label) (region_body (flash P))]"
  by (auto simp: cert_region_hmac_check_eq)

subsection \<open>Classes of log entries\<close>

lemma addsI: "trace s' = trace s @ evs \<Longrightarrow> (\<And>e. e \<in> set evs \<Longrightarrow> Q e) \<Longrightarrow> adds Q s s'"
  unfolding adds_def by blast

lemma adds_refl: "adds Q s s"
  unfolding adds_def by simp

lemma adds_trans: "adds Q s s1 \<Longrightarrow> adds Q s1 s2 \<Longrightarrow> adds Q s s2"
proof -
  assume "adds Q s s1" "adds Q s1 s2"
  then obtain e1 e2 where
    a: "trace s1 = trace s @ e1" "\<forall>e \<in> set e1. Q e"
       "trace s2 = trace s1 @ e2" "\<forall>e \<in> set e2. Q e"
    unfolding adds_def by blast
  then have "trace s2 = trace s @ (e1 @ e2)" "\<forall>e \<in> set (e1 @ e2). Q e" by auto
  then show ?thesis unfolding adds_def by blast
qed

lemma adds_mono: "adds Q s s' \<Longrightarrow> (\<And>e. Q e \<Longrightarrow> Q' e) \<Longrightarrow> adds Q' s s'"
  unfolding adds_def by blast

lemma keymgr_event_seed_recovery: "is_keymgr_event e \<Longrightarrow> is_seed_recovery_event e"
  by (cases e rule: is_keymgr_event.cases)
     (auto simp: is_seed_recovery_event_def elim: is_keymgr_reg.elims)

lemma step_events_class: "e \<in> set (step_events P c polls v) \<Longrightarrow> is_keymgr_event e"
  by (auto simp: step_events_def)

lemma ladder_events_class:
  "e \<in> set (ladder_events P cs runs) \<Longrightarrow> is_keymgr_event e"
  by (auto simp: ladder_events_def dest: step_events_class)

lemma frr_events_class: "e \<in> set (frr_events k vs) \<Longrightarrow> is_keymgr_event e"
  by (induction k vs rule: frr_events.induct) auto

lemma compute_frk2_adds:
  assumes "compute_frk2 P frk2 s = Some (r, key, s')"
  shows "adds is_keymgr_event s s'"
proof -
  from compute_frk2_sequence_gen [OF assms] obtain runs vs where
    t: "trace s' = trace s @
             [RegWrite KEYMGR_SHA_TRIG (GC_KEYMGR_SHA_TRIG_TRIG_RESET_MASK (tc P))] @
             ladder_events P frk2_cert_sequence runs @ frr_events 0 vs"
    by blast
  show ?thesis
  proof (rule addsI [OF t])
    fix e
    assume "e \<in> set ([RegWrite KEYMGR_SHA_TRIG (GC_KEYMGR_SHA_TRIG_TRIG_RESET_MASK (tc P))] @
             ladder_events P frk2_cert_sequence runs @ frr_events 0 vs)"
    then consider "e = RegWrite KEYMGR_SHA_TRIG (GC_KEYMGR_SHA_TRIG_TRIG_RESET_MASK (tc P))"
      | "e \<in> set (ladder_events P frk2_cert_sequence runs)" | "e \<in> set (frr_events 0 vs)"
      by auto
    then show "is_keymgr_event e"
    proof cases
      case 1
      then show ?thesis by simp
    next
      case 2
      then show ?thesis by (rule ladder_events_class)
    next
      case 3
      then show ?thesis by (rule frr_events_class)
    qed
  qed
qed

lemma compute_frk2_result:
  "compute_frk2 P frk2 s = Some (r, key, s') \<Longrightarrow> r = 0 \<or> r = 1"
  using compute_frk2_sequence_gen by blast

lemma trace_flash_physical_info_read_word:
  "flash_physical_info_read_word P off s = ((rc, w), s') \<Longrightarrow>
   trace s' = trace s @ [FlashInfoReadWord off rc w]"
  by (auto simp: flash_physical_info_read_word_def split: prod.splits)

lemma eps_read_loop_adds:
  "eps_read_loop P i eps s = (complete, eps', s') \<Longrightarrow> adds is_info_read s s'"
proof (induction P i eps s rule: eps_read_loop.induct)
  case (1 P i eps s)
  show ?case
  proof (cases "i < INFO1_EPS_SIZE")
    case False
    with "1.prems" have "s' = s" by (subst (asm) eps_read_loop.simps) simp
    then show ?thesis by (simp add: adds_refl)
  next
    case True
    obtain rc w s1 where r:
      "flash_physical_info_read_word P (INFO1_EPS_OFFSET P + of_nat i) s = ((rc, w), s1)"
      by (cases "flash_physical_info_read_word P (INFO1_EPS_OFFSET P + of_nat i) s") auto
    have a1: "adds is_info_read s s1"
      by (rule addsI [OF trace_flash_physical_info_read_word [OF r]]) simp
    show ?thesis
    proof (cases "rc \<noteq> EC_SUCCESS (tc P)")
      case True
      with "1.prems" r \<open>i < INFO1_EPS_SIZE\<close> have "s' = s1"
        by (subst (asm) eps_read_loop.simps) simp
      with a1 show ?thesis by simp
    next
      case False
      with "1.prems" r \<open>i < INFO1_EPS_SIZE\<close>
      have "eps_read_loop P (i + 4) (memcpy_word eps i w) s1 = (complete, eps', s')"
        by (subst (asm) eps_read_loop.simps) simp
      from "1.IH" [OF \<open>i < INFO1_EPS_SIZE\<close> r [symmetric] refl refl False this]
      have "adds is_info_read s1 s'" .
      with a1 show ?thesis by (rule adds_trans)
    qed
  qed
qed

subsection \<open>Seed recovery\<close>

lemma info_read_seed_recovery: "is_info_read e \<Longrightarrow> is_seed_recovery_event e"
  by (cases e) (auto simp: is_seed_recovery_event_def)

lemma get_decrypted_eps_cases:
  assumes "get_decrypted_eps P frk2u eps s = Some (r, eps', s')"
  obtains
    (ladder_failed) key where "compute_frk2 P frk2u s = Some (0, key, s')" "r = 0" "eps' = eps"
  | (read_failed) key s1 where "compute_frk2 P frk2u s = Some (1, key, s1)"
      "eps_read_loop P 0 eps (flash_info_read_enable P s1) = (False, eps', s')" "r = 0"
  | (recovered) key s1 eps1 s3 where "compute_frk2 P frk2u s = Some (1, key, s1)"
      "eps_read_loop P 0 eps (flash_info_read_enable P s1) = (True, eps1, s3)"
      "s' = flash_info_read_disable P s3" "eps' = otp_loop 0 eps1 key" "r = 1"
proof -
  from assms obtain ok key s1 where c: "compute_frk2 P frk2u s = Some (ok, key, s1)"
    by (cases "compute_frk2 P frk2u s") (auto simp: get_decrypted_eps_def)
  from compute_frk2_result [OF c] consider "ok = 0" | "ok = 1" by blast
  then show thesis
  proof cases
    case 1
    with assms c have "r = 0" "eps' = eps" "s' = s1" by (simp_all add: get_decrypted_eps_def)
    with c 1 show ?thesis using ladder_failed by simp
  next
    case 2
    obtain complete eps1 s3 where
      l: "eps_read_loop P 0 eps (flash_info_read_enable P s1) = (complete, eps1, s3)"
      by (cases "eps_read_loop P 0 eps (flash_info_read_enable P s1)")
    show ?thesis
    proof (cases complete)
      case True
      with assms c 2 l have "s' = flash_info_read_disable P s3" "eps' = otp_loop 0 eps1 key"
        "r = 1"
        by (simp_all add: get_decrypted_eps_def)
      with c 2 l True show ?thesis using recovered by simp
    next
      case False
      with assms c 2 l have "r = 0" "eps' = eps1" "s' = s3"
        by (simp_all add: get_decrypted_eps_def)
      with c 2 l False show ?thesis using read_failed by simp
    qed
  qed
qed

lemma flash_info_read_enable_trace:
  "trace (flash_info_read_enable P s) = trace s @
     [RegWrite GLOBALSEC_FLASH_REGION7_BASE_ADDR
        (FLASH_INFO_MEMORY_BASE (tc P) + FLASH_INFO_MANUFACTURE_STATE_OFFSET (tc P)),
      RegWrite GLOBALSEC_FLASH_REGION7_SIZE (FLASH_INFO_MANUFACTURE_STATE_SIZE (tc P) - 1),
      RegWrite GLOBALSEC_FLASH_REGION7_CTRL
        (GC_GLOBALSEC_FLASH_REGION7_CTRL_EN_MASK (tc P) OR
         GC_GLOBALSEC_FLASH_REGION7_CTRL_RD_EN_MASK (tc P))]"
  by (simp add: flash_info_read_enable_def Let_def)

lemma flash_cert_region_enable_trace:
  "trace (flash_cert_region_enable P s) = trace s @
     [RegWrite GLOBALSEC_FLASH_REGION6_BASE_ADDR RO_CERTS_START_ADDR,
      RegWrite GLOBALSEC_FLASH_REGION6_SIZE (RO_CERTS_REGION_SIZE - 1),
      RegWrite GLOBALSEC_FLASH_REGION6_CTRL
        (GC_GLOBALSEC_FLASH_REGION6_CTRL_EN_MASK (tc P) OR
         GC_GLOBALSEC_FLASH_REGION6_CTRL_RD_EN_MASK (tc P))]"
  by (simp add: flash_cert_region_enable_def Let_def)

lemma flash_info_read_enable_adds:
  "adds is_seed_recovery_event s (flash_info_read_enable P s)"
  by (rule addsI [OF flash_info_read_enable_trace]) (auto simp: is_seed_recovery_event_def)

lemma flash_info_read_disable_adds:
  "adds is_seed_recovery_event s (flash_info_read_disable P s)"
  by (rule addsI [of _ _ "[RegWrite GLOBALSEC_FLASH_REGION7_CTRL 0]"])
     (auto simp: flash_info_read_disable_def is_seed_recovery_event_def)

lemma get_decrypted_eps_adds:
  assumes "get_decrypted_eps P frk2u eps s = Some (r, eps', s')"
  shows "adds is_seed_recovery_event s s'"
  using assms
proof (cases rule: get_decrypted_eps_cases)
  case (ladder_failed key)
  from compute_frk2_adds [OF ladder_failed(1)] show ?thesis
    by (rule adds_mono) (rule keymgr_event_seed_recovery)
next
  case (read_failed key s1)
  have "adds is_seed_recovery_event s s1"
    using compute_frk2_adds [OF read_failed(1)]
    by (rule adds_mono) (rule keymgr_event_seed_recovery)
  moreover have "adds is_seed_recovery_event (flash_info_read_enable P s1) s'"
    using eps_read_loop_adds [OF read_failed(2)]
    by (rule adds_mono) (rule info_read_seed_recovery)
  ultimately show ?thesis
    using flash_info_read_enable_adds adds_trans by blast
next
  case (recovered key s1 eps1 s3)
  have "adds is_seed_recovery_event s s1"
    using compute_frk2_adds [OF recovered(1)]
    by (rule adds_mono) (rule keymgr_event_seed_recovery)
  moreover have "adds is_seed_recovery_event (flash_info_read_enable P s1) s3"
    using eps_read_loop_adds [OF recovered(2)]
    by (rule adds_mono) (rule info_read_seed_recovery)
  ultimately have "adds is_seed_recovery_event s s3"
    using flash_info_read_enable_adds adds_trans by blast
  then show ?thesis
    unfolding recovered(3) using flash_info_read_disable_adds adds_trans by blast
qed

subsection \<open>Termination\<close>

lemma hw_key_ladder_step_returns:
  "keymgr_responds P \<Longrightarrow> \<exists>f s'. hw_key_ladder_step P c s = Some (f, s')"
  by (auto simp: keymgr_responds_def hw_key_ladder_step_def Let_def
      split: option.splits prod.splits)

lemma run_key_ladder_returns:
  "keymgr_responds P \<Longrightarrow> \<exists>faulted s'. run_key_ladder P cs s = Some (faulted, s')"
proof (induction cs arbitrary: s)
  case Nil
  then show ?case by auto
next
  case (Cons c cs)
  from hw_key_ladder_step_returns [OF Cons.prems] obtain f s1 where
    "hw_key_ladder_step P c s = Some (f, s1)" by blast
  moreover from Cons.IH [OF Cons.prems] obtain faulted s2 where
    "run_key_ladder P cs s1 = Some (faulted, s2)" by blast
  ultimately show ?case by auto
qed

lemma compute_frk2_returns:
  assumes "keymgr_responds P"
  shows "\<exists>r key s'. compute_frk2 P frk2 s = Some (r, key, s')"
proof -
  from run_key_ladder_returns [OF assms] obtain faulted s1 where
    "run_key_ladder P frk2_cert_sequence
       (GREG32_write P KEYMGR_SHA_TRIG (GC_KEYMGR_SHA_TRIG_TRIG_RESET_MASK (tc P)) s) =
     Some (faulted, s1)" by blast
  then show ?thesis
    by (cases faulted) (auto simp: compute_frk2_run split: prod.splits)
qed

lemma get_decrypted_eps_returns:
  assumes "keymgr_responds P"
  shows "\<exists>r eps' s'. get_decrypted_eps P frk2u eps s = Some (r, eps', s')"
proof -
  from compute_frk2_returns [OF assms] obtain ok key s1 where
    "compute_frk2 P frk2u s = Some (ok, key, s1)" by blast
  then show ?thesis
    by (cases "ok = 0") (auto simp: get_decrypted_eps_def Let_def split: prod.splits)
qed

lemma tpm_endorse_returns:
  assumes "keymgr_responds P"
  shows "\<exists>r eps' s'. tpm_endorse P frk2u epsu s = Some (r, eps', s')"
proof -
  from get_decrypted_eps_returns [OF assms] obtain ok eps s1 where
    "get_decrypted_eps P frk2u epsu (flash_cert_region_enable P s) = Some (ok, eps, s1)"
    by blast
  then show ?thesis
    by (auto simp: tpm_endorse_eq Let_def split: prod.splits)
qed

subsection \<open>Certificate validation\<close>

lemma validate_cert_accepts_iff:
  "fst (validate_cert P ci c eps s) \<noteq> 0 \<longleftrightarrow>
     (component_type ci = CROS_PERSO_COMPONENT_TYPE_RSA_CERT \<or>
      component_type ci = CROS_PERSO_COMPONENT_TYPE_P256_CERT) \<and>
     cert_len c \<le> MAX_NV_BUFFER_SIZE (tc P) \<and>
     (x509_verify_fn P (cert_bytes c) (PROD_ENDORSEMENT_CA_RSA_PUB (tc P)) \<noteq> 0 \<or>
      x509_verify_fn P (cert_bytes c) (TEST_ENDORSEMENT_CA_RSA_PUB (tc P)) \<noteq> 0)"
proof (cases "cert_len c \<le> MAX_NV_BUFFER_SIZE (tc P)")
  case True
  then have "\<not> MAX_NV_BUFFER_SIZE (tc P) < cert_len c" by (simp add: not_less)
  then show ?thesis using True
    by (simp add: validate_cert_def DCRYPTO_x509_verify_def Let_def)
next
  case False
  then have "MAX_NV_BUFFER_SIZE (tc P) < cert_len c" by (simp add: not_le)
  then show ?thesis using False
    by (simp add: validate_cert_def)
qed

lemma validate_cert_oversize:
  "cert_len c > MAX_NV_BUFFER_SIZE (tc P) \<Longrightarrow> validate_cert P ci c eps s = (0, s)"
  by (simp add: validate_cert_def)

lemma cert_bytes_cong:
  assumes "cert_len c1 = cert_len c2"
      and "\<forall>i < unat (cert_len c1). cert c1 i = cert c2 i"
  shows "cert_bytes c1 = cert_bytes c2"
proof -
  have "map (cert c1) [0..<unat (cert_len c1)] = map (cert c2) [0..<unat (cert_len c1)]"
    by (rule map_cong) (use assms(2) in auto)
  then show ?thesis by (simp add: cert_bytes_def assms(1))
qed

subsection \<open>Register writes and the classes of the later phases\<close>

lemma reg_writes_Nil [simp]: "reg_writes r [] = []"
  by (simp add: reg_writes_def map_filter_simps)

lemma reg_writes_Cons [simp]:
  "reg_writes r (e # evs) =
     (case write_value r e of None \<Rightarrow> reg_writes r evs | Some v \<Rightarrow> v # reg_writes r evs)"
  by (cases "write_value r e") (simp_all add: reg_writes_def map_filter_simps)

lemma reg_writes_append [simp]: "reg_writes r (xs @ ys) = reg_writes r xs @ reg_writes r ys"
  by (induction xs) (auto split: option.splits)

lemma reg_writes_none:
  "(\<And>e. e \<in> set evs \<Longrightarrow> write_value r e = None) \<Longrightarrow> reg_writes r evs = []"
  by (induction evs) auto

lemma keymgr_no_window_write:
  "is_keymgr_event e \<Longrightarrow> write_value GLOBALSEC_FLASH_REGION7_CTRL e = None"
  by (cases e rule: is_keymgr_event.cases) auto

lemma off_region6_no_write:
  "off_region6 e \<Longrightarrow> write_value GLOBALSEC_FLASH_REGION6_CTRL e = None"
  by (cases e rule: off_region6.cases) auto

lemma seed_recovery_off_region6: "is_seed_recovery_event e \<Longrightarrow> off_region6 e"
  by (simp add: is_seed_recovery_event_def)

lemma soft_off_region6: "is_soft_event e \<Longrightarrow> off_region6 e"
  by (cases e) (auto simp: is_soft_event_def)

lemma adds_emit: "Q e \<Longrightarrow> adds Q s (emit e s)"
  by (rule addsI [of _ _ "[e]"]) simp_all

lemma store_eps_adds: "store_eps P eps s = (r, s') \<Longrightarrow> adds is_soft_event s s'"
  by (rule addsI [OF store_eps_trace]) (auto simp: store_eps_events_def is_soft_event_def)

lemma store_cert_adds:
  assumes "store_cert P ctype crt n s = (r, s')"
  shows "adds is_soft_event s s'"
proof -
  from store_cert_trace [OF assms] obtain rcs where
    t: "trace s' = trace s @ store_cert_events P ctype (map crt [0..<unat n]) n rcs"
    by blast
  show ?thesis
    by (rule addsI [OF t])
       (auto simp: store_cert_events_def is_soft_event_def split: prod.splits if_splits)
qed

lemma DCRYPTO_x509_verify_adds:
  "DCRYPTO_x509_verify P b k s = (r, s') \<Longrightarrow> adds is_soft_event s s'"
  by (auto simp: DCRYPTO_x509_verify_def Let_def is_soft_event_def intro: adds_emit)

lemma validate_cert_adds:
  assumes "validate_cert P ci c eps s = (r, s')"
  shows "adds is_soft_event s s'"
proof -
  obtain r1 s1 where
    v1: "DCRYPTO_x509_verify P (cert_bytes c) (PROD_ENDORSEMENT_CA_RSA_PUB (tc P)) s = (r1, s1)"
    by (cases "DCRYPTO_x509_verify P (cert_bytes c) (PROD_ENDORSEMENT_CA_RSA_PUB (tc P)) s")
  obtain r2 s2 where
    v2: "DCRYPTO_x509_verify P (cert_bytes c) (TEST_ENDORSEMENT_CA_RSA_PUB (tc P)) s1 = (r2, s2)"
    by (cases "DCRYPTO_x509_verify P (cert_bytes c) (TEST_ENDORSEMENT_CA_RSA_PUB (tc P)) s1")
  note a1 = DCRYPTO_x509_verify_adds [OF v1]
  note a2 = adds_trans [OF a1 DCRYPTO_x509_verify_adds [OF v2]]
  from assms v1 v2 have "s' = s \<or> s' = s1 \<or> s' = s2"
    by (auto simp: validate_cert_def Let_def split: if_splits)
  with a1 a2 adds_refl [of is_soft_event s] show ?thesis by blast
qed

lemma handle_cert_adds:
  assumes "handle_cert P ci c eps s = (r, s')"
  shows "adds is_soft_event s s'"
proof -
  obtain v s1 where v: "validate_cert P ci c eps s = (v, s1)"
    by (cases "validate_cert P ci c eps s")
  note a1 = validate_cert_adds [OF v]
  show ?thesis
  proof (cases "v = 0")
    case True
    with assms v have "s' = s1" by (simp add: handle_cert_def)
    with a1 show ?thesis by simp
  next
    case False
    obtain r2 s2 where st: "store_cert P (component_type ci) (cert c) (cert_len c) s1 = (r2, s2)"
      by (cases "store_cert P (component_type ci) (cert c) (cert_len c) s1")
    with assms v False have "s' = s2" by (auto simp: handle_cert_def split: if_splits)
    with a1 store_cert_adds [OF st] show ?thesis using adds_trans by blast
  qed
qed

lemma install_fixed_certs_adds:
  assumes "install_fixed_certs P s = (r, s')"
  shows "adds is_soft_event s s'"
proof -
  from install_fixed_certs_trace [OF assms] obtain cm a b where
    t: "trace s' = trace s @ fallback_events P cm a b"
    by blast
  show ?thesis
    by (rule addsI [OF t])
       (auto simp: fallback_events_def store_eps_events_def store_cert_events_def
          is_soft_event_def split: prod.splits if_splits)
qed

lemma cert_region_hmac_check_adds:
  "cert_region_hmac_check P eps s = (h, s') \<Longrightarrow> adds is_soft_event s s'"
  by (rule addsI [OF cert_region_hmac_check_trace]) (auto simp: is_soft_event_def)

lemma factory_install_adds:
  assumes "factory_install P eps s = (r, s')"
  shows "adds is_soft_event s s'"
proof -
  obtain r1 s3 where h1: "handle_cert P (ro_cert_info (flash P) rsa_cert_addr)
      (ro_cert_response (flash P) rsa_cert_addr) eps s = (r1, s3)"
    by (cases "handle_cert P (ro_cert_info (flash P) rsa_cert_addr)
      (ro_cert_response (flash P) rsa_cert_addr) eps s")
  obtain r2 s4 where h2: "handle_cert P (ro_cert_info (flash P) (ecc_cert_addr (flash P)))
      (ro_cert_response (flash P) (ecc_cert_addr (flash P))) eps s3 = (r2, s4)"
    by (cases "handle_cert P (ro_cert_info (flash P) (ecc_cert_addr (flash P)))
      (ro_cert_response (flash P) (ecc_cert_addr (flash P))) eps s3")
  obtain r3 s5 where h3: "store_eps P eps s4 = (r3, s5)"
    by (cases "store_eps P eps s4")
  note a1 = handle_cert_adds [OF h1]
  note a2 = adds_trans [OF a1 handle_cert_adds [OF h2]]
  note a3 = adds_trans [OF a2 store_eps_adds [OF h3]]
  from assms h1 h2 h3 have "s' = s3 \<or> s' = s4 \<or> s' = s5"
    by (auto simp: factory_install_def Let_def split: if_splits)
  with a1 a2 a3 show ?thesis by blast
qed

text \<open>The ways \<open>tpm_endorse\<close> returns.\<close>

lemma tpm_endorse_cases:
  assumes "tpm_endorse P frk2u epsu s = Some (r, eps', s')"
  obtains
    (unprovisioned) "load_u32 (flash P) RO_CERTS_START_ADDR = 0xFFFFFFFF"
      "r = 0" "eps' = epsu" "s' = flash_cert_region_enable P s"
  | (early) ok where "load_u32 (flash P) RO_CERTS_START_ADDR \<noteq> 0xFFFFFFFF"
      "get_decrypted_eps P frk2u epsu (flash_cert_region_enable P s) = Some (ok, eps', s')"
      "ok = 0 \<or> \<not> sanity_checks_pass (flash P) \<or> \<not> component_types_ok (flash P)" "r = 0"
  | (fallback) eps s1 s2 ri where "load_u32 (flash P) RO_CERTS_START_ADDR \<noteq> 0xFFFFFFFF"
      "get_decrypted_eps P frk2u epsu (flash_cert_region_enable P s) = Some (1, eps, s1)"
      "sanity_checks_pass (flash P)" "component_types_ok (flash P)"
      "cert_region_hmac_check P eps s1 = (False, s2)"
      "install_fixed_certs P s2 = (ri, s')" "r = 0" "eps' = replicate PRIMARY_SEED_SIZE 0"
  | (factory) eps s1 s2 where "load_u32 (flash P) RO_CERTS_START_ADDR \<noteq> 0xFFFFFFFF"
      "get_decrypted_eps P frk2u epsu (flash_cert_region_enable P s) = Some (1, eps, s1)"
      "sanity_checks_pass (flash P)" "component_types_ok (flash P)"
      "cert_region_hmac_check P eps s1 = (True, s2)"
      "factory_install P eps s2 = (r, s')" "eps' = replicate PRIMARY_SEED_SIZE 0"
proof (cases "load_u32 (flash P) RO_CERTS_START_ADDR = 0xFFFFFFFF")
  case True
  with assms have "r = 0" "eps' = epsu" "s' = flash_cert_region_enable P s"
    by (simp_all add: tpm_endorse_eq)
  with True show ?thesis by (rule unprovisioned)
next
  case ne: False
  with assms obtain ok eps s1 where
    g: "get_decrypted_eps P frk2u epsu (flash_cert_region_enable P s) = Some (ok, eps, s1)"
    by (cases "get_decrypted_eps P frk2u epsu (flash_cert_region_enable P s)")
       (auto simp: tpm_endorse_eq)
  show ?thesis
  proof (cases "ok = 0 \<or> \<not> sanity_checks_pass (flash P) \<or> \<not> component_types_ok (flash P)")
    case True
    with assms ne g have "r = 0" "eps' = eps" "s' = s1"
      by (simp_all add: tpm_endorse_eq)
    with ne g True show ?thesis using early by simp
  next
    case False
    then have c: "ok \<noteq> 0" "sanity_checks_pass (flash P)" "component_types_ok (flash P)"
      by simp_all
    have "ok = 0 \<or> ok = 1"
      using g by (cases rule: get_decrypted_eps_cases) simp_all
    with c(1) have ok: "ok = 1" by simp
    obtain h s2 where hc: "cert_region_hmac_check P eps s1 = (h, s2)"
      by (cases "cert_region_hmac_check P eps s1")
    show ?thesis
    proof (cases h)
      case True
      obtain r' s3 where f: "factory_install P eps s2 = (r', s3)"
        by (cases "factory_install P eps s2")
      with assms ne g c hc True have "r = r'" "s' = s3" "eps' = replicate PRIMARY_SEED_SIZE 0"
        by (simp_all add: tpm_endorse_eq)
      with ne g ok c hc True f show ?thesis using factory by simp
    next
      case False
      obtain ri s3 where f: "install_fixed_certs P s2 = (ri, s3)"
        by (cases "install_fixed_certs P s2")
      with assms ne g c hc False have "r = 0" "s' = s3" "eps' = replicate PRIMARY_SEED_SIZE 0"
        by (simp_all add: tpm_endorse_eq)
      with ne g ok c hc False f show ?thesis using fallback by simp
    qed
  qed
qed

lemma tpm_endorse_adds:
  assumes "tpm_endorse P frk2u epsu s = Some (r, eps', s')"
  shows "adds off_region6 (flash_cert_region_enable P s) s'"
  using assms
proof (cases rule: tpm_endorse_cases)
  case unprovisioned
  then show ?thesis by (simp add: adds_refl)
next
  case (early ok)
  from get_decrypted_eps_adds [OF early(2)] show ?thesis
    by (rule adds_mono) (rule seed_recovery_off_region6)
next
  case (fallback eps s1 s2 ri)
  have "adds off_region6 (flash_cert_region_enable P s) s1"
    using get_decrypted_eps_adds [OF fallback(2)]
    by (rule adds_mono) (rule seed_recovery_off_region6)
  moreover have "adds off_region6 s1 s2"
    using cert_region_hmac_check_adds [OF fallback(5)]
    by (rule adds_mono) (rule soft_off_region6)
  moreover have "adds off_region6 s2 s'"
    using install_fixed_certs_adds [OF fallback(6)]
    by (rule adds_mono) (rule soft_off_region6)
  ultimately show ?thesis using adds_trans by blast
next
  case (factory eps s1 s2)
  have "adds off_region6 (flash_cert_region_enable P s) s1"
    using get_decrypted_eps_adds [OF factory(2)]
    by (rule adds_mono) (rule seed_recovery_off_region6)
  moreover have "adds off_region6 s1 s2"
    using cert_region_hmac_check_adds [OF factory(5)]
    by (rule adds_mono) (rule soft_off_region6)
  moreover have "adds off_region6 s2 s'"
    using factory_install_adds [OF factory(6)]
    by (rule adds_mono) (rule soft_off_region6)
  ultimately show ?thesis using adds_trans by blast
qed

subsection \<open>Bit flips in the region\<close>

lemma of_nat_u32_eq:
  "i < 2 ^ 32 \<Longrightarrow> k < 2 ^ 32 \<Longrightarrow> (of_nat i = (of_nat k :: u32)) = (i = k)"
  by (simp add: word_of_nat_eq_iff take_bit_nat_eq_self)

lemma load_bytes_update:
  assumes "n \<le> 2 ^ 32" "k < 2 ^ 32"
  shows "load_bytes (m(a + of_nat k := v)) a n = (load_bytes m a n)[k := v]"
proof (rule nth_equalityI)
  show "length (load_bytes (m(a + of_nat k := v)) a n) = length ((load_bytes m a n)[k := v])"
    by (simp add: load_bytes_def)
next
  fix i
  assume "i < length (load_bytes (m(a + of_nat k := v)) a n)"
  then have i: "i < n" by (simp add: load_bytes_def)
  then have "i < 2 ^ 32" using assms(1) by simp
  then have "(of_nat i = (of_nat k :: u32)) = (i = k)"
    using assms(2) by (rule of_nat_u32_eq)
  then show "load_bytes (m(a + of_nat k := v)) a n ! i = (load_bytes m a n)[k := v] ! i"
    using i by (auto simp: load_bytes_def nth_list_update)
qed

lemma load_bytes_update_outside:
  assumes "\<And>i. i < n \<Longrightarrow> a + of_nat i \<noteq> x"
  shows "load_bytes (m(x := v)) a n = load_bytes m a n"
  using assms by (simp add: load_bytes_def)

lemma length_load_bytes [simp]: "length (load_bytes m a n) = n"
  by (simp add: load_bytes_def)

lemma nth_load_bytes: "i < n \<Longrightarrow> load_bytes m a n ! i = m (a + of_nat i)"
  by (simp add: load_bytes_def)

lemma flipped_byte_differs: "b < 8 \<Longrightarrow> (x :: u8) XOR push_bit b 1 \<noteq> x"
proof
  assume b: "b < 8" and e: "x XOR push_bit b 1 = x"
  have "bit (push_bit b (1 :: u8)) b"
    using b by (simp only: bit_push_bit_iff possible_bit_word) simp
  then have "bit (x XOR push_bit b 1) b = (\<not> bit x b)"
    by (simp only: bit_xor_iff) simp
  with e show False by simp
qed

lemma region_body_flip_body:
  assumes "off < 2016"
  shows "region_body (flip_region_bit m off b) =
           (region_body m)[off := m (RO_CERTS_START_ADDR + of_nat off) XOR push_bit b 1]"
  unfolding region_body_def flip_region_bit_def
  using assms by (intro load_bytes_update) simp_all

lemma region_addr_distinct:
  assumes "i < 2048" "k < 2048" "i \<noteq> k"
  shows "RO_CERTS_START_ADDR + of_nat i \<noteq> RO_CERTS_START_ADDR + (of_nat k :: u32)"
proof -
  have "(of_nat i = (of_nat k :: u32)) = (i = k)"
    using assms(1,2) by (intro of_nat_u32_eq) simp_all
  with assms(3) show ?thesis by simp
qed

lemma region_tag_flip_body:
  assumes "off < 2016"
  shows "region_tag (flip_region_bit m off b) = region_tag m"
  unfolding region_tag_def flip_region_bit_def
proof (rule load_bytes_update_outside)
  fix i :: nat
  assume "i < 32"
  then have "RO_CERTS_START_ADDR + of_nat (2016 + i) \<noteq> RO_CERTS_START_ADDR + (of_nat off :: u32)"
    using assms by (intro region_addr_distinct) simp_all
  then show "RO_CERTS_START_ADDR + 2016 + of_nat i \<noteq> RO_CERTS_START_ADDR + (of_nat off :: u32)"
    by (simp add: add.assoc)
qed

lemma region_body_flip_tag:
  assumes "2016 \<le> off" "off < 2048"
  shows "region_body (flip_region_bit m off b) = region_body m"
  unfolding region_body_def flip_region_bit_def
proof (rule load_bytes_update_outside)
  fix i :: nat
  assume "i < 2016"
  then show "RO_CERTS_START_ADDR + of_nat i \<noteq> RO_CERTS_START_ADDR + (of_nat off :: u32)"
    using assms by (intro region_addr_distinct) simp_all
qed

lemma tag_offset:
  assumes "2016 \<le> off"
  shows "(of_nat off :: u32) = 2016 + of_nat (off - 2016)"
proof -
  have a: "(of_nat (2016 + (off - 2016)) :: u32) = of_nat 2016 + of_nat (off - 2016)"
    by (rule of_nat_add)
  have b: "2016 + (off - 2016) = off" using assms by simp
  have c: "(of_nat 2016 :: u32) = 2016" by simp
  show ?thesis using a unfolding b c .
qed

lemma region_tag_flip_tag:
  assumes "2016 \<le> off" "off < 2048"
  shows "region_tag (flip_region_bit m off b) =
           (region_tag m)[off - 2016 := m (RO_CERTS_START_ADDR + of_nat off) XOR push_bit b 1]"
proof -
  have o: "RO_CERTS_START_ADDR + (of_nat off :: u32) =
           RO_CERTS_START_ADDR + 2016 + of_nat (off - 2016)"
    unfolding tag_offset [OF assms(1)] by (simp only: add.assoc)
  show ?thesis
    unfolding region_tag_def flip_region_bit_def o
    using assms by (intro load_bytes_update) simp_all
qed

lemma list_update_differs: "i < length xs \<Longrightarrow> v \<noteq> xs ! i \<Longrightarrow> xs[i := v] \<noteq> xs"
  by (metis nth_list_update_eq)

lemma region_body_flip_differs:
  assumes "off < 2016" "b < 8"
  shows "region_body (flip_region_bit m off b) \<noteq> region_body m"
proof -
  have "region_body m ! off = m (RO_CERTS_START_ADDR + of_nat off)"
    using assms(1) by (simp add: region_body_def nth_load_bytes)
  then have "m (RO_CERTS_START_ADDR + of_nat off) XOR push_bit b 1 \<noteq> region_body m ! off"
    using flipped_byte_differs [OF assms(2)] by simp
  moreover have "off < length (region_body m)"
    using assms(1) by (simp add: region_body_def)
  ultimately show ?thesis
    unfolding region_body_flip_body [OF assms(1)] by (intro list_update_differs)
qed

lemma region_tag_flip_differs:
  assumes "2016 \<le> off" "off < 2048" "b < 8"
  shows "region_tag (flip_region_bit m off b) \<noteq> region_tag m"
proof -
  have "RO_CERTS_START_ADDR + 2016 + of_nat (off - 2016) =
        RO_CERTS_START_ADDR + (of_nat off :: u32)"
    unfolding tag_offset [OF assms(1)] by (simp only: add.assoc)
  then have "region_tag m ! (off - 2016) = m (RO_CERTS_START_ADDR + of_nat off)"
    using assms(1,2) by (simp add: region_tag_def nth_load_bytes)
  then have "m (RO_CERTS_START_ADDR + of_nat off) XOR push_bit b 1 \<noteq> region_tag m ! (off - 2016)"
    using flipped_byte_differs [OF assms(3)] by simp
  moreover have "off - 2016 < length (region_tag m)"
    using assms(1,2) by (simp add: region_tag_def)
  ultimately show ?thesis
    unfolding region_tag_flip_tag [OF assms(1,2)] by (intro list_update_differs)
qed

lemma hmac_sha256_flash [simp]: "hmac_sha256 (P\<lparr>flash := f\<rparr>) = hmac_sha256 P"
  by (rule ext, rule ext) (simp add: hmac_sha256_def)

lemma region_hmac_flash [simp]: "region_hmac (P\<lparr>flash := f\<rparr>) = region_hmac P"
  by (rule ext, rule ext, rule ext) (simp add: region_hmac_def)

lemma hmac_check_iff:
  "fst (cert_region_hmac_check P eps s) \<longleftrightarrow>
     region_tag (flash P) =
       region_hmac P RSA_label (take PRIMARY_SEED_SIZE eps) (region_body (flash P))"
  by (simp add: cert_region_hmac_check_eq)

subsection \<open>The fallback installation when every store operation succeeds\<close>

lemma store_cert_eq:
  "store_cert P ctype crt n s =
     (let s1 = HierarchyStartup P (SU_RESET (tc P)) s;
          (rc1, s2) = TPM2_NV_DefineSpace P (store_cert_define P ctype n) s1
      in if rc1 \<noteq> TPM_RC_SUCCESS (tc P) then (0, s2)
         else
           let (rc2, s3) =
                 TPM2_NV_Write P (store_cert_write P ctype (map crt [0..<unat n]) n) s2
           in if rc2 \<noteq> TPM_RC_SUCCESS (tc P) then (0, s3)
              else
                let (c, s4) = NvCommit P s3
                in if c \<noteq> 0 then (1, s4) else (0, s4))"
  by (auto simp: store_cert_def Let_def store_cert_define_def nv_index_of_def
        store_cert_write_def split: prod.splits)

lemma NvCommit_succeeds:
  assumes "\<forall>w. fst (nv_commit_fn P w) \<noteq> 0"
  shows "\<exists>c s'. c \<noteq> 0 \<and> NvCommit P s = (c, s') \<and> trace s' = trace s @ [NvCommitCall c]"
proof -
  obtain c w where n: "nv_commit_fn P (hw s) = (c, w)" by (cases "nv_commit_fn P (hw s)")
  with assms [rule_format, of "hw s"] have "c \<noteq> 0" by simp
  with n show ?thesis by (simp add: NvCommit_def)
qed

lemma TPM2_NV_DefineSpace_succeeds:
  assumes "\<forall>d w. fst (nv_define_space_fn P d w) = TPM_RC_SUCCESS (tc P)"
  shows "\<exists>s'. TPM2_NV_DefineSpace P d s = (TPM_RC_SUCCESS (tc P), s') \<and>
               trace s' = trace s @ [NvDefineSpaceCall d (TPM_RC_SUCCESS (tc P))]"
proof -
  obtain rc w where n: "nv_define_space_fn P d (hw s) = (rc, w)"
    by (cases "nv_define_space_fn P d (hw s)")
  with assms [rule_format, of d "hw s"] have "rc = TPM_RC_SUCCESS (tc P)" by simp
  with n show ?thesis by (simp add: TPM2_NV_DefineSpace_def)
qed

lemma TPM2_NV_Write_succeeds:
  assumes "\<forall>i w. fst (nv_write_fn P i w) = TPM_RC_SUCCESS (tc P)"
  shows "\<exists>s'. TPM2_NV_Write P i s = (TPM_RC_SUCCESS (tc P), s') \<and>
               trace s' = trace s @ [NvWriteCall i (TPM_RC_SUCCESS (tc P))]"
proof -
  obtain rc w where n: "nv_write_fn P i (hw s) = (rc, w)"
    by (cases "nv_write_fn P i (hw s)")
  with assms [rule_format, of i "hw s"] have "rc = TPM_RC_SUCCESS (tc P)" by simp
  with n show ?thesis by (simp add: TPM2_NV_Write_def)
qed

lemma store_eps_succeeds:
  assumes "\<forall>w. fst (nv_commit_fn P w) \<noteq> 0"
  shows "\<exists>c s'. c \<noteq> 0 \<and> store_eps P e s = (c, s') \<and>
           trace s' = trace s @
             [GpEPSeedCopy (take PRIMARY_SEED_SIZE e), NvWriteReservedCall (NV_EP_SEED (tc P)),
              NvCommitCall c]"
proof -
  from NvCommit_succeeds [OF assms]
  obtain c s' where
    "c \<noteq> 0"
    "NvCommit P (NvWriteReserved P (NV_EP_SEED (tc P))
       (gp_EPSeed_copy P (take PRIMARY_SEED_SIZE e) s)) = (c, s')"
    "trace s' = trace (NvWriteReserved P (NV_EP_SEED (tc P))
       (gp_EPSeed_copy P (take PRIMARY_SEED_SIZE e) s)) @ [NvCommitCall c]"
    by blast
  then show ?thesis
    by (simp add: store_eps_def Let_def NvWriteReserved_def gp_EPSeed_copy_def)
qed

lemma store_cert_succeeds:
  assumes c: "\<forall>w. fst (nv_commit_fn P w) \<noteq> 0"
      and d: "\<forall>d w. fst (nv_define_space_fn P d w) = TPM_RC_SUCCESS (tc P)"
      and w: "\<forall>i w. fst (nv_write_fn P i w) = TPM_RC_SUCCESS (tc P)"
  shows "\<exists>cm s'. cm \<noteq> 0 \<and> store_cert P ctype crt n s = (1, s') \<and>
           trace s' = trace s @
             [HierarchyStartupCall (SU_RESET (tc P)),
              NvDefineSpaceCall (store_cert_define P ctype n) (TPM_RC_SUCCESS (tc P)),
              NvWriteCall (store_cert_write P ctype (map crt [0..<unat n]) n)
                (TPM_RC_SUCCESS (tc P)),
              NvCommitCall cm]"
proof -
  define s1 where "s1 = HierarchyStartup P (SU_RESET (tc P)) s"
  from TPM2_NV_DefineSpace_succeeds [OF d] obtain s2 where
    d2: "TPM2_NV_DefineSpace P (store_cert_define P ctype n) s1 = (TPM_RC_SUCCESS (tc P), s2)"
    and t2: "trace s2 = trace s1 @
      [NvDefineSpaceCall (store_cert_define P ctype n) (TPM_RC_SUCCESS (tc P))]"
    by blast
  from TPM2_NV_Write_succeeds [OF w] obtain s3 where
    d3: "TPM2_NV_Write P (store_cert_write P ctype (map crt [0..<unat n]) n) s2 =
           (TPM_RC_SUCCESS (tc P), s3)"
    and t3: "trace s3 = trace s2 @
      [NvWriteCall (store_cert_write P ctype (map crt [0..<unat n]) n) (TPM_RC_SUCCESS (tc P))]"
    by blast
  from NvCommit_succeeds [OF c] obtain cm s4 where
    c4: "cm \<noteq> 0" "NvCommit P s3 = (cm, s4)" and t4: "trace s4 = trace s3 @ [NvCommitCall cm]"
    by blast
  have "store_cert P ctype crt n s = (1, s4)"
    using d2 d3 c4 by (simp add: store_cert_eq s1_def [symmetric])
  moreover have "trace s4 = trace s @
             [HierarchyStartupCall (SU_RESET (tc P)),
              NvDefineSpaceCall (store_cert_define P ctype n) (TPM_RC_SUCCESS (tc P)),
              NvWriteCall (store_cert_write P ctype (map crt [0..<unat n]) n)
                (TPM_RC_SUCCESS (tc P)),
              NvCommitCall cm]"
    using t2 t3 t4 by (simp add: s1_def)
  ultimately show ?thesis using c4(1) by blast
qed

lemma install_fixed_certs_succeeds:
  assumes c: "\<forall>w. fst (nv_commit_fn P w) \<noteq> 0"
      and d: "\<forall>d w. fst (nv_define_space_fn P d w) = TPM_RC_SUCCESS (tc P)"
      and w: "\<forall>i w. fst (nv_write_fn P i w) = TPM_RC_SUCCESS (tc P)"
  shows "\<exists>c1 c2 c3 s'. c1 \<noteq> 0 \<and> c2 \<noteq> 0 \<and> c3 \<noteq> 0 \<and> install_fixed_certs P s = (1, s') \<and>
           trace s' = trace s @
             [GpEPSeedCopy FIXED_ENDORSEMENT_SEED, NvWriteReservedCall (NV_EP_SEED (tc P)),
              NvCommitCall c1,
              HierarchyStartupCall (SU_RESET (tc P)),
              NvDefineSpaceCall (store_cert_define P CROS_PERSO_COMPONENT_TYPE_RSA_CERT 1007)
                (TPM_RC_SUCCESS (tc P)),
              NvWriteCall
                (store_cert_write P CROS_PERSO_COMPONENT_TYPE_RSA_CERT
                   FIXED_RSA_ENDORSEMENT_CERT 1007)
                (TPM_RC_SUCCESS (tc P)),
              NvCommitCall c2,
              HierarchyStartupCall (SU_RESET (tc P)),
              NvDefineSpaceCall (store_cert_define P CROS_PERSO_COMPONENT_TYPE_P256_CERT 804)
                (TPM_RC_SUCCESS (tc P)),
              NvWriteCall
                (store_cert_write P CROS_PERSO_COMPONENT_TYPE_P256_CERT
                   FIXED_ECC_ENDORSEMENT_CERT 804)
                (TPM_RC_SUCCESS (tc P)),
              NvCommitCall c3]"
proof -
  have l: "take PRIMARY_SEED_SIZE FIXED_ENDORSEMENT_SEED = FIXED_ENDORSEMENT_SEED"
    by (simp add: PRIMARY_SEED_SIZE_def FIXED_ENDORSEMENT_SEED_def)
  from store_eps_succeeds [OF c, of FIXED_ENDORSEMENT_SEED s] obtain c1 s1 where
    e: "c1 \<noteq> 0" "store_eps P FIXED_ENDORSEMENT_SEED s = (c1, s1)"
       "trace s1 = trace s @
          [GpEPSeedCopy FIXED_ENDORSEMENT_SEED, NvWriteReservedCall (NV_EP_SEED (tc P)),
           NvCommitCall c1]"
    unfolding l by blast
  from store_cert_succeeds [OF c d w, of CROS_PERSO_COMPONENT_TYPE_RSA_CERT
      "\<lambda>i. FIXED_RSA_ENDORSEMENT_CERT ! i" 1007 s1]
  obtain c2 s2 where
    r: "c2 \<noteq> 0"
       "store_cert P CROS_PERSO_COMPONENT_TYPE_RSA_CERT
          (\<lambda>i. FIXED_RSA_ENDORSEMENT_CERT ! i) 1007 s1 = (1, s2)"
       "trace s2 = trace s1 @
          [HierarchyStartupCall (SU_RESET (tc P)),
           NvDefineSpaceCall (store_cert_define P CROS_PERSO_COMPONENT_TYPE_RSA_CERT 1007)
             (TPM_RC_SUCCESS (tc P)),
           NvWriteCall
             (store_cert_write P CROS_PERSO_COMPONENT_TYPE_RSA_CERT
                FIXED_RSA_ENDORSEMENT_CERT 1007)
             (TPM_RC_SUCCESS (tc P)),
           NvCommitCall c2]"
    unfolding fixed_rsa_bytes by blast
  from store_cert_succeeds [OF c d w, of CROS_PERSO_COMPONENT_TYPE_P256_CERT
      "\<lambda>i. FIXED_ECC_ENDORSEMENT_CERT ! i" 804 s2]
  obtain c3 s3 where
    p: "c3 \<noteq> 0"
       "store_cert P CROS_PERSO_COMPONENT_TYPE_P256_CERT
          (\<lambda>i. FIXED_ECC_ENDORSEMENT_CERT ! i) 804 s2 = (1, s3)"
       "trace s3 = trace s2 @
          [HierarchyStartupCall (SU_RESET (tc P)),
           NvDefineSpaceCall (store_cert_define P CROS_PERSO_COMPONENT_TYPE_P256_CERT 804)
             (TPM_RC_SUCCESS (tc P)),
           NvWriteCall
             (store_cert_write P CROS_PERSO_COMPONENT_TYPE_P256_CERT
                FIXED_ECC_ENDORSEMENT_CERT 804)
             (TPM_RC_SUCCESS (tc P)),
           NvCommitCall c3]"
    unfolding fixed_ecc_bytes by blast
  have "install_fixed_certs P s = (1, s3)"
    using e(1,2) r(2) p(2) by (simp add: install_fixed_certs_def)
  moreover note e(1) r(1) p(1)
  moreover have "trace s3 = trace s @
             [GpEPSeedCopy FIXED_ENDORSEMENT_SEED, NvWriteReservedCall (NV_EP_SEED (tc P)),
              NvCommitCall c1,
              HierarchyStartupCall (SU_RESET (tc P)),
              NvDefineSpaceCall (store_cert_define P CROS_PERSO_COMPONENT_TYPE_RSA_CERT 1007)
                (TPM_RC_SUCCESS (tc P)),
              NvWriteCall
                (store_cert_write P CROS_PERSO_COMPONENT_TYPE_RSA_CERT
                   FIXED_RSA_ENDORSEMENT_CERT 1007)
                (TPM_RC_SUCCESS (tc P)),
              NvCommitCall c2,
              HierarchyStartupCall (SU_RESET (tc P)),
              NvDefineSpaceCall (store_cert_define P CROS_PERSO_COMPONENT_TYPE_P256_CERT 804)
                (TPM_RC_SUCCESS (tc P)),
              NvWriteCall
                (store_cert_write P CROS_PERSO_COMPONENT_TYPE_P256_CERT
                   FIXED_ECC_ENDORSEMENT_CERT 804)
                (TPM_RC_SUCCESS (tc P)),
              NvCommitCall c3]"
    using e(3) r(3) p(3) by simp
  ultimately show ?thesis by blast
qed

lemma seed_recovery_event_hw: "is_seed_recovery_event e \<Longrightarrow> is_hw_event e"
  by (simp add: is_seed_recovery_event_def)

lemma seed_recovery_prefix:
  assumes "get_decrypted_eps P frk2u epsu (flash_cert_region_enable P s) = Some (r, eps, s1)"
  shows "\<exists>pre. trace s1 = trace s @ pre \<and> list_all is_hw_event pre"
proof -
  from get_decrypted_eps_adds [OF assms] obtain evs where
    a: "trace s1 = trace (flash_cert_region_enable P s) @ evs"
       "\<forall>e \<in> set evs. is_seed_recovery_event e"
    unfolding adds_def by blast
  have "list_all is_hw_event evs"
    using a(2) by (auto simp: list_all_iff intro: seed_recovery_event_hw)
  then have "trace s1 = trace s @
     ([RegWrite GLOBALSEC_FLASH_REGION6_BASE_ADDR RO_CERTS_START_ADDR,
       RegWrite GLOBALSEC_FLASH_REGION6_SIZE (RO_CERTS_REGION_SIZE - 1),
       RegWrite GLOBALSEC_FLASH_REGION6_CTRL
         (GC_GLOBALSEC_FLASH_REGION6_CTRL_EN_MASK (tc P) OR
          GC_GLOBALSEC_FLASH_REGION6_CTRL_RD_EN_MASK (tc P))] @ evs) \<and>
     list_all is_hw_event
       ([RegWrite GLOBALSEC_FLASH_REGION6_BASE_ADDR RO_CERTS_START_ADDR,
         RegWrite GLOBALSEC_FLASH_REGION6_SIZE (RO_CERTS_REGION_SIZE - 1),
         RegWrite GLOBALSEC_FLASH_REGION6_CTRL
           (GC_GLOBALSEC_FLASH_REGION6_CTRL_EN_MASK (tc P) OR
            GC_GLOBALSEC_FLASH_REGION6_CTRL_RD_EN_MASK (tc P))] @ evs)"
    using a(1) by (simp add: flash_cert_region_enable_trace)
  then show ?thesis by blast
qed

subsection \<open>Runs on the simulated platform\<close>

lemma sim_simps [simp]:
  "tc (sim C) = sim_consts"
  "flash (sim C) = cfg_flash C"
  "reg_write_fn (sim C) = sim_reg_write"
  "reg_read_fn (sim C) = sim_reg_read (cfg_fault_step C)"
  "x509_verify_fn (sim C) = sim_x509_verify"
  "hmac_sha256_fn (sim C) = sim_hmac"
  by (simp_all add: sim_def)

lemma sim_poll_ready:
  "poll_itop (sim C) \<lparr>hw = \<lparr>steps = n, ready = True\<rparr>, log = L\<rparr> =
     Some \<lparr>hw = \<lparr>steps = n, ready = True\<rparr>, log = RegRead KEYMGR_SHA_ITOP 1 # L\<rparr>"
  by (subst poll_itop.simps) (simp add: GREG32_read_def sim_reg_read_def emit_def)

lemma sim_poll:
  "poll_itop (sim C) \<lparr>hw = \<lparr>steps = n, ready = False\<rparr>, log = L\<rparr> =
     Some \<lparr>hw = \<lparr>steps = n, ready = True\<rparr>,
           log = RegRead KEYMGR_SHA_ITOP 1 # RegRead KEYMGR_SHA_ITOP 0 # L\<rparr>"
  by (subst poll_itop.simps) (simp add: GREG32_read_def sim_reg_read_def emit_def sim_poll_ready)

lemma sim_responds: "keymgr_responds (sim C)"
  unfolding keymgr_responds_def
proof
  fix s :: "sim_hw st"
  obtain w L where s0: "s = \<lparr>hw = w, log = L\<rparr>"
    by (cases s) auto
  obtain n b where "w = \<lparr>steps = n, ready = b\<rparr>"
    by (cases w) auto
  with s0 have s: "s = \<lparr>hw = \<lparr>steps = n, ready = b\<rparr>, log = L\<rparr>" by simp
  show "poll_itop (sim C) s \<noteq> None"
    by (cases b) (simp_all add: s sim_poll sim_poll_ready)
qed

lemma sim_step:
  "hw_key_ladder_step (sim C) c \<lparr>hw = \<lparr>steps = n, ready = b\<rparr>, log = L\<rparr> =
     Some (if sim_flags C (Suc n) \<noteq> 0 then 1 else 0,
           \<lparr>hw = \<lparr>steps = Suc n, ready = True\<rparr>,
            log = rev (step_events (sim C) c [0, 1] (sim_flags C (Suc n))) @ L\<rparr>)"
  by (simp add: hw_key_ladder_step_def GREG32_write_def GREG32_read_def emit_def
        sim_reg_write_def sim_reg_read_def sim_consts_def sim_poll step_events_def
        sim_flags_def)

lemma ladder_events_append:
  "length cs = length runs \<Longrightarrow>
   ladder_events P (cs @ ds) (runs @ rs) = ladder_events P cs runs @ ladder_events P ds rs"
  by (simp add: ladder_events_def)

lemma sim_run_clean:
  "cfg_fault_step C \<le> n \<or> n + length cs < cfg_fault_step C \<Longrightarrow>
   run_key_ladder (sim C) cs \<lparr>hw = \<lparr>steps = n, ready = b\<rparr>, log = L\<rparr> =
     Some (False,
           \<lparr>hw = \<lparr>steps = n + length cs, ready = (b \<or> cs \<noteq> [])\<rparr>,
            log = rev (ladder_events (sim C) cs (replicate (length cs) ([0, 1], 0))) @ L\<rparr>)"
proof (induction cs arbitrary: n b L)
  case Nil
  then show ?case by simp
next
  case (Cons c cs)
  from Cons.prems have f: "sim_flags C (Suc n) = 0" by (auto simp: sim_flags_def)
  from Cons.prems have "cfg_fault_step C \<le> Suc n \<or> Suc n + length cs < cfg_fault_step C"
    by auto
  from Cons.IH [OF this] show ?case
    by (simp add: sim_step f)
qed

lemma sim_run_fault:
  assumes "cfg_fault_step C = Suc (n + length cs1)"
  shows "run_key_ladder (sim C) (cs1 @ c # cs2) \<lparr>hw = \<lparr>steps = n, ready = b\<rparr>, log = L\<rparr> =
     Some (True,
           \<lparr>hw = \<lparr>steps = Suc (n + length cs1), ready = True\<rparr>,
            log = rev (ladder_events (sim C) (cs1 @ c # cs2)
                         (replicate (length cs1) ([0, 1], 0) @ [([0, 1], 4)])) @ L\<rparr>)"
proof -
  have c: "cfg_fault_step C \<le> n \<or> n + length cs1 < cfg_fault_step C"
    using assms by simp
  have f: "sim_flags C (Suc (n + length cs1)) = 4"
    using assms by (simp add: sim_flags_def)
  have e: "ladder_events (sim C) (cs1 @ c # cs2)
             (replicate (length cs1) ([0, 1], 0) @ [([0, 1], 4)]) =
           ladder_events (sim C) cs1 (replicate (length cs1) ([0, 1], 0)) @
           step_events (sim C) c [0, 1] 4"
    by (subst ladder_events_append) simp_all
  show ?thesis
    unfolding run_key_ladder_append sim_run_clean [OF c] e
    by (simp add: sim_step f)
qed

lemma sim_read_frr:
  "read_frr (sim C) 0 8 \<lparr>hw = w, log = L\<rparr> =
     (concat (map word_bytes sim_frr_values),
      \<lparr>hw = w, log = rev (frr_events 0 sim_frr_values) @ L\<rparr>)"
  by (simp add: eval_nat_numeral GREG32_read_def sim_reg_read_def emit_def sim_frr_values_def)

lemma sim_compute_frk2:
  assumes "cfg_fault_step C = 0 \<or> 262 < cfg_fault_step C"
  shows "compute_frk2 (sim C) frk2 \<lparr>hw = \<lparr>steps = 0, ready = b\<rparr>, log = L\<rparr> =
     Some (1, concat (map word_bytes sim_frr_values),
           \<lparr>hw = \<lparr>steps = 262, ready = True\<rparr>, log = rev (sim_ladder_events C) @ L\<rparr>)"
proof -
  have c: "cfg_fault_step C \<le> 0 \<or> 0 + length frk2_cert_sequence < cfg_fault_step C"
    using assms by (simp add: length_frk2_cert_sequence)
  have ne: "frk2_cert_sequence \<noteq> []" by (simp add: frk2_cert_sequence_def)
  show ?thesis
    unfolding compute_frk2_run
    by (simp add: GREG32_write_def emit_def sim_reg_write_def sim_consts_def
          sim_run_clean [OF c] length_frk2_cert_sequence ne sim_read_frr
          sim_ladder_events_def)
qed

lemma frk2_cert_sequence_split:
  "frk2_cert_sequence = [0, 3, 4, 5, 7, 15, 20, 25, 25] @ 25 # (replicate 251 25 @ [26])"
proof -
  have "replicate (254 - 0) (25 :: u32) = replicate (Suc (Suc (Suc 251))) 25"
    by (rule arg_cong [where f = "\<lambda>n. replicate n 25"]) simp
  also have "\<dots> = [25, 25] @ 25 # replicate 251 25"
    by (simp only: replicate.simps append.simps)
  finally have r: "replicate (254 - 0) (25 :: u32) = [25, 25] @ 25 # replicate 251 25" .
  show ?thesis
    unfolding frk2_cert_sequence_def r by (simp only: append.simps)
qed

lemma sim_compute_frk2_fault:
  assumes "cfg_fault_step C = 10"
  shows "compute_frk2 (sim C) frk2 \<lparr>hw = \<lparr>steps = 0, ready = b\<rparr>, log = L\<rparr> =
     Some (0, frk2,
           \<lparr>hw = \<lparr>steps = 10, ready = True\<rparr>,
            log = rev ([RegWrite KEYMGR_SHA_TRIG 2] @
                       ladder_events (sim C) frk2_cert_sequence
                         (replicate 9 ([0, 1], 0) @ [([0, 1], 4)])) @ L\<rparr>)"
proof -
  have c: "cfg_fault_step C = Suc (0 + length [0, 3, 4, 5, 7, 15, 20, 25, 25 :: u32])"
    using assms by simp
  have r9: "replicate 9 x = [x, x, x, x, x, x, x, x, x]" for x :: "u32 list \<times> u32"
    by (simp add: eval_nat_numeral)
  show ?thesis
    unfolding compute_frk2_run frk2_cert_sequence_split
    by (simp add: GREG32_write_def emit_def sim_reg_write_def sim_consts_def
          sim_run_fault [OF c, simplified] r9)
qed

lemmas sim_eval =
  INFO1_EPS_SIZE_def PRIMARY_SEED_SIZE_def INFO1_EPS_OFFSET_def
  flash_physical_info_read_word_def emit_def sim_def sim_consts_def memcpy_word_def
  word_bytes_def sim_garbage_def

lemma sim_eps_read_loop:
  "cfg_bad_info_offset C = None \<Longrightarrow>
   eps_read_loop (sim C) 0 sim_garbage \<lparr>hw = w, log = L\<rparr> =
     (True, sim_ciphertext, \<lparr>hw = w, log = rev sim_info_reads @ L\<rparr>)"
  by (simp add: eps_read_loop.simps sim_eval sim_ciphertext_def sim_info_reads_def)

lemma sim_eps_read_loop_fail:
  "cfg_bad_info_offset C = Some 8 \<Longrightarrow>
   eps_read_loop (sim C) 0 sim_garbage \<lparr>hw = w, log = L\<rparr> =
     (False, take 8 sim_ciphertext @ drop 8 sim_garbage,
      \<lparr>hw = w,
       log = rev [FlashInfoReadWord 0 0 0xA0B0C0D0, FlashInfoReadWord 4 0 0xA0B0C0D4,
                  FlashInfoReadWord 8 1 0] @ L\<rparr>)"
  by (simp add: eps_read_loop.simps sim_eval sim_ciphertext_def)

lemma sim_otp_loop:
  "otp_loop 0 sim_ciphertext (concat (map word_bytes sim_frr_values)) = sim_seed"
  by (simp add: otp_loop.simps PRIMARY_SEED_SIZE_def sim_ciphertext_def sim_frr_values_def
        word_bytes_def sim_seed_def)

lemma sim_flash_info_read_enable:
  "flash_info_read_enable (sim C) \<lparr>hw = w, log = L\<rparr> =
     \<lparr>hw = w, log = rev sim_window7_events @ L\<rparr>"
  by (simp add: flash_info_read_enable_def GREG32_write_def emit_def sim_reg_write_def
        sim_consts_def sim_window7_events_def)

lemma sim_flash_info_read_disable:
  "flash_info_read_disable (sim C) \<lparr>hw = w, log = L\<rparr> =
     \<lparr>hw = w, log = RegWrite GLOBALSEC_FLASH_REGION7_CTRL 0 # L\<rparr>"
  by (simp add: flash_info_read_disable_def GREG32_write_def emit_def sim_reg_write_def)

lemma sim_flash_cert_region_enable:
  "flash_cert_region_enable (sim C) \<lparr>hw = w, log = L\<rparr> =
     \<lparr>hw = w, log = rev sim_window6_events @ L\<rparr>"
  by (simp add: flash_cert_region_enable_def GREG32_write_def emit_def sim_reg_write_def
        sim_consts_def sim_window6_events_def RO_CERTS_START_ADDR_def RO_CERTS_REGION_SIZE_def)

lemma sim_get_decrypted_eps:
  assumes "cfg_fault_step C = 0" "cfg_bad_info_offset C = None"
  shows "get_decrypted_eps (sim C) frk2u sim_garbage \<lparr>hw = \<lparr>steps = 0, ready = b\<rparr>, log = L\<rparr> =
     Some (1, sim_seed,
           \<lparr>hw = \<lparr>steps = 262, ready = True\<rparr>, log = rev (sim_seed_recovery_events C) @ L\<rparr>)"
  unfolding get_decrypted_eps_def
  by (simp add: sim_compute_frk2 assms sim_flash_info_read_enable sim_eps_read_loop
        sim_flash_info_read_disable sim_otp_loop sim_seed_recovery_events_def)

lemma sim_get_decrypted_eps_read_fail:
  assumes "cfg_fault_step C = 0" "cfg_bad_info_offset C = Some 8"
  shows "get_decrypted_eps (sim C) frk2u sim_garbage \<lparr>hw = \<lparr>steps = 0, ready = b\<rparr>, log = L\<rparr> =
     Some (0, take 8 sim_ciphertext @ drop 8 sim_garbage,
           \<lparr>hw = \<lparr>steps = 262, ready = True\<rparr>,
            log = rev (sim_ladder_events C @ sim_window7_events @
                       [FlashInfoReadWord 0 0 0xA0B0C0D0, FlashInfoReadWord 4 0 0xA0B0C0D4,
                        FlashInfoReadWord 8 1 0]) @ L\<rparr>)"
  unfolding get_decrypted_eps_def
  by (simp add: sim_compute_frk2 assms sim_flash_info_read_enable sim_eps_read_loop_fail)

lemma region_of_at:
  "k < 2 ^ 32 \<Longrightarrow>
   region_of bytes (RO_CERTS_START_ADDR + of_nat k) = (if k < length bytes then bytes ! k else 0)"
  by (simp add: region_of_def Let_def unat_of_nat)

lemma load_bytes_region_of:
  assumes "k + n \<le> 2 ^ 32"
  shows "load_bytes (region_of bytes) (RO_CERTS_START_ADDR + of_nat k) n =
         map (\<lambda>i. if k + i < length bytes then bytes ! (k + i) else 0) [0..<n]"
proof -
  have "region_of bytes (RO_CERTS_START_ADDR + of_nat k + of_nat i) =
        (if k + i < length bytes then bytes ! (k + i) else 0)" if "i < n" for i
  proof -
    have "k + i < 2 ^ 32" using that assms by simp
    from region_of_at [OF this, of bytes] show ?thesis by (simp add: add.assoc)
  qed
  then show ?thesis by (simp add: load_bytes_def)
qed

lemma region_body_region_of:
  "length body = 2016 \<Longrightarrow> region_body (region_of (body @ tag)) = body"
proof -
  assume l: "length body = 2016"
  have "load_bytes (region_of (body @ tag)) (RO_CERTS_START_ADDR + of_nat 0) 2016 =
        map (\<lambda>i. if 0 + i < length (body @ tag) then (body @ tag) ! (0 + i) else 0) [0..<2016]"
    by (rule load_bytes_region_of) simp
  also have "\<dots> = map (\<lambda>i. body ! i) [0..<length body]"
    using l by (auto simp: nth_append)
  also have "\<dots> = body" by (rule map_nth)
  finally show ?thesis by (simp add: region_body_def)
qed

lemma region_tag_region_of:
  "length body = 2016 \<Longrightarrow> length tag = 32 \<Longrightarrow> region_tag (region_of (body @ tag)) = tag"
proof -
  assume l: "length body = 2016" "length tag = 32"
  have "load_bytes (region_of (body @ tag)) (RO_CERTS_START_ADDR + of_nat 2016) 32 =
        map (\<lambda>i. if 2016 + i < length (body @ tag) then (body @ tag) ! (2016 + i) else 0) [0..<32]"
    by (rule load_bytes_region_of) simp
  also have "\<dots> = map (\<lambda>i. tag ! i) [0..<length tag]"
    using l by (auto simp: nth_append)
  also have "\<dots> = tag" by (rule map_nth)
  finally show ?thesis by (simp add: region_tag_def)
qed

lemma trace_sim_after [simp]: "trace (sim_after evs) = evs"
  by (simp add: sim_after_def trace_def)

lemma trace_sim_init [simp]: "trace sim_init = []"
  by (simp add: sim_init_def trace_def)

lemma sim_cfg_simps [simp]:
  "cfg_fault_step cfg0 = 0" "cfg_bad_info_offset cfg0 = None" "cfg_flash cfg0 = (\<lambda>a. 0xFF)"
  "cfg_fault_step cfg_bad_type = 0" "cfg_bad_info_offset cfg_bad_type = None"
  "cfg_flash cfg_bad_type = region_of bad_type_region"
  "cfg_fault_step cfg_bad_read = 0" "cfg_bad_info_offset cfg_bad_read = Some 8"
  "cfg_fault_step cfg_fault10 = 10"
  by (simp_all add: cfg0_def cfg_bad_type_def cfg_bad_read_def cfg_fault10_def)

lemma sim_ladder_events_class: "e \<in> set (sim_ladder_events C) \<Longrightarrow> is_keymgr_event e"
  by (auto simp: sim_ladder_events_def dest: ladder_events_class frr_events_class)

lemma sim_ladder_no_window7:
  "reg_writes GLOBALSEC_FLASH_REGION7_CTRL (sim_ladder_events C) = []"
  by (intro reg_writes_none keymgr_no_window_write sim_ladder_events_class)

lemma sim_seed_recovery:
  assumes "cfg_fault_step C = 0" "cfg_bad_info_offset C = None"
  shows "get_decrypted_eps (sim C) frk2u sim_garbage (flash_cert_region_enable (sim C) sim_init) =
     Some (1, sim_seed, sim_after (sim_window6_events @ sim_seed_recovery_events C))"
  by (simp add: sim_init_def sim_flash_cert_region_enable sim_get_decrypted_eps assms
        sim_after_def)

lemma region_of_byte:
  "region_of bytes (RO_CERTS_START_ADDR + of_nat k) =
     (if k mod 2 ^ 32 < length bytes then bytes ! (k mod 2 ^ 32) else 0)"
  by (simp add: region_of_def Let_def unat_of_nat)

lemma bad_type_facts:
  "load_u32 (region_of bad_type_region) RO_CERTS_START_ADDR \<noteq> 0xFFFFFFFF"
  "\<not> component_types_ok (region_of bad_type_region)"
  "component_type (ro_cert_info (region_of bad_type_region) rsa_cert_addr) \<noteq>
     CROS_PERSO_COMPONENT_TYPE_RSA_CERT"
  using region_of_byte [of bad_type_region 0] region_of_byte [of bad_type_region 1]
    region_of_byte [of bad_type_region 2] region_of_byte [of bad_type_region 3]
  by (simp_all add: load_u32_def component_types_ok_def ro_cert_info_def
        load_component_info_def rsa_cert_addr_def bad_type_region_def
        CROS_PERSO_COMPONENT_TYPE_RSA_CERT_def)

lemma sim_tpm_endorse_bad_type:
  "tpm_endorse (sim cfg_bad_type) frk2u sim_garbage sim_init =
     Some (0, sim_seed, sim_after (sim_window6_events @ sim_seed_recovery_events cfg_bad_type))"
  by (simp add: tpm_endorse_eq Let_def bad_type_facts sim_seed_recovery)

lemma sim_tpm_endorse_unprovisioned:
  "tpm_endorse (sim cfg0) frk2u sim_garbage sim_init =
     Some (0, sim_garbage, \<lparr>hw = \<lparr>steps = 0, ready = False\<rparr>, log = rev sim_window6_events\<rparr>)"
  by (simp add: tpm_endorse_eq Let_def load_u32_def sim_init_def sim_flash_cert_region_enable)

lemmas region_eval =
  sanity_checks_pass_def component_types_ok_def ecc_cert_addr_def rsa_cert_addr_def
  ro_cert_response_def ro_cert_info_def load_certificate_response_def
  load_component_info_def load_u32_def sizeof_ro_cert_def RO_CERTS_REGION_SIZE_def
  region_of_def Let_def RO_CERTS_START_ADDR_def
  CROS_PERSO_COMPONENT_TYPE_RSA_CERT_def CROS_PERSO_COMPONENT_TYPE_P256_CERT_def

lemma tampered_facts:
  "load_u32 (region_of tampered_region) RO_CERTS_START_ADDR \<noteq> 0xFFFFFFFF"
  "sanity_checks_pass (region_of tampered_region)"
  "component_types_ok (region_of tampered_region)"
  by (simp_all add: region_eval tampered_region_def)

lemma overflow_facts:
  "load_u32 (region_of overflow_region) RO_CERTS_START_ADDR \<noteq> 0xFFFFFFFF"
  "sanity_checks_pass (region_of overflow_region)"
  "component_types_ok (region_of overflow_region)"
  "cert_len (ro_cert_response (region_of overflow_region) rsa_cert_addr) = 0xFFFFFFF4"
  by (simp_all add: region_eval overflow_region_def)

lemma big_len_facts:
  "load_u32 (region_of big_len_region) RO_CERTS_START_ADDR \<noteq> 0xFFFFFFFF"
  "\<not> sanity_checks_pass (region_of big_len_region)"
  "cert_len (ro_cert_response (region_of big_len_region) rsa_cert_addr) = 0x1000"
  by (simp_all add: region_eval big_len_region_def)

lemma length_sim_digest [simp]: "length (sim_digest xs) = 32"
  by (simp add: sim_digest_def Let_def)

lemma sim_hmac_sha256 [simp]: "hmac_sha256 (sim C) k m = sim_hmac k m"
  by (simp add: hmac_sha256_def sim_hmac_def)

lemma sim_digest_not_zero: "sim_digest xs \<noteq> replicate 32 0"
proof
  assume e: "sim_digest xs = replicate 32 0"
  define h where "h = foldl (\<lambda>a b. a * 31 + ucast b + 1) (7 :: u32) xs"
  have "sim_digest xs ! 1 = ucast (drop_bit 8 h) + 1" "sim_digest xs ! 5 = ucast (drop_bit 8 h) + 5"
    by (simp_all add: sim_digest_def Let_def h_def)
  with e have "(ucast (drop_bit 8 h) :: u8) + 1 = 0" "(ucast (drop_bit 8 h) :: u8) + 5 = 0"
    by simp_all
  then have "(ucast (drop_bit 8 h) :: u8) + 1 = ucast (drop_bit 8 h) + 5" by simp
  then show False by simp
qed

lemma short_region_tag:
  "length bytes \<le> 2016 \<Longrightarrow> region_tag (region_of bytes) = replicate 32 0"
proof -
  assume l: "length bytes \<le> 2016"
  have "load_bytes (region_of bytes) (RO_CERTS_START_ADDR + of_nat 2016) 32 =
        map (\<lambda>i. if 2016 + i < length bytes then bytes ! (2016 + i) else 0) [0..<32]"
    by (rule load_bytes_region_of) simp
  also have "\<dots> = map (\<lambda>i. 0) [0..<32]"
    using l by simp
  also have "\<dots> = replicate 32 0"
    by (simp add: map_replicate_const)
  finally show ?thesis by (simp add: region_tag_def)
qed

lemma length_covered_bytes: "length covered_bytes = 2016"
  by (simp add: covered_bytes_def tampered_region_def)

lemma take_covered_bytes: "take 8 covered_bytes = [0, 0, 0x81, 0, 0, 0, 0, 0]"
  by (simp add: covered_bytes_def tampered_region_def)

lemma upt_32:
  "[0..<32] = [0, 1, 2, 3, 4, 5, 6, 7, 8, 9, 10, 11, 12, 13, 14, 15, 16, 17, 18, 19, 20, 21,
               22, 23, 24, 25, 26, 27, 28, 29, 30, 31]"
  by (simp add: upt_rec)

lemma sim_hmac_keys:
  "sim_hmac sim_seed [0x52, 0x53, 0x41] =
     [180, 196, 231, 28, 184, 200, 235, 32, 188, 204, 239, 36, 192, 208, 243,
      40, 196, 212, 247, 44, 200, 216, 251, 48, 204, 220, 255, 52, 208, 224, 3, 56]"
  "sim_hmac sim_seed RSA_label =
     [78, 203, 226, 37, 82, 207, 230, 41, 86, 211, 234, 45, 90, 215, 238, 49,
      94, 219, 242, 53, 98, 223, 246, 57, 102, 227, 250, 61, 106, 231, 254, 65]"
  by (simp_all add: sim_hmac_def sim_digest_def Let_def sim_seed_def RSA_label_def upt_32)

lemma sim_hmac_tags:
  "sim_hmac (sim_hmac sim_seed [0x52, 0x53, 0x41]) covered_bytes =
     [49, 28, 64, 139, 53, 32, 68, 143, 57, 36, 72, 147, 61, 40, 76, 151, 65,
      44, 80, 155, 69, 48, 84, 159, 73, 52, 88, 163, 77, 56, 92, 167]"
  "sim_hmac (sim_hmac sim_seed RSA_label) covered_bytes =
     [89, 11, 206, 210, 93, 15, 210, 214, 97, 19, 214, 218, 101, 23, 218, 222,
      105, 27, 222, 226, 109, 31, 226, 230, 113, 35, 230, 234, 117, 39, 234, 238]"
  unfolding sim_hmac_keys
  by (simp_all add: sim_hmac_def [of _ covered_bytes] sim_digest_def Let_def
        length_covered_bytes take_covered_bytes upt_32)

lemma sim_cfg_simps2 [simp]:
  "cfg_fault_step cfg_tampered = 0" "cfg_bad_info_offset cfg_tampered = None"
  "cfg_flash cfg_tampered = region_of tampered_region" "cfg_bad_nv_index cfg_tampered = None"
  "cfg_fault_step cfg_tampered_nv_fail = 0" "cfg_bad_info_offset cfg_tampered_nv_fail = None"
  "cfg_flash cfg_tampered_nv_fail = region_of tampered_region"
  "cfg_bad_nv_index cfg_tampered_nv_fail = Some 0x01C00001"
  "cfg_fault_step cfg_tampered_rsa_nv_fail = 0"
  "cfg_bad_info_offset cfg_tampered_rsa_nv_fail = None"
  "cfg_flash cfg_tampered_rsa_nv_fail = region_of tampered_region"
  "cfg_bad_nv_index cfg_tampered_rsa_nv_fail = Some 0x01C00000"
  "cfg_fault_step (cfg_tagged l) = 0" "cfg_bad_info_offset (cfg_tagged l) = None"
  "cfg_flash (cfg_tagged l) = region_of (tagged_region l)"
  "cfg_fault_step cfg_big_len = 0" "cfg_bad_info_offset cfg_big_len = None"
  "cfg_flash cfg_big_len = region_of big_len_region"
  "cfg_fault_step cfg_overflow = 0" "cfg_bad_info_offset cfg_overflow = None"
  "cfg_flash cfg_overflow = region_of overflow_region" "cfg_bad_nv_index cfg_overflow = None"
  by (simp_all add: cfg0_def cfg_tampered_def cfg_tampered_nv_fail_def
        cfg_tampered_rsa_nv_fail_def cfg_tagged_def
        cfg_big_len_def cfg_overflow_def)

lemma take_sim_seed [simp]: "take PRIMARY_SEED_SIZE sim_seed = sim_seed"
  by (simp add: PRIMARY_SEED_SIZE_def sim_seed_def)

lemma sim_install_ok:
  "cfg_bad_nv_index C = None \<Longrightarrow> fst (install_fixed_certs (sim C) s) = 1"
  by (simp add: install_fixed_certs_def store_eps_def store_cert_def Let_def NvCommit_def
        TPM2_NV_DefineSpace_def TPM2_NV_Write_def sim_def sim_consts_def)

lemma sim_install_fail:
  "cfg_bad_nv_index C = Some 0x01C00001 \<Longrightarrow> fst (install_fixed_certs (sim C) s) = 0"
  by (simp add: install_fixed_certs_def store_eps_def store_cert_def Let_def NvCommit_def
        TPM2_NV_DefineSpace_def TPM2_NV_Write_def sim_def sim_consts_def
        EK_CERT_NV_START_INDEX_def CROS_PERSO_COMPONENT_TYPE_RSA_CERT_def
        CROS_PERSO_COMPONENT_TYPE_P256_CERT_def)

lemma sim_tag_mismatch:
  "length bytes \<le> 2016 \<Longrightarrow>
   region_tag (region_of bytes) \<noteq>
     region_hmac (sim C) RSA_label sim_seed (region_body (region_of bytes))"
  by (simp add: short_region_tag region_hmac_def sim_hmac_def [of _ "region_body _"]
        sim_digest_not_zero [symmetric])

lemma sim_tpm_endorse_fallback:
  assumes "cfg_fault_step C = 0" "cfg_bad_info_offset C = None"
    "cfg_flash C = region_of bytes" "length bytes \<le> 2016"
    "load_u32 (region_of bytes) RO_CERTS_START_ADDR \<noteq> 0xFFFFFFFF"
    "sanity_checks_pass (region_of bytes)" "component_types_ok (region_of bytes)"
  shows "tpm_endorse (sim C) frk2u sim_garbage sim_init =
     Some (0, replicate PRIMARY_SEED_SIZE 0,
           snd (install_fixed_certs (sim C)
                  (snd (cert_region_hmac_check (sim C) sim_seed
                          (sim_after (sim_window6_events @ sim_seed_recovery_events C))))))"
  using sim_tag_mismatch [OF assms(4), of C]
  by (simp add: tpm_endorse_eq Let_def assms sim_seed_recovery cert_region_hmac_check_eq)

lemma sim_tpm_endorse_big_len:
  "tpm_endorse (sim cfg_big_len) frk2u sim_garbage sim_init =
     Some (0, sim_seed, sim_after (sim_window6_events @ sim_seed_recovery_events cfg_big_len))"
  by (simp add: tpm_endorse_eq Let_def big_len_facts sim_seed_recovery)

lemma tagged_region_facts:
  "region_body (region_of (tagged_region label)) = covered_bytes"
  "region_tag (region_of (tagged_region label)) =
     sim_hmac (sim_hmac sim_seed label) covered_bytes"
  unfolding tagged_region_def sim_hmac_sha256
  by (simp_all add: region_body_region_of region_tag_region_of length_covered_bytes
        sim_hmac_def [of _ covered_bytes])

subsection \<open>The fallback installation on the simulated platform\<close>

lemma sim_emit: "emit e (sim_after evs) = sim_after (evs @ [e])"
  by (simp add: emit_def sim_after_def)

lemma sim_soft_calls:
  "HierarchyStartup (sim C) t (sim_after evs) = sim_after (evs @ [HierarchyStartupCall t])"
  "gp_EPSeed_copy (sim C) b (sim_after evs) = sim_after (evs @ [GpEPSeedCopy b])"
  "NvWriteReserved (sim C) i (sim_after evs) = sim_after (evs @ [NvWriteReservedCall i])"
  "NvCommit (sim C) (sim_after evs) = (1, sim_after (evs @ [NvCommitCall 1]))"
  "TPM2_NV_Write (sim C) inp (sim_after evs) = (0, sim_after (evs @ [NvWriteCall inp 0]))"
  "TPM2_NV_DefineSpace (sim C) d (sim_after evs) =
     (if cfg_bad_nv_index C = Some (ds_nvIndex d)
      then (0x14B, sim_after (evs @ [NvDefineSpaceCall d 0x14B]))
      else (0, sim_after (evs @ [NvDefineSpaceCall d 0])))"
  by (simp_all add: HierarchyStartup_def gp_EPSeed_copy_def NvWriteReserved_def NvCommit_def
        TPM2_NV_Write_def TPM2_NV_DefineSpace_def sim_def emit_def sim_after_def)

lemma sim_define_index:
  "ds_nvIndex (store_cert_define P CROS_PERSO_COMPONENT_TYPE_RSA_CERT n) = 0x01C00000"
  "ds_nvIndex (store_cert_define P CROS_PERSO_COMPONENT_TYPE_P256_CERT n) = 0x01C00001"
  by (simp_all add: store_cert_define_def nv_index_of_def EK_CERT_NV_START_INDEX_def
        CROS_PERSO_COMPONENT_TYPE_RSA_CERT_def CROS_PERSO_COMPONENT_TYPE_P256_CERT_def)

lemma sim_store_consts:
  "TPM_RC_SUCCESS sim_consts = 0" "SU_RESET sim_consts = 0" "NV_EP_SEED sim_consts = 5"
  by (simp_all add: sim_consts_def)

lemma sim_store_eps:
  "store_eps (sim C) FIXED_ENDORSEMENT_SEED (sim_after evs) =
     (1, sim_after (evs @ [GpEPSeedCopy FIXED_ENDORSEMENT_SEED, NvWriteReservedCall 5,
                           NvCommitCall 1]))"
proof -
  have l: "take PRIMARY_SEED_SIZE FIXED_ENDORSEMENT_SEED = FIXED_ENDORSEMENT_SEED"
    by (simp add: PRIMARY_SEED_SIZE_def FIXED_ENDORSEMENT_SEED_def)
  show ?thesis
    by (simp add: store_eps_def l sim_soft_calls sim_store_consts)
qed

lemma sim_store_cert_ok:
  assumes "cfg_bad_nv_index C \<noteq> Some (ds_nvIndex (store_cert_define (sim C) ctype n))"
  shows "store_cert (sim C) ctype crt n (sim_after evs) =
     (1, sim_after (evs @
           [HierarchyStartupCall 0,
            NvDefineSpaceCall (store_cert_define (sim C) ctype n) 0,
            NvWriteCall (store_cert_write (sim C) ctype (map crt [0..<unat n]) n) 0,
            NvCommitCall 1]))"
  using assms by (simp add: store_cert_eq sim_soft_calls sim_store_consts)

lemma sim_store_cert_fail:
  assumes "cfg_bad_nv_index C = Some (ds_nvIndex (store_cert_define (sim C) ctype n))"
  shows "store_cert (sim C) ctype crt n (sim_after evs) =
     (0, sim_after (evs @
           [HierarchyStartupCall 0,
            NvDefineSpaceCall (store_cert_define (sim C) ctype n) 0x14B]))"
  using assms by (simp add: store_cert_eq sim_soft_calls sim_store_consts)

lemma fixed_cert_bytes:
  "map ((!) FIXED_RSA_ENDORSEMENT_CERT) [0..<1007] = FIXED_RSA_ENDORSEMENT_CERT"
  "map ((!) FIXED_ECC_ENDORSEMENT_CERT) [0..<804] = FIXED_ECC_ENDORSEMENT_CERT"
  using map_nth [of FIXED_RSA_ENDORSEMENT_CERT] map_nth [of FIXED_ECC_ENDORSEMENT_CERT]
  by (simp_all add: length_FIXED_RSA length_FIXED_ECC)

lemma sim_install_complete:
  assumes "cfg_bad_nv_index C = None"
  shows "install_fixed_certs (sim C) (sim_after evs) =
     (1, sim_after (evs @
           [GpEPSeedCopy FIXED_ENDORSEMENT_SEED, NvWriteReservedCall 5, NvCommitCall 1,
            HierarchyStartupCall 0,
            NvDefineSpaceCall
              (store_cert_define (sim C) CROS_PERSO_COMPONENT_TYPE_RSA_CERT 1007) 0,
            NvWriteCall
              (store_cert_write (sim C) CROS_PERSO_COMPONENT_TYPE_RSA_CERT
                 FIXED_RSA_ENDORSEMENT_CERT 1007) 0,
            NvCommitCall 1,
            HierarchyStartupCall 0,
            NvDefineSpaceCall
              (store_cert_define (sim C) CROS_PERSO_COMPONENT_TYPE_P256_CERT 804) 0,
            NvWriteCall
              (store_cert_write (sim C) CROS_PERSO_COMPONENT_TYPE_P256_CERT
                 FIXED_ECC_ENDORSEMENT_CERT 804) 0,
            NvCommitCall 1]))"
  by (simp add: install_fixed_certs_def sim_store_eps sim_store_cert_ok assms
        fixed_cert_bytes)

lemma sim_install_rsa_fail:
  assumes "cfg_bad_nv_index C = Some 0x01C00000"
  shows "install_fixed_certs (sim C) (sim_after evs) =
     (0, sim_after (evs @
           [GpEPSeedCopy FIXED_ENDORSEMENT_SEED, NvWriteReservedCall 5, NvCommitCall 1,
            HierarchyStartupCall 0,
            NvDefineSpaceCall
              (store_cert_define (sim C) CROS_PERSO_COMPONENT_TYPE_RSA_CERT 1007) 0x14B]))"
  by (simp add: install_fixed_certs_def sim_store_eps sim_store_cert_fail assms
        sim_define_index)

lemma sim_hmac_check_state:
  "snd (cert_region_hmac_check (sim C) sim_seed (sim_after evs)) =
     sim_after (evs @
       [HmacSha256 sim_seed RSA_label,
        HmacSha256 (sim_hmac sim_seed RSA_label) (region_body (cfg_flash C))])"
  by (simp add: cert_region_hmac_check_eq sim_emit take_sim_seed sim_hmac_sha256)

lemma sim_recovery_events_hw:
  assumes "cfg_fault_step C = 0" "cfg_bad_info_offset C = None"
  shows "list_all is_hw_event (sim_window6_events @ sim_seed_recovery_events C)"
proof -
  from seed_recovery_prefix [OF sim_seed_recovery [OF assms, of sim_garbage]]
  obtain pre where
    t: "trace (sim_after (sim_window6_events @ sim_seed_recovery_events C)) =
          trace sim_init @ pre"
    and p: "list_all is_hw_event pre"
    by blast
  from t have "pre = sim_window6_events @ sim_seed_recovery_events C" by simp
  with p show ?thesis by (simp only:)
qed

lemma sim_tpm_endorse_fallback_complete:
  assumes "cfg_fault_step C = 0" "cfg_bad_info_offset C = None"
    "cfg_flash C = region_of tampered_region" "cfg_bad_nv_index C = None"
  shows "tpm_endorse (sim C) frk2u sim_garbage sim_init =
     Some (0, replicate PRIMARY_SEED_SIZE 0,
           sim_after
             ((sim_window6_events @ sim_seed_recovery_events C) @
              [HmacSha256 sim_seed RSA_label,
               HmacSha256 (sim_hmac sim_seed RSA_label)
                 (region_body (region_of tampered_region))] @
              [GpEPSeedCopy FIXED_ENDORSEMENT_SEED, NvWriteReservedCall 5, NvCommitCall 1,
               HierarchyStartupCall 0,
               NvDefineSpaceCall
                 (store_cert_define (sim C) CROS_PERSO_COMPONENT_TYPE_RSA_CERT 1007) 0,
               NvWriteCall
                 (store_cert_write (sim C) CROS_PERSO_COMPONENT_TYPE_RSA_CERT
                    FIXED_RSA_ENDORSEMENT_CERT 1007) 0,
               NvCommitCall 1,
               HierarchyStartupCall 0,
               NvDefineSpaceCall
                 (store_cert_define (sim C) CROS_PERSO_COMPONENT_TYPE_P256_CERT 804) 0,
               NvWriteCall
                 (store_cert_write (sim C) CROS_PERSO_COMPONENT_TYPE_P256_CERT
                    FIXED_ECC_ENDORSEMENT_CERT 804) 0,
               NvCommitCall 1]))"
proof -
  have l: "length tampered_region \<le> 2016" by (simp add: tampered_region_def)
  show ?thesis
    using sim_tpm_endorse_fallback [OF assms(1-3) l tampered_facts, of frk2u]
    by (simp add: sim_hmac_check_state sim_install_complete assms)
qed

lemma sim_tpm_endorse_fallback_rsa_fail:
  assumes "cfg_fault_step C = 0" "cfg_bad_info_offset C = None"
    "cfg_flash C = region_of tampered_region" "cfg_bad_nv_index C = Some 0x01C00000"
  shows "tpm_endorse (sim C) frk2u sim_garbage sim_init =
     Some (0, replicate PRIMARY_SEED_SIZE 0,
           sim_after
             ((sim_window6_events @ sim_seed_recovery_events C) @
              [HmacSha256 sim_seed RSA_label,
               HmacSha256 (sim_hmac sim_seed RSA_label)
                 (region_body (region_of tampered_region))] @
              [GpEPSeedCopy FIXED_ENDORSEMENT_SEED, NvWriteReservedCall 5, NvCommitCall 1,
               HierarchyStartupCall 0,
               NvDefineSpaceCall
                 (store_cert_define (sim C) CROS_PERSO_COMPONENT_TYPE_RSA_CERT 1007)
                 0x14B]))"
proof -
  have l: "length tampered_region \<le> 2016" by (simp add: tampered_region_def)
  show ?thesis
    using sim_tpm_endorse_fallback [OF assms(1-3) l tampered_facts, of frk2u]
    by (simp add: sim_hmac_check_state sim_install_rsa_fail assms)
qed

section \<open>The claims\<close>

text \<open>
  C1 fails on the code. With a first record whose length field is 0x1000, seed recovery
  succeeds, the first sanity check fails, and \<open>tpm_endorse\<close> returns 0 through an early
  \<open>return\<close>: the seed buffer holds the recovered seed, not zeros.
\<close>

theorem seed_left_in_buffer:
  "get_decrypted_eps (sim cfg_big_len) sim_garbage sim_garbage
       (flash_cert_region_enable (sim cfg_big_len) sim_init) =
     Some (1, sim_seed, sim_after (sim_window6_events @ sim_seed_recovery_events cfg_big_len)) \<and>
   tpm_endorse (sim cfg_big_len) sim_garbage sim_garbage sim_init =
     Some (0, sim_seed, sim_after (sim_window6_events @ sim_seed_recovery_events cfg_big_len)) \<and>
   sim_seed \<noteq> replicate PRIMARY_SEED_SIZE 0"
proof -
  have "0xD1 \<in> set sim_seed" by (simp add: sim_seed_def)
  moreover have "(0xD1 :: u8) \<notin> set (replicate PRIMARY_SEED_SIZE 0)" by simp
  ultimately have "sim_seed \<noteq> replicate PRIMARY_SEED_SIZE 0" by metis
  then show ?thesis
    by (simp add: sim_seed_recovery sim_tpm_endorse_big_len)
qed

text \<open>
  C2, as amended. Seed recovery: when \<open>get_decrypted_eps\<close> succeeds, the last value it
  wrote to the control register of the information-region window is 0 (the window is
  closed again), and when the key derivation fails, whatever state that leaves,
  \<open>get_decrypted_eps\<close> never writes to that register.
  Top level: \<open>tpm_endorse\<close> writes the control register of the certificate-region window
  exactly once, with the enabling value; it returns with that window enabled.
\<close>

theorem read_windows:
  "(\<forall>r eps' s' evs.
      get_decrypted_eps P frk2u eps s = Some (r, eps', s') \<longrightarrow> trace s' = trace s @ evs \<longrightarrow>
        (r \<noteq> 0 \<longrightarrow> last_write GLOBALSEC_FLASH_REGION7_CTRL evs = Some 0) \<and>
        ((\<exists>key sk. compute_frk2 P frk2u s = Some (0, key, sk)) \<longrightarrow>
           reg_writes GLOBALSEC_FLASH_REGION7_CTRL evs = [])) \<and>
   (\<forall>r eps' s' evs.
      tpm_endorse P frk2u eps s = Some (r, eps', s') \<longrightarrow> trace s' = trace s @ evs \<longrightarrow>
        reg_writes GLOBALSEC_FLASH_REGION6_CTRL evs =
          [GC_GLOBALSEC_FLASH_REGION6_CTRL_EN_MASK (tc P) OR
           GC_GLOBALSEC_FLASH_REGION6_CTRL_RD_EN_MASK (tc P)])"
proof (intro conjI allI impI)
  fix r eps' s' evs
  assume g: "get_decrypted_eps P frk2u eps s = Some (r, eps', s')"
    and t: "trace s' = trace s @ evs" and r: "r \<noteq> 0"
  from g show "last_write GLOBALSEC_FLASH_REGION7_CTRL evs = Some 0"
  proof (cases rule: get_decrypted_eps_cases)
    case (ladder_failed key)
    with r show ?thesis by simp
  next
    case (read_failed key s1)
    with r show ?thesis by simp
  next
    case (recovered key s1 eps1 s3)
    have "trace s' = trace s3 @ [RegWrite GLOBALSEC_FLASH_REGION7_CTRL 0]"
      by (simp add: recovered(3) flash_info_read_disable_def)
    moreover have "adds is_seed_recovery_event s s3"
    proof -
      have "adds is_seed_recovery_event s s1"
        using compute_frk2_adds [OF recovered(1)]
        by (rule adds_mono) (rule keymgr_event_seed_recovery)
      moreover have "adds is_seed_recovery_event (flash_info_read_enable P s1) s3"
        using eps_read_loop_adds [OF recovered(2)]
        by (rule adds_mono) (rule info_read_seed_recovery)
      ultimately show ?thesis
        using flash_info_read_enable_adds adds_trans by blast
    qed
    then obtain pre where "trace s3 = trace s @ pre" unfolding adds_def by blast
    ultimately have "evs = pre @ [RegWrite GLOBALSEC_FLASH_REGION7_CTRL 0]"
      using t by simp
    then show ?thesis
      by (cases "reg_writes GLOBALSEC_FLASH_REGION7_CTRL pre") (simp_all add: last_write_def)
  qed
next
  fix r eps' s' evs
  assume g: "get_decrypted_eps P frk2u eps s = Some (r, eps', s')"
    and t: "trace s' = trace s @ evs"
    and "\<exists>key sk. compute_frk2 P frk2u s = Some (0, key, sk)"
  then obtain key sk where f: "compute_frk2 P frk2u s = Some (0, key, sk)" by blast
  from g have c: "compute_frk2 P frk2u s = Some (0, key, s')"
  proof (cases rule: get_decrypted_eps_cases)
    case (ladder_failed key')
    with f show ?thesis by simp
  next
    case (read_failed key' s1)
    with f show ?thesis by simp
  next
    case (recovered key' s1 eps1 s3)
    with f show ?thesis by simp
  qed
  from compute_frk2_adds [OF c] t have "\<forall>e \<in> set evs. is_keymgr_event e"
    unfolding adds_def by auto
  then show "reg_writes GLOBALSEC_FLASH_REGION7_CTRL evs = []"
    by (intro reg_writes_none keymgr_no_window_write) simp
next
  fix r eps' s' evs
  assume e: "tpm_endorse P frk2u eps s = Some (r, eps', s')"
    and t: "trace s' = trace s @ evs"
  from tpm_endorse_adds [OF e] obtain rest where
    a: "trace s' = trace (flash_cert_region_enable P s) @ rest" "\<forall>e \<in> set rest. off_region6 e"
    unfolding adds_def by blast
  have "reg_writes GLOBALSEC_FLASH_REGION6_CTRL rest = []"
    using a(2) by (intro reg_writes_none off_region6_no_write) simp
  moreover have "evs =
     [RegWrite GLOBALSEC_FLASH_REGION6_BASE_ADDR RO_CERTS_START_ADDR,
      RegWrite GLOBALSEC_FLASH_REGION6_SIZE (RO_CERTS_REGION_SIZE - 1),
      RegWrite GLOBALSEC_FLASH_REGION6_CTRL
        (GC_GLOBALSEC_FLASH_REGION6_CTRL_EN_MASK (tc P) OR
         GC_GLOBALSEC_FLASH_REGION6_CTRL_RD_EN_MASK (tc P))] @ rest"
    using a(1) t by (simp add: flash_cert_region_enable_trace)
  ultimately show "reg_writes GLOBALSEC_FLASH_REGION6_CTRL evs =
          [GC_GLOBALSEC_FLASH_REGION6_CTRL_EN_MASK (tc P) OR
           GC_GLOBALSEC_FLASH_REGION6_CTRL_RD_EN_MASK (tc P)]"
    by simp
qed

theorem read_windows_witness:
  "get_decrypted_eps (sim cfg0) sim_garbage sim_garbage sim_init =
     Some (1, sim_seed, sim_after (sim_seed_recovery_events cfg0)) \<and>
   last_write GLOBALSEC_FLASH_REGION7_CTRL (sim_seed_recovery_events cfg0) = Some 0 \<and>
   compute_frk2 (sim cfg_fault10) sim_garbage sim_init =
     Some (0, sim_garbage,
           \<lparr>hw = \<lparr>steps = 10, ready = True\<rparr>,
            log = rev ([RegWrite KEYMGR_SHA_TRIG 2] @
                       ladder_events (sim cfg_fault10) frk2_cert_sequence
                         (replicate 9 ([0, 1], 0) @ [([0, 1], 4)]))\<rparr>) \<and>
   reg_writes GLOBALSEC_FLASH_REGION7_CTRL
     ([RegWrite KEYMGR_SHA_TRIG 2] @
      ladder_events (sim cfg_fault10) frk2_cert_sequence
        (replicate 9 ([0, 1], 0) @ [([0, 1], 4)])) = [] \<and>
   tpm_endorse (sim cfg_bad_type) sim_garbage sim_garbage sim_init =
     Some (0, sim_seed, sim_after (sim_window6_events @ sim_seed_recovery_events cfg_bad_type)) \<and>
   reg_writes GLOBALSEC_FLASH_REGION6_CTRL
     (sim_window6_events @ sim_seed_recovery_events cfg_bad_type) = [3]"
proof -
  have g: "get_decrypted_eps (sim cfg0) sim_garbage sim_garbage sim_init =
     Some (1, sim_seed, sim_after (sim_seed_recovery_events cfg0))"
    using sim_get_decrypted_eps [of cfg0 sim_garbage False "[]"]
    by (simp add: sim_init_def sim_after_def)
  have c: "compute_frk2 (sim cfg_fault10) sim_garbage sim_init =
     Some (0, sim_garbage,
           \<lparr>hw = \<lparr>steps = 10, ready = True\<rparr>,
            log = rev ([RegWrite KEYMGR_SHA_TRIG 2] @
                       ladder_events (sim cfg_fault10) frk2_cert_sequence
                         (replicate 9 ([0, 1], 0) @ [([0, 1], 4)]))\<rparr>)"
    using sim_compute_frk2_fault [of cfg_fault10 sim_garbage False "[]"]
    by (simp add: sim_init_def)
  have gf: "get_decrypted_eps (sim cfg_fault10) sim_garbage sim_garbage sim_init =
     Some (0, sim_garbage,
           \<lparr>hw = \<lparr>steps = 10, ready = True\<rparr>,
            log = rev ([RegWrite KEYMGR_SHA_TRIG 2] @
                       ladder_events (sim cfg_fault10) frk2_cert_sequence
                         (replicate 9 ([0, 1], 0) @ [([0, 1], 4)]))\<rparr>)"
    by (simp add: get_decrypted_eps_def c)
  note e = sim_tpm_endorse_bad_type [of sim_garbage]
  note w1 = read_windows [of "sim cfg0" sim_garbage sim_garbage sim_init, THEN conjunct1,
      rule_format, OF g, of "sim_seed_recovery_events cfg0"]
  note w2 = read_windows [of "sim cfg_fault10" sim_garbage sim_garbage sim_init, THEN conjunct1,
      rule_format, OF gf, of "[RegWrite KEYMGR_SHA_TRIG 2] @
                       ladder_events (sim cfg_fault10) frk2_cert_sequence
                         (replicate 9 ([0, 1], 0) @ [([0, 1], 4)])"]
  note w3 = read_windows [of "sim cfg_bad_type" sim_garbage sim_garbage sim_init, THEN conjunct2,
      rule_format, OF e, of "sim_window6_events @ sim_seed_recovery_events cfg_bad_type"]
  have "last_write GLOBALSEC_FLASH_REGION7_CTRL (sim_seed_recovery_events cfg0) = Some 0"
    using w1 by simp
  moreover have "reg_writes GLOBALSEC_FLASH_REGION7_CTRL
     ([RegWrite KEYMGR_SHA_TRIG 2] @
      ladder_events (sim cfg_fault10) frk2_cert_sequence
        (replicate 9 ([0, 1], 0) @ [([0, 1], 4)])) = []"
    using w2 c by (simp add: trace_def sim_init_def)
  moreover have "reg_writes GLOBALSEC_FLASH_REGION6_CTRL
     (sim_window6_events @ sim_seed_recovery_events cfg_bad_type) = [3]"
    using w3 by (simp add: sim_consts_def)
  ultimately show ?thesis using g c e by blast
qed

text \<open>
  C2 as stated fails. When the third information-region read fails, \<open>get_decrypted_eps\<close>
  returns with the enabling value 3 as the last write to the control register of the
  information-region window; and \<open>tpm_endorse\<close>, here on an unprovisioned chip, returns with
  the enabling value 3 as the last write to the control register of the certificate-region
  window.
\<close>

theorem read_windows_left_open:
  "get_decrypted_eps (sim cfg_bad_read) sim_garbage sim_garbage sim_init =
     Some (0, take 8 sim_ciphertext @ drop 8 sim_garbage,
           sim_after (sim_ladder_events cfg_bad_read @ sim_window7_events @
                       [FlashInfoReadWord 0 0 0xA0B0C0D0, FlashInfoReadWord 4 0 0xA0B0C0D4,
                        FlashInfoReadWord 8 1 0])) \<and>
   last_write GLOBALSEC_FLASH_REGION7_CTRL
     (sim_ladder_events cfg_bad_read @ sim_window7_events @
        [FlashInfoReadWord 0 0 0xA0B0C0D0, FlashInfoReadWord 4 0 0xA0B0C0D4,
         FlashInfoReadWord 8 1 0]) = Some 3 \<and>
   tpm_endorse (sim cfg0) sim_garbage sim_garbage sim_init =
     Some (0, sim_garbage, \<lparr>hw = \<lparr>steps = 0, ready = False\<rparr>, log = rev sim_window6_events\<rparr>) \<and>
   last_write GLOBALSEC_FLASH_REGION6_CTRL sim_window6_events = Some 3"
proof -
  have "get_decrypted_eps (sim cfg_bad_read) sim_garbage sim_garbage sim_init =
     Some (0, take 8 sim_ciphertext @ drop 8 sim_garbage,
           sim_after (sim_ladder_events cfg_bad_read @ sim_window7_events @
                       [FlashInfoReadWord 0 0 0xA0B0C0D0, FlashInfoReadWord 4 0 0xA0B0C0D4,
                        FlashInfoReadWord 8 1 0]))"
    using sim_get_decrypted_eps_read_fail [of cfg_bad_read sim_garbage False "[]"]
    by (simp add: sim_init_def sim_after_def)
  moreover have "last_write GLOBALSEC_FLASH_REGION7_CTRL
     (sim_ladder_events cfg_bad_read @ sim_window7_events @
        [FlashInfoReadWord 0 0 0xA0B0C0D0, FlashInfoReadWord 4 0 0xA0B0C0D4,
         FlashInfoReadWord 8 1 0]) = Some 3"
    by (simp add: last_write_def sim_ladder_no_window7 sim_window7_events_def)
  moreover have "last_write GLOBALSEC_FLASH_REGION6_CTRL sim_window6_events = Some 3"
    by (simp add: last_write_def sim_window6_events_def)
  ultimately show ?thesis
    using sim_tpm_endorse_unprovisioned [of sim_garbage] by blast
qed

text \<open>
  C3 fails on the code. With a first record whose length field is 0xFFFFFFF4 the sums of
  both sanity checks wrap around to 20, so both checks pass, although 32 + 0xFFFFFFF4 is far
  larger than 2048; the second record is then read from offset 4 of the region, inside the
  first record, and \<open>tpm_endorse\<close> goes on to the HMAC check and the fallback installation.
\<close>

theorem sanity_checks_wrap_around:
  "cert_len (ro_cert_response (flash (sim cfg_overflow)) rsa_cert_addr) = 0xFFFFFFF4 \<and>
   sanity_checks_pass (flash (sim cfg_overflow)) \<and>
   2 * 16 + unat (cert_len (ro_cert_response (flash (sim cfg_overflow)) rsa_cert_addr)) > 2048 \<and>
   ecc_cert_addr (flash (sim cfg_overflow)) = RO_CERTS_START_ADDR + 4 \<and>
   tpm_endorse (sim cfg_overflow) sim_garbage sim_garbage sim_init =
     Some (0, replicate PRIMARY_SEED_SIZE 0,
           snd (install_fixed_certs (sim cfg_overflow)
                  (snd (cert_region_hmac_check (sim cfg_overflow) sim_seed
                          (sim_after (sim_window6_events @
                                      sim_seed_recovery_events cfg_overflow))))))"
proof -
  have l: "length overflow_region \<le> 2016" by (simp add: overflow_region_def)
  have "tpm_endorse (sim cfg_overflow) sim_garbage sim_garbage sim_init =
     Some (0, replicate PRIMARY_SEED_SIZE 0,
           snd (install_fixed_certs (sim cfg_overflow)
                  (snd (cert_region_hmac_check (sim cfg_overflow) sim_seed
                          (sim_after (sim_window6_events @
                                      sim_seed_recovery_events cfg_overflow))))))"
    by (rule sim_tpm_endorse_fallback [OF _ _ _ l]) (simp_all add: overflow_facts)
  moreover have "ecc_cert_addr (flash (sim cfg_overflow)) = RO_CERTS_START_ADDR + 4"
    by (simp add: ecc_cert_addr_def overflow_facts sizeof_ro_cert_def)
  ultimately show ?thesis
    by (simp add: overflow_facts)
qed

text \<open>
  C4. \<open>validate_cert\<close> accepts exactly when the component type is RSA or P256 certificate,
  the length is within the NV buffer, and one of the two roots verifies the signature; an
  over-long certificate is rejected with no verification call made (the log is unchanged).
\<close>

theorem validate_cert_accepts:
  "(fst (validate_cert P ci c eps s) \<noteq> 0 \<longleftrightarrow>
      (component_type ci = CROS_PERSO_COMPONENT_TYPE_RSA_CERT \<or>
       component_type ci = CROS_PERSO_COMPONENT_TYPE_P256_CERT) \<and>
      cert_len c \<le> MAX_NV_BUFFER_SIZE (tc P) \<and>
      (x509_verify_fn P (cert_bytes c) (PROD_ENDORSEMENT_CA_RSA_PUB (tc P)) \<noteq> 0 \<or>
       x509_verify_fn P (cert_bytes c) (TEST_ENDORSEMENT_CA_RSA_PUB (tc P)) \<noteq> 0)) \<and>
   (cert_len c > MAX_NV_BUFFER_SIZE (tc P) \<longrightarrow>
      fst (validate_cert P ci c eps s) = 0 \<and> trace (snd (validate_cert P ci c eps s)) = trace s)"
  using validate_cert_accepts_iff [of P ci c eps s] validate_cert_oversize [of P c ci eps s]
  by simp

theorem validate_cert_accepts_witness:
  "cert_len oversize_cert > MAX_NV_BUFFER_SIZE (tc (sim cfg0)) \<and>
   fst (validate_cert (sim cfg0) rsa_info oversize_cert sim_seed sim_init) = 0 \<and>
   trace (snd (validate_cert (sim cfg0) rsa_info oversize_cert sim_seed sim_init)) = [] \<and>
   fst (validate_cert (sim cfg0) rsa_info small_cert sim_seed sim_init) = 1"
proof -
  have big: "cert_len oversize_cert > MAX_NV_BUFFER_SIZE (tc (sim cfg0))"
    by (simp add: oversize_cert_def sim_consts_def)
  have t0: "trace sim_init = []"
    by (simp add: trace_def sim_init_def)
  have b: "cert_bytes small_cert = [0x30, 1, 2, 3]"
    by (simp add: cert_bytes_def small_cert_def) (simp add: upt_rec)
  have small: "fst (validate_cert (sim cfg0) rsa_info small_cert sim_seed sim_init) \<noteq> 0"
    using validate_cert_accepts [of "sim cfg0" rsa_info small_cert sim_seed sim_init]
    by (simp add: b rsa_info_def sim_consts_def CROS_PERSO_COMPONENT_TYPE_RSA_CERT_def
          sim_x509_verify_def PROD_ENDORSEMENT_CA_RSA_PUB_def)
       (simp add: small_cert_def)
  have "fst (validate_cert (sim cfg0) rsa_info small_cert sim_seed sim_init) \<in> {0, 1}"
    by (simp add: validate_cert_def Let_def DCRYPTO_x509_verify_def)
  with small have one: "fst (validate_cert (sim cfg0) rsa_info small_cert sim_seed sim_init) = 1"
    by auto
  from validate_cert_accepts [of "sim cfg0" rsa_info oversize_cert sim_seed sim_init] big
  have "fst (validate_cert (sim cfg0) rsa_info oversize_cert sim_seed sim_init) = 0 \<and>
        trace (snd (validate_cert (sim cfg0) rsa_info oversize_cert sim_seed sim_init)) =
          trace sim_init"
    by blast
  with big t0 one show ?thesis by simp
qed



text \<open>
  C6, as amended. The HMAC check of \<open>tpm_endorse\<close> passes exactly when the trailing 32
  bytes of the region equal HMAC(HMAC(seed, label), first 2016 bytes), where the label is
  the four bytes \<open>'R'\<close>, \<open>'S'\<close>, \<open>'A'\<close>, 0 (the string literal with its terminator). When
  it passes, flipping any single bit of the tag makes it fail; flipping any single bit of the
  covered bytes changes the covered bytes and leaves the tag, so the check then fails
  exactly when the HMAC of the changed bytes differs from the HMAC of the original ones.
\<close>

theorem region_hmac_check:
  "(fst (cert_region_hmac_check P eps s) \<longleftrightarrow>
      region_tag (flash P) =
        hmac_sha256 P (hmac_sha256 P (take PRIMARY_SEED_SIZE eps) [0x52, 0x53, 0x41, 0x00])
          (region_body (flash P))) \<and>
   (\<forall>off b. fst (cert_region_hmac_check P eps s) \<longrightarrow> 2016 \<le> off \<longrightarrow> off < 2048 \<longrightarrow> b < 8 \<longrightarrow>
      \<not> fst (cert_region_hmac_check (P\<lparr>flash := flip_region_bit (flash P) off b\<rparr>) eps s)) \<and>
   (\<forall>off b. fst (cert_region_hmac_check P eps s) \<longrightarrow> off < 2016 \<longrightarrow> b < 8 \<longrightarrow>
      region_body (flip_region_bit (flash P) off b) \<noteq> region_body (flash P) \<and>
      region_tag (flip_region_bit (flash P) off b) = region_tag (flash P) \<and>
      (\<not> fst (cert_region_hmac_check (P\<lparr>flash := flip_region_bit (flash P) off b\<rparr>) eps s) \<longleftrightarrow>
         hmac_sha256 P (hmac_sha256 P (take PRIMARY_SEED_SIZE eps) [0x52, 0x53, 0x41, 0x00])
           (region_body (flip_region_bit (flash P) off b)) \<noteq>
         hmac_sha256 P (hmac_sha256 P (take PRIMARY_SEED_SIZE eps) [0x52, 0x53, 0x41, 0x00])
           (region_body (flash P))))"
proof (intro conjI allI impI)
  show "fst (cert_region_hmac_check P eps s) \<longleftrightarrow>
      region_tag (flash P) =
        hmac_sha256 P (hmac_sha256 P (take PRIMARY_SEED_SIZE eps) [0x52, 0x53, 0x41, 0x00])
          (region_body (flash P))"
    by (simp add: hmac_check_iff region_hmac_def RSA_label_def)
next
  fix off b :: nat
  assume ok: "fst (cert_region_hmac_check P eps s)"
    and o: "2016 \<le> off" "off < 2048" and b: "b < 8"
  from ok have "region_tag (flash P) =
      region_hmac P RSA_label (take PRIMARY_SEED_SIZE eps) (region_body (flash P))"
    by (simp add: hmac_check_iff)
  with region_tag_flip_differs [OF o b, of "flash P"] region_body_flip_tag [OF o, of "flash P" b]
  show "\<not> fst (cert_region_hmac_check (P\<lparr>flash := flip_region_bit (flash P) off b\<rparr>) eps s)"
    by (simp add: hmac_check_iff)
next
  fix off b :: nat
  assume "off < 2016" "b < 8"
  then show "region_body (flip_region_bit (flash P) off b) \<noteq> region_body (flash P)"
    by (rule region_body_flip_differs)
next
  fix off b :: nat
  assume "off < 2016"
  then show "region_tag (flip_region_bit (flash P) off b) = region_tag (flash P)"
    by (rule region_tag_flip_body)
next
  fix off b :: nat
  assume ok: "fst (cert_region_hmac_check P eps s)" and o: "off < 2016"
  from ok have "region_tag (flash P) =
      region_hmac P RSA_label (take PRIMARY_SEED_SIZE eps) (region_body (flash P))"
    by (simp add: hmac_check_iff)
  with region_tag_flip_body [OF o, of "flash P" b]
  show "\<not> fst (cert_region_hmac_check (P\<lparr>flash := flip_region_bit (flash P) off b\<rparr>) eps s) \<longleftrightarrow>
         hmac_sha256 P (hmac_sha256 P (take PRIMARY_SEED_SIZE eps) [0x52, 0x53, 0x41, 0x00])
           (region_body (flip_region_bit (flash P) off b)) \<noteq>
         hmac_sha256 P (hmac_sha256 P (take PRIMARY_SEED_SIZE eps) [0x52, 0x53, 0x41, 0x00])
           (region_body (flash P))"
    by (auto simp: hmac_check_iff region_hmac_def RSA_label_def)
qed

theorem region_hmac_check_witness:
  "fst (cert_region_hmac_check (sim (cfg_tagged RSA_label)) sim_seed sim_init) \<and>
   \<not> fst (cert_region_hmac_check
           ((sim (cfg_tagged RSA_label))
              \<lparr>flash := flip_region_bit (flash (sim (cfg_tagged RSA_label))) 2047 0\<rparr>)
           sim_seed sim_init) \<and>
   region_body (flip_region_bit (flash (sim (cfg_tagged RSA_label))) 5 3) \<noteq>
     region_body (flash (sim (cfg_tagged RSA_label)))"
proof -
  have ok: "fst (cert_region_hmac_check (sim (cfg_tagged RSA_label)) sim_seed sim_init)"
    by (simp add: hmac_check_iff tagged_region_facts region_hmac_def)
  note t = region_hmac_check [of "sim (cfg_tagged RSA_label)" sim_seed sim_init]
  have "\<not> fst (cert_region_hmac_check
           ((sim (cfg_tagged RSA_label))
              \<lparr>flash := flip_region_bit (flash (sim (cfg_tagged RSA_label))) 2047 0\<rparr>)
           sim_seed sim_init)"
    using t [THEN conjunct2, THEN conjunct1, rule_format, OF ok, of 2047 0] by simp
  moreover have "region_body (flip_region_bit (flash (sim (cfg_tagged RSA_label))) 5 3) \<noteq>
     region_body (flash (sim (cfg_tagged RSA_label)))"
    using t [THEN conjunct2, THEN conjunct2, rule_format, OF ok, of 5 3] by simp
  ultimately show ?thesis using ok by blast
qed

text \<open>
  C6 as stated fails: a region whose tag is HMAC(HMAC(seed, "RSA"), covered bytes), with the
  three-byte label of the formula, does not pass the check, which hashes four bytes.
\<close>

theorem region_hmac_label_counterexample:
  "region_tag (flash (sim (cfg_tagged [0x52, 0x53, 0x41]))) =
     hmac_sha256 (sim (cfg_tagged [0x52, 0x53, 0x41]))
       (hmac_sha256 (sim (cfg_tagged [0x52, 0x53, 0x41])) sim_seed [0x52, 0x53, 0x41])
       (region_body (flash (sim (cfg_tagged [0x52, 0x53, 0x41])))) \<and>
   \<not> fst (cert_region_hmac_check (sim (cfg_tagged [0x52, 0x53, 0x41])) sim_seed sim_init)"
  by (simp add: hmac_check_iff tagged_region_facts region_hmac_def sim_hmac_tags)








text \<open>
  C10. The result of \<open>validate_cert\<close> depends on the component type, the certificate
  length and the certificate bytes only: not on the seed, the other fields of the
  descriptor, the key identifier or the state.
\<close>

theorem validate_cert_independent:
  assumes "component_type ci1 = component_type ci2"
      and "cert_len c1 = cert_len c2"
      and "\<forall>i < unat (cert_len c1). cert c1 i = cert c2 i"
  shows "fst (validate_cert P ci1 c1 eps1 s1) = fst (validate_cert P ci2 c2 eps2 s2)"
proof -
  have b: "cert_bytes c1 = cert_bytes c2"
    using assms(2,3) by (rule cert_bytes_cong)
  show ?thesis
    by (simp add: validate_cert_def DCRYPTO_x509_verify_def Let_def assms(1) assms(2) b)
qed

theorem validate_cert_independent_witness:
  "fst (validate_cert (sim cfg0) rsa_info small_cert sim_seed sim_init) =
   fst (validate_cert (sim cfg0)
          \<lparr>component_size = 999, component_type = 129, reserved = [1, 2, 3, 4, 5]\<rparr>
          \<lparr>key_id = [9, 9, 9, 9], cert_len = 4,
           cert = (\<lambda>i. if i < 4 then [0x30, 1, 2, 3] ! i else 0x77)\<rparr>
          sim_garbage (emit (NvCommitCall 1) sim_init))"
proof -
  have "\<forall>i < unat (cert_len small_cert).
          cert small_cert i =
          cert \<lparr>key_id = [9, 9, 9, 9], cert_len = 4,
                cert = (\<lambda>i. if i < 4 then [0x30, 1, 2, 3] ! i else (0x77 :: u8))\<rparr> i"
    by (simp add: small_cert_def)
  then show ?thesis
    by (intro validate_cert_independent) (simp_all add: rsa_info_def small_cert_def)
qed

end
